(* ===== verification/Prelude.thy ===== *)
theory Prelude
  imports Main "HOL-Library.Sublist" "HOL-Library.Char_ord" "HOL-Library.List_Lexorder"
    "HOL-Library.Product_Lexorder"
begin

text \<open>
  What every component shares: the Python string operations the sources use
  (\<open>in\<close>, \<open>startswith\<close>, \<open>find\<close>, slices, \<open>split\<close>, \<open>join\<close>, \<open>strip\<close>, \<open>int\<close>, \<open>str\<close>), the exceptions
  the code raises as a datatype, a state monad with exceptions for the code that
  mutates objects, and the rule collections the component theories rest on.
  A string is a list of characters; the program's texts are ASCII, so a character
  is a Python character.
\<close>

named_theorems py_simps "unfolding rules for the Python string operations"
named_theorems cmd_simps "execution rules of the state monad with exceptions"
named_theorems never_intros "introduction rules for exceptions that cannot happen"
named_theorems inv_intros "rules that show that a command keeps an invariant"

section \<open>Python strings\<close>

subsection \<open>Substrings\<close>

text \<open>\<open>p in s\<close>\<close>

fun is_in :: "'a list \<Rightarrow> 'a list \<Rightarrow> bool" where
  "is_in p [] = (p = [])"
| "is_in p (x # xs) = (prefix p (x # xs) \<or> is_in p xs)"

abbreviation startswith :: "'a list \<Rightarrow> 'a list \<Rightarrow> bool" where
  "startswith s p \<equiv> prefix p s"

abbreviation endswith :: "'a list \<Rightarrow> 'a list \<Rightarrow> bool" where
  "endswith s p \<equiv> suffix p s"

lemma is_in_iff_sublist: "is_in p s \<longleftrightarrow> sublist p s"
  by (induction s) (auto simp: sublist_Cons_right)

lemma is_in_append: "is_in p (xs @ p @ ys)"
  by (auto simp: is_in_iff_sublist sublist_def)

lemma is_in_Nil [simp]: "is_in [] s"
  by (cases s) auto

lemma is_in_appendI1: "is_in p xs \<Longrightarrow> is_in p (xs @ ys)"
  unfolding is_in_iff_sublist sublist_def by (metis append.assoc)

lemma is_in_appendI2: "is_in p ys \<Longrightarrow> is_in p (xs @ ys)"
  unfolding is_in_iff_sublist sublist_def by (metis append.assoc)

text \<open>\<open>s.find(p)\<close>: the position of the first occurrence, \<open>-1\<close> when there is none.\<close>

fun find_pos :: "'a list \<Rightarrow> 'a list \<Rightarrow> nat option" where
  "find_pos p [] = (if p = [] then Some 0 else None)"
| "find_pos p (x # xs) =
     (if prefix p (x # xs) then Some 0 else map_option Suc (find_pos p xs))"

definition py_find :: "'a list \<Rightarrow> 'a list \<Rightarrow> int" where
  "py_find s p = (case find_pos p s of None \<Rightarrow> - 1 | Some n \<Rightarrow> int n)"

text \<open>\<open>s.rfind(c)\<close> for a single character.\<close>

definition py_rfind :: "'a list \<Rightarrow> 'a \<Rightarrow> int" where
  "py_rfind s c = (case find_pos [c] (rev s) of None \<Rightarrow> - 1
                   | Some n \<Rightarrow> int (length s) - 1 - int n)"

lemma find_pos_fresh:
  "p \<noteq> [] \<Longrightarrow> hd p \<notin> set xs \<Longrightarrow> find_pos p (xs @ p @ ys) = Some (length xs)"
proof (induction xs)
  case Nil
  then show ?case by (cases p) auto
next
  case (Cons x xs)
  then show ?case by (cases p) auto
qed

lemma find_pos_None_iff: "find_pos p s = None \<longleftrightarrow> \<not> is_in p s"
  by (induction s) auto

subsection \<open>Slices and indices\<close>

text \<open>The position a slice bound stands for in a sequence of length \<open>n\<close>: negative bounds
  count from the end, bounds past an end are cut off.\<close>

definition slice_bound :: "nat \<Rightarrow> int \<Rightarrow> nat" where
  "slice_bound n i = (if i < 0 then nat (int n + i) else min n (nat i))"

definition slice_to :: "'a list \<Rightarrow> int \<Rightarrow> 'a list" where
  "slice_to s i = take (slice_bound (length s) i) s"

definition slice_from :: "'a list \<Rightarrow> int \<Rightarrow> 'a list" where
  "slice_from s i = drop (slice_bound (length s) i) s"

lemma slice_append [simp]: "slice_to s i @ slice_from s i = s"
  by (simp add: slice_to_def slice_from_def)

lemma slice_to_take: "0 \<le> i \<Longrightarrow> slice_to s i = take (nat i) s"
  by (simp add: slice_to_def slice_bound_def min_def)

lemma slice_from_drop: "0 \<le> i \<Longrightarrow> slice_from s i = drop (nat i) s"
  by (simp add: slice_from_def slice_bound_def min_def)

text \<open>The position an index stands for, \<open>None\<close> where Python raises \<open>IndexError\<close>; reading
  \<open>s[i]\<close> and assigning \<open>s[i] = v\<close>.\<close>

definition py_pos :: "nat \<Rightarrow> int \<Rightarrow> nat option" where
  "py_pos n i = (let j = (if i < 0 then int n + i else i)
                 in if 0 \<le> j \<and> j < int n then Some (nat j) else None)"

definition py_nth :: "'a list \<Rightarrow> int \<Rightarrow> 'a option" where
  "py_nth xs i = map_option (nth xs) (py_pos (length xs) i)"

definition py_upd :: "'a list \<Rightarrow> int \<Rightarrow> 'a \<Rightarrow> 'a list option" where
  "py_upd xs i v = map_option (\<lambda>j. xs[j := v]) (py_pos (length xs) i)"

lemma py_pos_nat: "0 \<le> i \<Longrightarrow> i < int n \<Longrightarrow> py_pos n i = Some (nat i)"
  by (simp add: py_pos_def)

lemma py_nth_nat: "0 \<le> i \<Longrightarrow> i < int (length xs) \<Longrightarrow> py_nth xs i = Some (xs ! nat i)"
  by (simp add: py_nth_def py_pos_nat)

lemma py_upd_nat: "0 \<le> i \<Longrightarrow> i < int (length xs) \<Longrightarrow> py_upd xs i v = Some (xs[nat i := v])"
  by (simp add: py_upd_def py_pos_nat)

lemma py_nth_last: "xs \<noteq> [] \<Longrightarrow> py_nth xs (- 1) = Some (last xs)"
  by (cases xs rule: rev_cases) (auto simp: py_nth_def py_pos_def Let_def nth_append)

subsection \<open>split, join, strip\<close>

fun split_on :: "'a \<Rightarrow> 'a list \<Rightarrow> 'a list list" where
  "split_on c [] = [[]]"
| "split_on c (x # xs) =
     (if x = c then [] # split_on c xs
      else (case split_on c xs of [] \<Rightarrow> [[x]] | y # ys \<Rightarrow> (x # y) # ys))"

fun join :: "'a list \<Rightarrow> 'a list list \<Rightarrow> 'a list" where
  "join sep [] = []"
| "join sep [x] = x"
| "join sep (x # y # ys) = x @ sep @ join sep (y # ys)"

lemma split_on_not_Nil [simp]: "split_on c s \<noteq> []"
  by (induction s) (auto split: list.splits)

lemma split_on_free: "c \<notin> set s \<Longrightarrow> split_on c s = [s]"
  by (induction s) auto

lemma split_on_append:
  "c \<notin> set xs \<Longrightarrow> split_on c (xs @ c # ys) = xs # split_on c ys"
  by (induction xs) auto

lemma join_split_on: "join [c] (split_on c s) = s"
proof (induction s)
  case Nil
  then show ?case by simp
next
  case (Cons x xs)
  obtain y ys where "split_on c xs = y # ys"
    by (cases "split_on c xs") auto
  with Cons show ?case by (cases ys) auto
qed

lemma split_on_join:
  assumes "ps \<noteq> []" and "\<forall>p \<in> set ps. c \<notin> set p"
  shows "split_on c (join [c] ps) = ps"
  using assms by (induction "[c]" ps rule: join.induct)
    (auto simp: split_on_free split_on_append)

definition is_space :: "char \<Rightarrow> bool" where
  "is_space c = (let n = of_char c :: nat in n = 32 \<or> 9 \<le> n \<and> n \<le> 13 \<or> 28 \<le> n \<and> n \<le> 31)"

definition lstrip :: "string \<Rightarrow> string" where
  "lstrip s = dropWhile is_space s"

definition rstrip :: "string \<Rightarrow> string" where
  "rstrip s = rev (dropWhile is_space (rev s))"

definition strip :: "string \<Rightarrow> string" where
  "strip s = rstrip (lstrip s)"

text \<open>\<open>s.strip(c)\<close>\<close>

definition strip_char :: "'a \<Rightarrow> 'a list \<Rightarrow> 'a list" where
  "strip_char c s = rev (dropWhile (\<lambda>x. x = c) (rev (dropWhile (\<lambda>x. x = c) s)))"

lemma dropWhile_fixed: "\<forall>x \<in> set s. \<not> P x \<Longrightarrow> dropWhile P s = s"
  by (cases s) auto

lemma strip_no_space: "\<forall>c \<in> set s. \<not> is_space c \<Longrightarrow> strip s = s"
  by (simp add: strip_def lstrip_def rstrip_def dropWhile_fixed)

lemma strip_char_fixed: "c \<notin> set s \<Longrightarrow> strip_char c s = s"
  unfolding strip_char_def by (subst dropWhile_fixed, force, subst dropWhile_fixed) auto

text \<open>\<open>s.split()\<close>: the maximal runs of non-space characters.\<close>

fun split_when :: "('a \<Rightarrow> bool) \<Rightarrow> 'a list \<Rightarrow> 'a list list" where
  "split_when P [] = [[]]"
| "split_when P (x # xs) =
     (if P x then [] # split_when P xs
      else (case split_when P xs of [] \<Rightarrow> [[x]] | y # ys \<Rightarrow> (x # y) # ys))"

definition words :: "string \<Rightarrow> string list" where
  "words s = filter (\<lambda>w. w \<noteq> []) (split_when is_space s)"

lemma split_when_free: "\<forall>x \<in> set s. \<not> P x \<Longrightarrow> split_when P s = [s]"
  by (induction s) auto

lemma split_when_clean: "\<forall>w \<in> set (split_when P s). \<forall>c \<in> set w. \<not> P c"
proof (induction s)
  case (Cons x xs)
  then show ?case by (cases "split_when P xs") (auto split: if_splits)
qed simp

lemma words_no_space: "s \<noteq> [] \<Longrightarrow> \<forall>c \<in> set s. \<not> is_space c \<Longrightarrow> words s = [s]"
  by (simp add: words_def split_when_free)

lemma words_clean: "w \<in> set (words s) \<Longrightarrow> w \<noteq> [] \<and> (\<forall>c \<in> set w. \<not> is_space c)"
  using split_when_clean [of is_space s] by (auto simp: words_def)

subsection \<open>Integers as strings\<close>

definition digit_char :: "nat \<Rightarrow> char" where
  "digit_char n = char_of (48 + n)"

definition is_digit :: "char \<Rightarrow> bool" where
  "is_digit c = (48 \<le> (of_char c :: nat) \<and> (of_char c :: nat) \<le> 57)"

definition digit_val :: "char \<Rightarrow> nat" where
  "digit_val c = of_char c - 48"

text \<open>\<open>str(n)\<close>\<close>

fun str_nat :: "nat \<Rightarrow> string" where
  "str_nat n = (if n < 10 then [digit_char n] else str_nat (n div 10) @ [digit_char (n mod 10)])"

declare str_nat.simps [simp del]

definition str_int :: "int \<Rightarrow> string" where
  "str_int i = (if i < 0 then CHR ''-'' # str_nat (nat (- i)) else str_nat (nat i))"

text \<open>\<open>int(s)\<close>: surrounding white space, a sign, and digits with single underscores between
  them; \<open>None\<close> where Python raises \<open>ValueError\<close>.\<close>

definition valid_digits :: "string \<Rightarrow> bool" where
  "valid_digits b = (b \<noteq> [] \<and> hd b \<noteq> CHR ''_'' \<and> last b \<noteq> CHR ''_'' \<and> \<not> is_in ''__'' b \<and>
     (\<forall>c \<in> set b. is_digit c \<or> c = CHR ''_''))"

definition digits_value :: "string \<Rightarrow> nat" where
  "digits_value b = foldl (\<lambda>a c. 10 * a + digit_val c) 0 (filter (\<lambda>c. c \<noteq> CHR ''_'') b)"

definition py_int :: "string \<Rightarrow> int option" where
  "py_int s =
     (let t = strip s;
          neg = (t \<noteq> [] \<and> hd t = CHR ''-'');
          b = (if t \<noteq> [] \<and> (hd t = CHR ''-'' \<or> hd t = CHR ''+'') then tl t else t)
      in if valid_digits b
         then Some (if neg then - int (digits_value b) else int (digits_value b))
         else None)"

lemma of_char_digit: "n < 10 \<Longrightarrow> (of_char (digit_char n) :: nat) = 48 + n"
  by (simp add: digit_char_def of_char_of)

lemma digit_char_simps [simp]:
  assumes "n < 10"
  shows "is_digit (digit_char n)" and "digit_val (digit_char n) = n"
    and "\<not> is_space (digit_char n)" and "digit_char n \<noteq> CHR ''_''"
    and "digit_char n \<noteq> CHR ''-''" and "digit_char n \<noteq> CHR ''+''"
  using of_char_digit [OF assms] assms
  by (auto simp: is_digit_def digit_val_def is_space_def Let_def)

lemma str_nat_ne [simp]: "str_nat n \<noteq> []"
  by (subst str_nat.simps) simp

lemma str_nat_digits: "c \<in> set (str_nat n) \<Longrightarrow> \<exists>d < 10. c = digit_char d"
proof (induction n rule: less_induct)
  case (less n)
  from less.prems consider "n < 10" "c = digit_char n" | "\<not> n < 10" "c \<in> set (str_nat (n div 10))"
    | "c = digit_char (n mod 10)"
    by (subst (asm) str_nat.simps) (auto split: if_splits)
  then show ?case
  proof cases
    case 2
    then show ?thesis using less.IH [of "n div 10"] by simp
  next
    case 3
    then show ?thesis by (intro exI [of _ "n mod 10"]) simp
  qed blast
qed

lemma str_nat_fresh:
  "c \<in> set (str_nat n) \<Longrightarrow> is_digit c \<and> \<not> is_space c \<and> c \<noteq> CHR ''_''"
  by (drule str_nat_digits) auto

lemma filter_str_nat: "filter (\<lambda>c. c \<noteq> CHR ''_'') (str_nat n) = str_nat n"
  by (rule filter_True) (use str_nat_fresh in blast)

lemma digits_value_str_nat [simp]: "digits_value (str_nat n) = n"
proof (induction n rule: less_induct)
  case (less n)
  have "digits_value (str_nat n) = 10 * digits_value (str_nat (n div 10)) + n mod 10" if "\<not> n < 10"
    using that by (simp add: digits_value_def str_nat.simps [of n] filter_str_nat)
  moreover have "digits_value (str_nat n) = n" if "n < 10"
    using that by (simp add: digits_value_def str_nat.simps [of n])
  ultimately show ?case using less.IH [of "n div 10"] by (cases "n < 10") simp_all
qed

lemma valid_digits_str_nat [simp]: "valid_digits (str_nat n)"
proof -
  have u: "CHR ''_'' \<notin> set (str_nat n)"
    using str_nat_fresh by blast
  have "\<not> is_in ''__'' (str_nat n)"
    unfolding is_in_iff_sublist using u set_mono_sublist [of "''__''"] by auto
  moreover have "hd (str_nat n) \<in> set (str_nat n)" "last (str_nat n) \<in> set (str_nat n)"
    by simp_all
  ultimately show ?thesis
    using u str_nat_fresh unfolding valid_digits_def by (metis str_nat_ne)
qed

lemma py_int_str_int [simp]: "py_int (str_int i) = Some i"
proof -
  have m: "\<not> is_space (CHR ''-'')" by (simp add: is_space_def)
  have strip1: "strip (CHR ''-'' # str_nat n) = CHR ''-'' # str_nat n"
    "strip (str_nat n) = str_nat n" for n
    by (rule strip_no_space; use str_nat_fresh m in auto)+
  have hd: "hd (str_nat n) \<noteq> CHR ''-'' \<and> hd (str_nat n) \<noteq> CHR ''+''" for n
  proof -
    have "hd (str_nat n) \<in> set (str_nat n)" by simp
    then obtain d where "d < 10" "hd (str_nat n) = digit_char d"
      using str_nat_digits by blast
    then show ?thesis by simp
  qed
  show ?thesis
    by (auto simp: py_int_def str_int_def Let_def strip1 hd)
qed

declare domIff [code_unfold]

section \<open>Exceptions\<close>

text \<open>
  The exceptions the modelled code raises or lets through. \<open>utils.err\<close> prints its message
  and calls \<open>sys.exit(1)\<close>, \<open>sys.exit(message)\<close> does the same with status 1, and
  \<open>sys.exit()\<close> has no status: all three are \<open>SystemExit\<close> with the message.
\<close>

datatype exn =
    SymbioticException string
  | SymbioticExceptionalResult string
  | SystemExit string
  | AssertionError
  | KeyError
  | IndexError
  | ValueError
  | TypeError
  | AttributeError
  | NotImplementedErr
  | RecursionError
  | NameError
  | OSError
  | StructError
  | Timeout
  | KeyboardInterrupt
  | Diverges

text \<open>\<open>Diverges\<close> is not raised by the program: a loop that is bounded in the model has used up its
  bound, or the program waits for a process that never ends.\<close>

text \<open>\<open>utils.err\<close>\<close>

definition err :: "string \<Rightarrow> exn + 'a" where
  "err msg = Inl (SystemExit msg)"

definition bindE :: "exn + 'a \<Rightarrow> ('a \<Rightarrow> exn + 'b) \<Rightarrow> exn + 'b" where
  "bindE r k = (case r of Inl e \<Rightarrow> Inl e | Inr x \<Rightarrow> k x)"

definition of_opt :: "exn \<Rightarrow> 'a option \<Rightarrow> exn + 'a" where
  "of_opt e x = (case x of None \<Rightarrow> Inl e | Some y \<Rightarrow> Inr y)"

definition guardE :: "bool \<Rightarrow> exn \<Rightarrow> exn + unit" where
  "guardE b e = (if b then Inr () else Inl e)"

fun mapE :: "('a \<Rightarrow> exn + 'b) \<Rightarrow> 'a list \<Rightarrow> exn + 'b list" where
  "mapE f [] = Inr []"
| "mapE f (x # xs) = bindE (f x) (\<lambda>y. bindE (mapE f xs) (\<lambda>ys. Inr (y # ys)))"

fun foldE :: "('a \<Rightarrow> 's \<Rightarrow> exn + 's) \<Rightarrow> 'a list \<Rightarrow> 's \<Rightarrow> exn + 's" where
  "foldE f [] s = Inr s"
| "foldE f (x # xs) s = bindE (f x s) (foldE f xs)"

lemma bindE_simps [simp]: "bindE (Inl e) k = Inl e" "bindE (Inr x) k = k x"
  by (simp_all add: bindE_def)

lemma if_eqE:
  assumes "(if b then x else y) = r"
  obtains "b" "x = r" | "\<not> b" "y = r"
  using assms by (cases b) auto

lemma bindE_eq_Inr: "bindE r k = Inr y \<longleftrightarrow> (\<exists>x. r = Inr x \<and> k x = Inr y)"
  by (cases r) auto

lemma of_opt_simps [simp]: "of_opt e None = Inl e" "of_opt e (Some x) = Inr x"
  by (simp_all add: of_opt_def)

lemma of_opt_eq_Inr [simp]: "of_opt e x = Inr y \<longleftrightarrow> x = Some y"
  by (cases x) auto

lemma guardE_eq_Inr [simp]: "guardE b e = Inr u \<longleftrightarrow> b"
  by (simp add: guardE_def)

lemma guardE_True [simp]: "guardE True e = Inr ()"
  by (simp add: guardE_def)

lemma guardE_False [simp]: "guardE False e = Inl e"
  by (simp add: guardE_def)

lemma mapE_length: "mapE f xs = Inr ys \<Longrightarrow> length ys = length xs"
  by (induction xs arbitrary: ys) (auto simp: bindE_eq_Inr)

lemma mapE_nth: "mapE f xs = Inr ys \<Longrightarrow> i < length xs \<Longrightarrow> f (xs ! i) = Inr (ys ! i)"
  by (induction xs arbitrary: ys i) (auto simp: bindE_eq_Inr nth_Cons split: nat.split)

lemma foldE_invariant:
  assumes "foldE f xs s = Inr s'" and "I s"
    and "\<And>x s s'. x \<in> set xs \<Longrightarrow> I s \<Longrightarrow> f x s = Inr s' \<Longrightarrow> I s'"
  shows "I s'"
  using assms by (induction xs arbitrary: s) (auto simp: bindE_eq_Inr)

lemma foldE_append: "foldE f (xs @ ys) s = bindE (foldE f xs s) (foldE f ys)"
proof (induction xs arbitrary: s)
  case (Cons x xs)
  show ?case by (cases "f x s") (simp_all add: Cons)
qed simp

section \<open>Commands: state passing with exceptions\<close>

text \<open>
  A method that mutates its object and may raise is a function from the state before to
  a result (the exception or the value) and the state after. The state at the moment
  of the exception is kept, since handlers run in it.
\<close>

type_synonym ('s, 'a) cmd = "'s \<Rightarrow> (exn + 'a) \<times> 's"

definition ret :: "'a \<Rightarrow> ('s, 'a) cmd" where
  "ret x = (\<lambda>s. (Inr x, s))"

definition throw :: "exn \<Rightarrow> ('s, 'a) cmd" where
  "throw e = (\<lambda>s. (Inl e, s))"

definition bnd :: "('s, 'a) cmd \<Rightarrow> ('a \<Rightarrow> ('s, 'b) cmd) \<Rightarrow> ('s, 'b) cmd" where
  "bnd m k = (\<lambda>s. case m s of (Inl e, s') \<Rightarrow> (Inl e, s') | (Inr x, s') \<Rightarrow> k x s')"

definition sq :: "('s, 'a) cmd \<Rightarrow> ('s, 'b) cmd \<Rightarrow> ('s, 'b) cmd" where
  "sq m n = bnd m (\<lambda>_. n)"

definition reads :: "('s \<Rightarrow> 'a) \<Rightarrow> ('s, 'a) cmd" where
  "reads f = (\<lambda>s. (Inr (f s), s))"

definition upd :: "('s \<Rightarrow> 's) \<Rightarrow> ('s, unit) cmd" where
  "upd f = (\<lambda>s. (Inr (), f s))"

definition onlyif :: "bool \<Rightarrow> ('s, unit) cmd \<Rightarrow> ('s, unit) cmd" where
  "onlyif b m = (if b then m else ret ())"

definition handle :: "('s, 'a) cmd \<Rightarrow> (exn \<Rightarrow> ('s, 'a) cmd) \<Rightarrow> ('s, 'a) cmd" where
  "handle m h = (\<lambda>s. case m s of (Inl e, s') \<Rightarrow> h e s' | (Inr x, s') \<Rightarrow> (Inr x, s'))"

text \<open>\<open>try: m finally: c\<close>\<close>

definition finally_do :: "('s, 'a) cmd \<Rightarrow> ('s, unit) cmd \<Rightarrow> ('s, 'a) cmd" where
  "finally_do m c =
     (\<lambda>s. case m s of (r, s') \<Rightarrow> (case c s' of (Inl e, s'') \<Rightarrow> (Inl e, s'') | (Inr _, s'') \<Rightarrow> (r, s'')))"

definition lift :: "exn + 'a \<Rightarrow> ('s, 'a) cmd" where
  "lift r = (\<lambda>s. (r, s))"

definition assertc :: "bool \<Rightarrow> ('s, unit) cmd" where
  "assertc b = (if b then ret () else throw AssertionError)"

text \<open>\<open>with_state f\<close>: a command that depends on the state it starts in.\<close>

definition with_state :: "('s \<Rightarrow> ('s, 'a) cmd) \<Rightarrow> ('s, 'a) cmd" where
  "with_state f = (\<lambda>s. f s s)"

text \<open>A block of statements, a \<open>for\<close> loop, a comprehension.\<close>

fun steps :: "('s, unit) cmd list \<Rightarrow> ('s, unit) cmd" where
  "steps [] = ret ()"
| "steps (m # ms) = sq m (steps ms)"

fun each :: "('a \<Rightarrow> ('s, unit) cmd) \<Rightarrow> 'a list \<Rightarrow> ('s, unit) cmd" where
  "each f [] = ret ()"
| "each f (x # xs) = sq (f x) (each f xs)"

fun mapm :: "('a \<Rightarrow> ('s, 'b) cmd) \<Rightarrow> 'a list \<Rightarrow> ('s, 'b list) cmd" where
  "mapm f [] = ret []"
| "mapm f (x # xs) = bnd (f x) (\<lambda>y. bnd (mapm f xs) (\<lambda>ys. ret (y # ys)))"

lemma cmd_run [cmd_simps]:
  "ret x s = (Inr x, s)"
  "throw e s = (Inl e, s)"
  "reads f s = (Inr (f s), s)"
  "upd g s = (Inr (), g s)"
  "lift r s = (r, s)"
  "with_state h s = h s s"
  by (simp_all add: ret_def throw_def reads_def upd_def lift_def with_state_def)

lemma bnd_run [cmd_simps]:
  "m s = (Inl e, s') \<Longrightarrow> bnd m k s = (Inl e, s')"
  "m s = (Inr x, s') \<Longrightarrow> bnd m k s = k x s'"
  by (simp_all add: bnd_def)

lemma onlyif_simps [simp]: "onlyif True m = m" "onlyif False m = ret ()"
  by (simp_all add: onlyif_def)

lemma assertc_simps [simp]: "assertc True = ret ()" "assertc False = throw AssertionError"
  by (simp_all add: assertc_def)

lemma bnd_ret [simp]: "bnd (ret x) k = k x" "bnd m ret = m"
  by (auto simp: bnd_def ret_def fun_eq_iff split: prod.splits sum.splits)

lemma sq_ret [simp]: "sq (ret x) m = m"
  by (simp add: sq_def)

lemma bnd_throw [simp]: "bnd (throw e) k = throw e" "sq (throw e) m = throw e"
  by (auto simp: bnd_def sq_def throw_def fun_eq_iff)

lemma bnd_assoc: "bnd (bnd m f) g = bnd m (\<lambda>x. bnd (f x) g)"
  by (auto simp: bnd_def fun_eq_iff split: prod.splits sum.splits)

lemma sq_run: "sq m n s = (case m s of (Inl e, s') \<Rightarrow> (Inl e, s') | (Inr x, s') \<Rightarrow> n s')"
  by (simp add: sq_def bnd_def)

lemma each_append: "each f (xs @ ys) = sq (each f xs) (each f ys)"
proof (induction xs)
  case (Cons x xs)
  then show ?case by (simp add: sq_def bnd_assoc)
qed simp

subsection \<open>Invariants and triples\<close>

text \<open>
  \<open>triple P m Q E\<close>: from a state where \<open>P\<close> holds, \<open>m\<close> returns a value and state with \<open>Q\<close> or
  raises with \<open>E\<close>. \<open>keeps I m\<close>: \<open>m\<close> keeps \<open>I\<close>, on the exceptional paths too.
\<close>

definition triple ::
  "('s \<Rightarrow> bool) \<Rightarrow> ('s, 'a) cmd \<Rightarrow> ('a \<Rightarrow> 's \<Rightarrow> bool) \<Rightarrow> (exn \<Rightarrow> 's \<Rightarrow> bool) \<Rightarrow> bool" where
  "triple P m Q E \<longleftrightarrow>
     (\<forall>s. P s \<longrightarrow> (case m s of (Inl e, s') \<Rightarrow> E e s' | (Inr x, s') \<Rightarrow> Q x s'))"

definition keeps :: "('s \<Rightarrow> bool) \<Rightarrow> ('s, 'a) cmd \<Rightarrow> bool" where
  "keeps I m \<longleftrightarrow> (\<forall>s. I s \<longrightarrow> I (snd (m s)))"

lemma keepsI: "(\<And>s. I s \<Longrightarrow> I (snd (m s))) \<Longrightarrow> keeps I m"
  by (simp add: keeps_def)

lemma keepsD: "keeps I m \<Longrightarrow> I s \<Longrightarrow> I (snd (m s))"
  by (simp add: keeps_def)

lemma keeps_triple: "keeps I m \<longleftrightarrow> triple I m (\<lambda>_. I) (\<lambda>_. I)"
  unfolding keeps_def triple_def
  by (rule all_cong1) (simp split: prod.split sum.split)

text \<open>Rules for triples.\<close>

lemma triple_bnd:
  "triple P m R E \<Longrightarrow> (\<And>x. triple (R x) (k x) Q E) \<Longrightarrow> triple P (bnd m k) Q E"
  unfolding triple_def bnd_def by (fastforce split: prod.splits sum.splits)

lemma triple_ret: "(\<And>s. P s \<Longrightarrow> Q x s) \<Longrightarrow> triple P (ret x) Q E"
  by (simp add: triple_def cmd_run)

lemma triple_throw: "(\<And>s. P s \<Longrightarrow> E e s) \<Longrightarrow> triple P (throw e) Q E"
  by (simp add: triple_def cmd_run)

lemma triple_if: "(b \<Longrightarrow> triple P m Q E) \<Longrightarrow> (\<not> b \<Longrightarrow> triple P n Q E) \<Longrightarrow> triple P (if b then m else n) Q E"
  by simp

lemma triple_option:
  "(x = None \<Longrightarrow> triple P m Q E) \<Longrightarrow> (\<And>y. x = Some y \<Longrightarrow> triple P (k y) Q E) \<Longrightarrow>
    triple P (case x of None \<Rightarrow> m | Some y \<Rightarrow> k y) Q E"
  by (cases x) auto

lemma triple_pair: "(\<And>a b. x = (a, b) \<Longrightarrow> triple P (k a b) Q E) \<Longrightarrow> triple P (case x of (a, b) \<Rightarrow> k a b) Q E"
  by (cases x) auto

lemma triple_sq: "triple P m (\<lambda>_. R) E \<Longrightarrow> triple R n Q E \<Longrightarrow> triple P (sq m n) Q E"
  unfolding sq_def by (rule triple_bnd)

lemma triple_onlyif: "(b \<Longrightarrow> triple P m (\<lambda>_. Q) E) \<Longrightarrow> (\<not> b \<Longrightarrow> (\<And>s. P s \<Longrightarrow> Q s)) \<Longrightarrow> triple P (onlyif b m) (\<lambda>_. Q) E"
  by (cases b) (auto intro: triple_ret)

lemma triple_upd_sq: "triple R n Q E \<Longrightarrow> (\<And>s. P s \<Longrightarrow> R (g s)) \<Longrightarrow> triple P (sq (upd g) n) Q E"
  by (auto simp: triple_def sq_run cmd_run)

lemma keeps_post: "keeps I m \<Longrightarrow> triple I m (\<lambda>_. I) (\<lambda>_ _. True)"
  unfolding keeps_triple triple_def by (fastforce split: prod.splits sum.splits)

lemma triple_with_state:
  "(\<And>s0. P s0 \<Longrightarrow> triple P (f s0) Q E) \<Longrightarrow> triple P (with_state f) Q E"
  by (simp add: triple_def cmd_run)

lemma triple_ex:
  assumes "\<And>x. triple (X x) m Q E"
  shows "triple (\<lambda>s. \<exists>x. X x s) m Q E"
  unfolding triple_def
proof (intro allI impI)
  fix s assume "\<exists>x. X x s"
  then obtain x where "X x s" ..
  with assms [of x] show "case m s of (Inl e, s') \<Rightarrow> E e s' | (Inr x, s') \<Rightarrow> Q x s'"
    unfolding triple_def by simp
qed

lemma triple_weaken: "triple P m Q E \<Longrightarrow> (\<And>x s. Q x s \<Longrightarrow> Q' x s) \<Longrightarrow> triple P m Q' E"
  unfolding triple_def by (fastforce split: prod.splits sum.splits)

lemma triple_conseq:
  "triple P m Q E \<Longrightarrow> (\<And>x s. Q x s \<Longrightarrow> Q' x s) \<Longrightarrow> (\<And>e s. E e s \<Longrightarrow> E' e s) \<Longrightarrow> triple P m Q' E'"
  unfolding triple_def by (fastforce split: prod.splits sum.splits)

lemma triple_pure: "(\<phi> \<Longrightarrow> triple P m Q E) \<Longrightarrow> triple (\<lambda>s. P s \<and> \<phi>) m Q E"
  by (auto simp: triple_def)

lemma triple_lift: "(\<And>e s. P s \<Longrightarrow> E e s) \<Longrightarrow> triple P (lift r) (\<lambda>x s. P s \<and> r = Inr x) E"
  by (auto simp: triple_def cmd_run split: sum.splits)

lemma keeps_both: "keeps I m \<Longrightarrow> keeps J m \<Longrightarrow> keeps (\<lambda>s. I s \<and> J s) m"
  by (auto simp: keeps_def)

lemma keeps_ret [inv_intros]: "keeps I (ret x)"
  by (simp add: keeps_def cmd_run)

lemma keeps_throw [inv_intros]: "keeps I (throw e)"
  by (simp add: keeps_def cmd_run)

lemma keeps_reads [inv_intros]: "keeps I (reads f)"
  by (simp add: keeps_def cmd_run)

lemma keeps_lift [inv_intros]: "keeps I (lift r)"
  by (simp add: keeps_def cmd_run)

lemma keeps_assertc [inv_intros]: "keeps I (assertc b)"
  by (cases b) (auto intro: inv_intros)

lemma keeps_upd [inv_intros]: "(\<And>s. I s \<Longrightarrow> I (f s)) \<Longrightarrow> keeps I (upd f)"
  by (simp add: keeps_def cmd_run)

lemma keeps_bnd [inv_intros]: "keeps I m \<Longrightarrow> (\<And>x. keeps I (k x)) \<Longrightarrow> keeps I (bnd m k)"
  unfolding keeps_def bnd_def
  by (simp split: prod.split sum.split) (metis snd_conv)

lemma keeps_sq [inv_intros]: "keeps I m \<Longrightarrow> keeps I n \<Longrightarrow> keeps I (sq m n)"
  by (simp add: sq_def keeps_bnd)

lemma keeps_onlyif [inv_intros]: "(b \<Longrightarrow> keeps I m) \<Longrightarrow> keeps I (onlyif b m)"
  by (cases b) (auto intro: inv_intros)

lemma keeps_if [inv_intros]: "(b \<Longrightarrow> keeps I m) \<Longrightarrow> (\<not> b \<Longrightarrow> keeps I n) \<Longrightarrow> keeps I (if b then m else n)"
  by auto

lemma keeps_finally [inv_intros]: "keeps I m \<Longrightarrow> keeps I c \<Longrightarrow> keeps I (finally_do m c)"
  unfolding keeps_def finally_do_def
  by (simp split: prod.split sum.split) (metis snd_conv)

lemma keeps_handle [inv_intros]:
  "keeps I m \<Longrightarrow> (\<And>e. keeps I (h e)) \<Longrightarrow> keeps I (handle m h)"
  unfolding keeps_def handle_def
  by (simp split: prod.split sum.split) (metis snd_conv)

lemma keeps_with_state [inv_intros]:
  "(\<And>s. I s \<Longrightarrow> keeps I (f s)) \<Longrightarrow> keeps I (with_state f)"
  by (simp add: keeps_def cmd_run)

lemma keeps_steps [inv_intros]: "(\<And>m. m \<in> set ms \<Longrightarrow> keeps I m) \<Longrightarrow> keeps I (steps ms)"
  by (induction ms) (auto intro: inv_intros)

lemma keeps_each [inv_intros]: "(\<And>x. x \<in> set xs \<Longrightarrow> keeps I (f x)) \<Longrightarrow> keeps I (each f xs)"
  by (induction xs) (auto intro: inv_intros)

lemma keeps_mapm [inv_intros]: "(\<And>x. x \<in> set xs \<Longrightarrow> keeps I (f x)) \<Longrightarrow> keeps I (mapm f xs)"
  by (induction xs) (auto intro!: inv_intros)

subsection \<open>Exceptions that cannot happen\<close>

definition never_raises :: "exn \<Rightarrow> ('s, 'a) cmd \<Rightarrow> bool" where
  "never_raises e m \<longleftrightarrow> (\<forall>s. fst (m s) \<noteq> Inl e)"

lemma never_raisesD: "never_raises e m \<Longrightarrow> fst (m s) \<noteq> Inl e"
  by (simp add: never_raises_def)

lemma never_raises_run: "never_raises e m \<Longrightarrow> m s = (r, s') \<Longrightarrow> r \<noteq> Inl e"
  by (metis fst_conv never_raisesD)

lemma never_basic [never_intros]:
  "never_raises e (ret x)" "never_raises e (reads f)" "never_raises e (upd g)"
  "e' \<noteq> e \<Longrightarrow> never_raises e (throw e')" "r \<noteq> Inl e \<Longrightarrow> never_raises e (lift r)"
  by (auto simp: never_raises_def cmd_run)

lemma never_bnd [never_intros]:
  "never_raises e m \<Longrightarrow> (\<And>x. never_raises e (k x)) \<Longrightarrow> never_raises e (bnd m k)"
  unfolding never_raises_def bnd_def
  by (simp split: prod.split sum.split) (metis fst_conv)

lemma never_sq [never_intros]:
  "never_raises e m \<Longrightarrow> never_raises e n \<Longrightarrow> never_raises e (sq m n)"
  by (simp add: sq_def never_bnd)

lemma never_onlyif [never_intros]: "(b \<Longrightarrow> never_raises e m) \<Longrightarrow> never_raises e (onlyif b m)"
  by (cases b) (auto intro: never_intros)

lemma never_if [never_intros]:
  "(b \<Longrightarrow> never_raises e m) \<Longrightarrow> (\<not> b \<Longrightarrow> never_raises e n) \<Longrightarrow>
   never_raises e (if b then m else n)"
  by auto

lemma never_handle [never_intros]:
  "never_raises e m \<Longrightarrow> (\<And>e'. e' \<noteq> e \<Longrightarrow> never_raises e (h e')) \<Longrightarrow> never_raises e (handle m h)"
  unfolding never_raises_def handle_def
  by (simp split: prod.split sum.split) (metis fst_conv)

lemma never_finally [never_intros]:
  "never_raises e m \<Longrightarrow> never_raises e c \<Longrightarrow> never_raises e (finally_do m c)"
  unfolding never_raises_def finally_do_def
  by (simp split: prod.split sum.split) (metis fst_conv)

lemma never_assertc [never_intros]: "e \<noteq> AssertionError \<Longrightarrow> never_raises e (assertc b)"
  by (cases b) (auto intro: never_intros)

lemma never_with_state [never_intros]:
  "(\<And>s. never_raises e (f s)) \<Longrightarrow> never_raises e (with_state f)"
  by (simp add: never_raises_def cmd_run)

lemma never_steps [never_intros]:
  "(\<And>m. m \<in> set ms \<Longrightarrow> never_raises e m) \<Longrightarrow> never_raises e (steps ms)"
  by (induction ms) (auto intro: never_intros)

lemma never_mapm [never_intros]:
  "(\<And>x. x \<in> set xs \<Longrightarrow> never_raises e (f x)) \<Longrightarrow> never_raises e (mapm f xs)"
  by (induction xs) (auto intro!: never_intros)

lemma never_each [never_intros]:
  "(\<And>x. x \<in> set xs \<Longrightarrow> never_raises e (f x)) \<Longrightarrow> never_raises e (each f xs)"
  by (induction xs) (auto intro: never_intros)

end
