(* ===== verification/Clang.thy ===== *)
theory Clang
  imports Prelude
begin

text \<open>
  The part of a clang syntax tree the program reads. The tree itself is made by libclang,
  which is not part of the repository: it is an argument of the definitions that walk it.
  A cursor has its kind, the file it is located in (\<open>None\<close> when clang gives no file), its
  extent (start, and the position just after its last character), clang's classification
  of its kind as expression, statement or declaration, its tokens and its children.
  Lines and columns are counted from 1.
\<close>

type_synonym loc = "int \<times> int"

datatype cursor_kind =
    CALL_EXPR | CONDITIONAL_OPERATOR | PAREN_EXPR
  | COMPOUND_STMT | LABEL_STMT | CASE_STMT | IF_STMT | SWITCH_STMT
  | WHILE_STMT | DO_STMT | FOR_STMT | OTHER_KIND

record extent =
  ext_start :: loc
  ext_end :: loc

record token =
  spelling :: string
  tok_extent :: extent

record cursor_data =
  ckind :: cursor_kind
  cfile :: "string option"
  cextent :: extent
  is_expression :: bool
  is_stmt_kind :: bool
  is_declaration :: bool
  tokens :: "token list"

datatype cursor = Cursor (cdata: cursor_data) (children: "cursor list")

abbreviation kind_of :: "cursor \<Rightarrow> cursor_kind" where
  "kind_of n \<equiv> ckind (cdata n)"

abbreviation start_of :: "cursor \<Rightarrow> loc" where
  "start_of n \<equiv> ext_start (cextent (cdata n))"

abbreviation end_of :: "cursor \<Rightarrow> loc" where
  "end_of n \<equiv> ext_end (cextent (cdata n))"

text \<open>\<open>not child.location.file or child.location.file.name != program_file\<close>\<close>

definition foreign :: "string \<Rightarrow> cursor \<Rightarrow> bool" where
  "foreign program_file child \<longleftrightarrow> cfile (cdata child) \<noteq> Some program_file"

text \<open>A cursor and the cursors below it.\<close>

fun subtree :: "cursor \<Rightarrow> cursor list" where
  "subtree (Cursor d cs) = Cursor d cs # concat (map subtree cs)"

lemma subtree_children: "c \<in> set (children n) \<Longrightarrow> set (subtree c) \<subseteq> set (subtree n)"
  by (cases n) auto

lemma subtree_self: "n \<in> set (subtree n)"
  by (cases n) auto

text \<open>\<open>location_in_range\<close> of the witness writer.\<close>

definition location_in_range :: "int \<Rightarrow> int \<Rightarrow> int \<Rightarrow> int \<Rightarrow> int \<Rightarrow> int \<Rightarrow> bool" where
  "location_in_range line col startline startcol endline endcol =
     (if startline > line \<or> endline < line then False
      else if startline = line \<and> startcol > col then False
      else if endline = line \<and> endcol < col then False
      else True)"

lemma location_in_range_lex:
  "location_in_range l c sl sc el ec \<longleftrightarrow> (sl, sc) \<le> (l, c) \<and> (l, c) \<le> (el, ec)"
  by (auto simp: location_in_range_def)

end
