(* ===== verification/Insertion.thy ===== *)
theory Insertion
  imports Prelude "HOL-Library.AList" "HOL-Library.Multiset"
begin

text \<open>
  How \<open>ValidationTransformer\<close> edits the program text: \<open>_insert_calls\<close> inserts the collected
  strings into the lines of the program from right to left and \<open>_add_shift\<close> records in
  \<open>_shift\<close> by how much each column moves; \<open>_shift_witness\<close> adds these amounts to the
  columns of the witness. \<open>_shift\<close> is a dictionary of dictionaries, kept as association
  lists in insertion order (the order in which Python iterates them).
  The lemmas show that the three stable sorts are one sort by a lexicographic key, that
  inserting from right to left is the simultaneous insertion of all strings at their
  original positions, and that the recorded amounts are the ones by which the characters
  of the program move.
\<close>

section \<open>The dictionary of shifts\<close>

type_synonym shift_map = "(int \<times> (int \<times> int) list) list"

definition add_shift :: "int \<Rightarrow> int \<Rightarrow> int \<Rightarrow> shift_map \<Rightarrow> shift_map" where
  "add_shift line col len sh =
     (case map_of sh line of
        Some m \<Rightarrow>
          (case map_of m col of
             Some n \<Rightarrow> AList.update line (AList.update col (n + len) m) sh
           | None \<Rightarrow> AList.update line (AList.update col len m) sh)
      | None \<Rightarrow> AList.update line [(col, len)] sh)"

text \<open>The loop \<open>for col in shift[line]: if column >= col: add += shift[line][col]\<close>.\<close>

definition column_shift :: "(int \<times> int) list \<Rightarrow> int \<Rightarrow> int" where
  "column_shift m column = foldl (\<lambda>add (col, n). if column \<ge> col then add + n else add) 0 m"

definition shifted_column :: "shift_map \<Rightarrow> int \<Rightarrow> int \<Rightarrow> int" where
  "shifted_column sh line column =
     (case map_of sh line of None \<Rightarrow> column | Some m \<Rightarrow> column + column_shift m column)"

text \<open>The invariant of the dictionary: no key twice, every recorded amount positive.\<close>

definition cols_ok :: "(int \<times> int) list \<Rightarrow> bool" where
  "cols_ok m \<longleftrightarrow> distinct (map fst m) \<and> (\<forall>(c, n) \<in> set m. 0 < n)"

definition shift_ok :: "shift_map \<Rightarrow> bool" where
  "shift_ok sh \<longleftrightarrow> distinct (map fst sh) \<and> (\<forall>(l, m) \<in> set sh. cols_ok m)"

text \<open>The amount recorded at a position.\<close>

definition shift_at :: "shift_map \<Rightarrow> int \<Rightarrow> int \<Rightarrow> int" where
  "shift_at sh l c =
     (case map_of sh l of None \<Rightarrow> 0
      | Some m \<Rightarrow> (case map_of m c of None \<Rightarrow> 0 | Some n \<Rightarrow> n))"

lemma shift_at_add_shift:
  "shift_at (add_shift l c n sh) l' c' = shift_at sh l' c' + (if l' = l \<and> c' = c then n else 0)"
  by (auto simp: shift_at_def add_shift_def update_conv' split: option.splits)

lemma set_update_subset: "set (AList.update k v al) \<subseteq> insert (k, v) (set al)"
  by (induction al) auto

lemma cols_ok_update: "cols_ok m \<Longrightarrow> 0 < n \<Longrightarrow> cols_ok (AList.update c n m)"
  using set_update_subset [of c n m] by (auto simp: cols_ok_def distinct_update)

lemma map_of_in: "map_of m k = Some v \<Longrightarrow> (k, v) \<in> set m"
  by (rule map_of_SomeD)

lemma shift_ok_update:
  assumes "shift_ok sh" and "cols_ok m"
  shows "shift_ok (AList.update l m sh)"
  using assms set_update_subset [of l m sh] by (auto simp: shift_ok_def distinct_update)

lemma shift_ok_cols: "shift_ok sh \<Longrightarrow> map_of sh l = Some m \<Longrightarrow> cols_ok m"
  by (auto simp: shift_ok_def dest: map_of_in)

lemma cols_ok_pos: "cols_ok m \<Longrightarrow> map_of m c = Some n \<Longrightarrow> 0 < n"
  by (auto simp: cols_ok_def dest: map_of_in)

lemma shift_ok_add_shift:
  assumes "shift_ok sh" and "0 < n"
  shows "shift_ok (add_shift l c n sh)"
proof (cases "map_of sh l")
  case None
  then show ?thesis
    using assms by (simp add: add_shift_def shift_ok_update cols_ok_def)
next
  case (Some m)
  with assms have m: "cols_ok m" by (blast dest: shift_ok_cols)
  show ?thesis
  proof (cases "map_of m c")
    case None
    then show ?thesis using assms m Some
      by (simp add: add_shift_def shift_ok_update cols_ok_update)
  next
    case (Some k)
    with m have "0 < k" by (rule cols_ok_pos)
    with assms m Some \<open>map_of sh l = Some m\<close> show ?thesis
      by (simp add: add_shift_def shift_ok_update cols_ok_update)
  qed
qed

lemma column_shift_sum_list:
  "column_shift m c = sum_list (map snd (filter (\<lambda>(col, n). col \<le> c) m))"
proof -
  have "foldl (\<lambda>add (col, n). if c \<ge> col then add + n else add) a m =
      a + sum_list (map snd (filter (\<lambda>(col, n). col \<le> c) m))" for a
    by (induction m arbitrary: a) auto
  then show ?thesis by (simp add: column_shift_def)
qed

lemma column_shift_sum:
  assumes "distinct (map fst m)" and "fst ` set m \<subseteq> {lo..}"
  shows "column_shift m c =
    (\<Sum>k = lo..c. case map_of m k of None \<Rightarrow> 0 | Some n \<Rightarrow> n)"
  using assms
proof (induction m)
  case Nil
  then show ?case by (simp add: column_shift_def)
next
  case (Cons x m)
  obtain k n where x: "x = (k, n)" by (cases x)
  have fresh: "map_of m k = None"
    using Cons.prems x by (auto simp: map_of_eq_None_iff)
  have split: "(\<Sum>i = lo..c. case map_of (x # m) i of None \<Rightarrow> 0 | Some n \<Rightarrow> n) =
      (\<Sum>i = lo..c. (if i = k then n else 0) + (case map_of m i of None \<Rightarrow> 0 | Some n \<Rightarrow> n))"
    by (rule sum.cong) (auto simp: x fresh)
  have "column_shift (x # m) c = (if k \<le> c then n else 0) + column_shift m c"
    by (simp add: column_shift_sum_list x)
  moreover have "(\<Sum>i = lo..c. if i = k then n else 0) = (if k \<le> c then n else 0)"
    using Cons.prems x by (simp add: sum.delta)
  moreover have "column_shift m c =
      (\<Sum>i = lo..c. case map_of m i of None \<Rightarrow> 0 | Some n \<Rightarrow> n)"
    using Cons by (intro Cons.IH) auto
  ultimately show ?case unfolding split sum.distrib by simp
qed

section \<open>Inserting the calls\<close>

text \<open>An item of \<open>_insert\<close>: line, column, value.\<close>

type_synonym insertion = "int \<times> int \<times> string"

text \<open>The three calls of \<open>list.sort\<close>; \<open>reverse = True\<close> keeps the order of equal items.\<close>

definition sort_inserts :: "insertion list \<Rightarrow> insertion list" where
  "sort_inserts xs =
     sort_key (\<lambda>item. - fst item)
       (sort_key (\<lambda>item. - fst (snd item))
         (sort_key (\<lambda>item. snd (snd item)) xs))"

definition insert_at :: "int \<Rightarrow> string \<Rightarrow> string \<Rightarrow> string" where
  "insert_at col value line = slice_to line (col - 1) @ value @ slice_from line (col - 1)"

definition insert_one ::
  "insertion \<Rightarrow> string list \<times> shift_map \<Rightarrow> exn + string list \<times> shift_map" where
  "insert_one item st =
     (case item of (line, col, value) \<Rightarrow>
        bindE (of_opt IndexError (py_nth (fst st) (line - 1))) (\<lambda>s.
        bindE (of_opt IndexError (py_upd (fst st) (line - 1) (insert_at col value s))) (\<lambda>ls.
        Inr (ls, add_shift line col (int (length value)) (snd st)))))"

definition insert_calls ::
  "insertion list \<Rightarrow> string list \<Rightarrow> shift_map \<Rightarrow> exn + string list \<times> shift_map" where
  "insert_calls ins c_lines sh = foldE insert_one (sort_inserts ins) (c_lines, sh)"

subsection \<open>The order of the insertions\<close>

text \<open>A sort by one key after a sort by another is one sort by the pair of keys.\<close>

lemma insort_key_pair:
  fixes f :: "'a \<Rightarrow> 'b::linorder" and g :: "'a \<Rightarrow> 'c::linorder"
  assumes "\<forall>y \<in> set ys. g x \<le> g y"
  shows "insort_key f x ys = insort_key (\<lambda>x. (f x, g x)) x ys"
  using assms by (induction ys) auto

lemma sort_key_pair:
  fixes f :: "'a \<Rightarrow> 'b::linorder" and g :: "'a \<Rightarrow> 'c::linorder"
  assumes "sorted (map g zs)"
  shows "sort_key f zs = sort_key (\<lambda>x. (f x, g x)) zs"
  using assms by (induction zs) (auto intro: insort_key_pair)

lemma sort_key_insort_key:
  fixes f :: "'a \<Rightarrow> 'b::linorder" and g :: "'a \<Rightarrow> 'c::linorder"
  shows "sort_key (\<lambda>x. (f x, g x)) (insort_key g x ys) =
    insort_key (\<lambda>x. (f x, g x)) x (sort_key (\<lambda>x. (f x, g x)) ys)"
proof (induction ys)
  case (Cons y ys)
  show ?case
  proof (cases "g x \<le> g y")
    case False
    then have "(f x, g x) \<noteq> (f y, g y)" by auto
    with False Cons show ?thesis by (simp add: insort_key_left_comm)
  qed simp
qed simp

lemma sort_key_compose:
  fixes f :: "'a \<Rightarrow> 'b::linorder" and g :: "'a \<Rightarrow> 'c::linorder"
  shows "sort_key f (sort_key g xs) = sort_key (\<lambda>x. (f x, g x)) xs"
proof -
  have "sort_key (\<lambda>x. (f x, g x)) (sort_key g xs) = sort_key (\<lambda>x. (f x, g x)) xs"
    by (induction xs) (simp_all add: sort_key_insort_key)
  then show ?thesis by (simp add: sort_key_pair [of g "sort_key g xs" f])
qed

definition insertion_key :: "insertion \<Rightarrow> int \<times> int \<times> string" where
  "insertion_key item = (- fst item, - fst (snd item), snd (snd item))"

lemma sort_inserts_key: "sort_inserts xs = sort_key insertion_key xs"
  by (simp add: sort_inserts_def sort_key_compose insertion_key_def [abs_def])

lemma set_sort_inserts [simp]: "set (sort_inserts xs) = set xs"
  by (simp add: sort_inserts_key)

lemma mset_sort_inserts [simp]: "mset (sort_inserts xs) = mset xs"
  by (simp add: sort_inserts_key)

text \<open>Right to left within a line: what the insertion of the texts relies on.\<close>

definition right_to_left :: "insertion list \<Rightarrow> bool" where
  "right_to_left xs \<longleftrightarrow>
     sorted_wrt (\<lambda>x y. fst x = fst y \<longrightarrow> fst (snd y) \<le> fst (snd x)) xs"

lemma right_to_left_sort_inserts: "right_to_left (sort_inserts xs)"
proof -
  have "sorted_wrt (\<lambda>x y. insertion_key x \<le> insertion_key y) (sort_inserts xs)"
    using sorted_sort_key [of insertion_key xs]
    by (simp add: sort_inserts_key sorted_map)
  then show ?thesis
    unfolding right_to_left_def
    by (rule sorted_wrt_mono_rel [rotated]) (auto simp: insertion_key_def)
qed

subsection \<open>Inserting at the original positions\<close>

text \<open>
  The specification of the insertions: the text \<open>f p\<close> goes in front of the character at
  column \<open>p\<close> of the original line, for all \<open>p\<close> at once; \<open>f (length line + 1)\<close> goes to the end.
\<close>

fun weave :: "(int \<Rightarrow> string) \<Rightarrow> int \<Rightarrow> string \<Rightarrow> string" where
  "weave f p [] = f p"
| "weave f p (x # xs) = f p @ x # weave f (p + 1) xs"

lemma weave_cong: "(\<And>q. p \<le> q \<Longrightarrow> f q = g q) \<Longrightarrow> weave f p s = weave g p s"
  by (induction s arbitrary: p) simp_all

lemma weave_empty: "(\<And>q. p \<le> q \<Longrightarrow> f q = []) \<Longrightarrow> weave f p s = s"
  by (induction s arbitrary: p) simp_all

text \<open>One insertion at a column left of which nothing was inserted yet.\<close>

lemma insert_at_weave:
  assumes "p \<le> c" and "c \<le> p + int (length s)" and "\<forall>q. p \<le> q \<and> q < c \<longrightarrow> f q = []"
  shows "take (nat (c - p)) (weave f p s) @ v @ drop (nat (c - p)) (weave f p s) =
    weave (f(c := v @ f c)) p s"
  using assms
proof (induction s arbitrary: p)
  case Nil
  then show ?case by simp
next
  case (Cons x xs)
  show ?case
  proof (cases "c = p")
    case True
    have "weave (f(c := v @ f c)) (p + 1) xs = weave f (p + 1) xs"
      by (rule weave_cong) (use True in auto)
    with True show ?thesis by (simp add: fun_upd_def)
  next
    case False
    with Cons.prems have "p + 1 \<le> c" "f p = []" by auto
    moreover have "nat (c - p) = Suc (nat (c - (p + 1)))"
      using False Cons.prems by auto
    moreover have "take (nat (c - (p + 1))) (weave f (p + 1) xs) @ v @
        drop (nat (c - (p + 1))) (weave f (p + 1) xs) = weave (f(c := v @ f c)) (p + 1) xs"
      using Cons.prems False by (intro Cons.IH) auto
    ultimately show ?thesis using False by (simp add: fun_upd_def)
  qed
qed

text \<open>Where a character of the original line is in the woven line.\<close>

lemma weave_nth:
  assumes "i < length s"
  shows "nat (int i + (\<Sum>q = p..p + int i. int (length (f q)))) < length (weave f p s)"
    and "weave f p s ! nat (int i + (\<Sum>q = p..p + int i. int (length (f q)))) = s ! i"
proof -
  have "nat (int i + (\<Sum>q = p..p + int i. int (length (f q)))) < length (weave f p s) \<and>
    weave f p s ! nat (int i + (\<Sum>q = p..p + int i. int (length (f q)))) = s ! i"
    using assms
  proof (induction s arbitrary: p i)
    case Nil
    then show ?case by simp
  next
    case (Cons x xs)
    show ?case
    proof (cases i)
      case 0
      then show ?thesis by (simp add: nth_append)
    next
      case (Suc j)
      define S where "S = (\<Sum>q = p + 1..p + 1 + int j. int (length (f q)))"
      have "{p..p + int i} = insert p {p + 1..p + 1 + int j}"
        using Suc by auto
      then have sum: "(\<Sum>q = p..p + int i. int (length (f q))) = int (length (f p)) + S"
        by (simp add: S_def)
      have "0 \<le> S" unfolding S_def by (simp add: sum_nonneg)
      then have n: "nat (int i + (\<Sum>q = p..p + int i. int (length (f q)))) =
          length (f p) + Suc (nat (int j + S))"
        unfolding sum using Suc by auto
      from Cons.prems Suc have "j < length xs" by simp
      from Cons.IH [OF this, of "p + 1"] show ?thesis
        unfolding n using Suc by (simp add: S_def nth_append)
    qed
  qed
  then show "nat (int i + (\<Sum>q = p..p + int i. int (length (f q)))) < length (weave f p s)"
    and "weave f p s ! nat (int i + (\<Sum>q = p..p + int i. int (length (f q)))) = s ! i" by simp_all
qed

subsection \<open>All insertions\<close>

text \<open>A position of the program: on a line of it, at one of its characters or at its end.\<close>

definition valid_pos :: "string list \<Rightarrow> int \<Rightarrow> int \<Rightarrow> bool" where
  "valid_pos ls l c \<longleftrightarrow> 1 \<le> l \<and> l \<le> int (length ls) \<and> 1 \<le> c \<and>
     c \<le> int (length (ls ! nat (l - 1))) + 1"

text \<open>The text that the insertions \<open>xs\<close>, done in this order, put at column \<open>p\<close> of line \<open>l\<close>.\<close>

definition pieces :: "insertion list \<Rightarrow> int \<Rightarrow> int \<Rightarrow> string" where
  "pieces xs l p = concat (rev (map (\<lambda>i. snd (snd i))
     (filter (\<lambda>i. fst i = l \<and> fst (snd i) = p) xs)))"

definition woven :: "(int \<Rightarrow> int \<Rightarrow> string) \<Rightarrow> string list \<Rightarrow> string list \<Rightarrow> bool" where
  "woven F ls0 ls \<longleftrightarrow> length ls = length ls0 \<and>
     (\<forall>i < length ls0. ls ! i = weave (F (int i + 1)) 1 (ls0 ! i))"

lemma pieces_Nil [simp]: "pieces [] l p = []"
  by (simp add: pieces_def)

lemma pieces_Cons:
  "pieces (x # xs) l p = pieces xs l p @ (if fst x = l \<and> fst (snd x) = p then snd (snd x) else [])"
  by (simp add: pieces_def)

lemma woven_cong: "woven F ls0 ls \<Longrightarrow> F = G \<Longrightarrow> woven G ls0 ls"
  by simp

lemma insert_one_woven:
  assumes w: "woven F ls0 ls" and v: "valid_pos ls0 l c"
    and e: "\<forall>q. 1 \<le> q \<and> q < c \<longrightarrow> F l q = []"
  shows "\<exists>ls'. insert_one (l, c, v) (ls, sh) = Inr (ls', add_shift l c (int (length v)) sh) \<and>
    woven (\<lambda>l' p. (if l' = l \<and> p = c then v else []) @ F l' p) ls0 ls'"
proof -
  define i where "i = nat (l - 1)"
  have i: "i < length ls0" "int i + 1 = l" and len: "length ls = length ls0"
    using v w by (auto simp: i_def valid_pos_def woven_def)
  have nth: "py_nth ls (l - 1) = Some (ls ! i)"
    and up: "\<And>s. py_upd ls (l - 1) s = Some (ls[i := s])"
    using v len by (auto simp: i_def valid_pos_def py_nth_nat py_upd_nat)
  define s' where "s' = insert_at c v (ls ! i)"
  have "s' = weave ((F l)(c := v @ F l c)) 1 (ls0 ! i)"
    using insert_at_weave [of 1 c "ls0 ! i" "F l" v] v e w i
    by (simp add: s'_def insert_at_def slice_to_take slice_from_drop valid_pos_def woven_def i_def)
  moreover have "(F l)(c := v @ F l c) = (\<lambda>p. (if p = c then v else []) @ F l p)"
    by auto
  ultimately have s': "s' = weave (\<lambda>p. (if p = c then v else []) @ F l p) 1 (ls0 ! i)"
    by simp
  have "insert_one (l, c, v) (ls, sh) = Inr (ls[i := s'], add_shift l c (int (length v)) sh)"
    by (simp add: insert_one_def nth up s'_def)
  moreover have "woven (\<lambda>l' p. (if l' = l \<and> p = c then v else []) @ F l' p) ls0 (ls[i := s'])"
    unfolding woven_def
  proof (intro conjI allI impI)
    fix j assume "j < length ls0"
    then show "ls[i := s'] ! j =
        weave (\<lambda>p. (if int j + 1 = l \<and> p = c then v else []) @ F (int j + 1) p) 1 (ls0 ! j)"
      using w i len s' by (cases "j = i") (auto simp: woven_def)
  qed (simp add: len)
  ultimately show ?thesis by blast
qed

lemma foldE_insert_one_woven:
  assumes "woven F ls0 ls" and "right_to_left xs" and "\<forall>(l, c, v) \<in> set xs. valid_pos ls0 l c"
    and "\<forall>(l, c, v) \<in> set xs. \<forall>q. 1 \<le> q \<and> q < c \<longrightarrow> F l q = []"
  shows "\<exists>ls' sh'. foldE insert_one xs (ls, sh) = Inr (ls', sh') \<and>
    woven (\<lambda>l p. pieces xs l p @ F l p) ls0 ls'"
  using assms
proof (induction xs arbitrary: F ls sh)
  case Nil
  then show ?case by simp
next
  case (Cons x xs)
  obtain l c v where x: "x = (l, c, v)" by (cases x)
  let ?F = "\<lambda>l' p. (if l' = l \<and> p = c then v else []) @ F l' p"
  from Cons.prems x obtain ls1 where one:
    "insert_one (l, c, v) (ls, sh) = Inr (ls1, add_shift l c (int (length v)) sh)"
    and w1: "woven ?F ls0 ls1"
    using insert_one_woven [of F ls0 ls l c v sh] by auto
  have "\<exists>ls' sh'. foldE insert_one xs (ls1, add_shift l c (int (length v)) sh) = Inr (ls', sh') \<and>
      woven (\<lambda>l p. pieces xs l p @ ?F l p) ls0 ls'"
  proof (rule Cons.IH [OF w1])
    show "right_to_left xs"
      using Cons.prems(2) by (simp add: right_to_left_def)
    show "\<forall>(l, c, v) \<in> set xs. valid_pos ls0 l c"
      using Cons.prems(3) by simp
    have "?F l' q = []" if y: "(l', c', v') \<in> set xs" and q: "1 \<le> q" "q < c'" for l' c' v' q
    proof -
      have "l' = l \<longrightarrow> c' \<le> c"
        using Cons.prems(2) y x by (auto simp: right_to_left_def)
      moreover have "F l' q = []" using Cons.prems(4) y q by auto
      ultimately show ?thesis using q by auto
    qed
    then show "\<forall>(l', c', v') \<in> set xs. \<forall>q. 1 \<le> q \<and> q < c' \<longrightarrow> ?F l' q = []"
      by blast
  qed
  moreover have "(\<lambda>l p. pieces xs l p @ ?F l p) = (\<lambda>l p. pieces (x # xs) l p @ F l p)"
    by (auto simp: pieces_Cons x fun_eq_iff)
  ultimately show ?case using one x by auto
qed

lemma insert_calls_woven:
  assumes "\<forall>(l, c, v) \<in> set ins. valid_pos ls l c"
  shows "\<exists>ls' sh'. insert_calls ins ls sh = Inr (ls', sh') \<and>
    woven (pieces (sort_inserts ins)) ls ls'"
proof -
  have "woven (\<lambda>_ _. []) ls ls" by (simp add: woven_def weave_empty)
  from foldE_insert_one_woven [OF this right_to_left_sort_inserts, of ins sh] assms
  show ?thesis by (simp add: insert_calls_def)
qed

subsection \<open>The recorded shifts\<close>

lemma insert_one_Inr:
  assumes "insert_one (l, c, v) (ls, sh) = Inr st"
  obtains ls' where "st = (ls', add_shift l c (int (length v)) sh)"
  using assms by (auto simp: insert_one_def bindE_eq_Inr)

lemma foldE_insert_one_Cons:
  assumes "foldE insert_one ((l, c, v) # xs) (ls, sh) = Inr r"
  obtains ls' where "foldE insert_one xs (ls', add_shift l c (int (length v)) sh) = Inr r"
  using assms by (auto simp: bindE_eq_Inr elim: insert_one_Inr)

lemma foldE_insert_one_shift:
  assumes "foldE insert_one xs (ls, sh) = Inr (ls', sh')"
  shows "shift_at sh' l p = shift_at sh l p + int (length (pieces xs l p))"
  using assms
proof (induction xs arbitrary: ls sh)
  case (Cons x xs)
  obtain l0 c0 v0 where x: "x = (l0, c0, v0)" by (cases x)
  from Cons.prems obtain ls1 where
    "foldE insert_one xs (ls1, add_shift l0 c0 (int (length v0)) sh) = Inr (ls', sh')"
    using foldE_insert_one_Cons x by metis
  from Cons.IH [OF this] show ?case
    by (auto simp: shift_at_add_shift pieces_Cons x)
qed simp

lemma foldE_insert_one_shift_ok:
  assumes "foldE insert_one xs (ls, sh) = Inr (ls', sh')"
    and "shift_ok sh" and "\<forall>(l, c, v) \<in> set xs. v \<noteq> []"
  shows "shift_ok sh'"
  using assms
proof (induction xs arbitrary: ls sh)
  case (Cons x xs)
  obtain l0 c0 v0 where x: "x = (l0, c0, v0)" by (cases x)
  from Cons.prems obtain ls1 where
    "foldE insert_one xs (ls1, add_shift l0 c0 (int (length v0)) sh) = Inr (ls', sh')"
    using foldE_insert_one_Cons x by metis
  moreover have "shift_ok (add_shift l0 c0 (int (length v0)) sh)"
    using Cons.prems x by (simp add: shift_ok_add_shift)
  ultimately show ?case using Cons.IH Cons.prems by simp
qed simp

text \<open>The keys of the dictionary are positions of insertions.\<close>

definition keys_from :: "int \<Rightarrow> shift_map \<Rightarrow> bool" where
  "keys_from lo sh \<longleftrightarrow> (\<forall>(l, m) \<in> set sh. fst ` set m \<subseteq> {lo..})"

lemma keys_from_cols: "keys_from lo sh \<Longrightarrow> map_of sh l = Some m \<Longrightarrow> fst ` set m \<subseteq> {lo..}"
  unfolding keys_from_def using map_of_in by fast

lemma fst_set_update: "fst ` set (AList.update k v al) = insert k (fst ` set al)"
  by (induction al) auto

lemma keys_from_add_shift:
  assumes "keys_from lo sh" and "lo \<le> c"
  shows "keys_from lo (add_shift l c n sh)"
proof -
  have upd: "keys_from lo (AList.update l m sh)" if "fst ` set m \<subseteq> {lo..}" for m
    using set_update_subset [of l m sh] assms(1) that by (fastforce simp: keys_from_def)
  have old: "fst ` set m \<subseteq> {lo..}" if "map_of sh l = Some m" for m
    using assms(1) that by (rule keys_from_cols)
  have inner: "fst ` set (AList.update c k m) \<subseteq> {lo..}" if "map_of sh l = Some m" for m k
    using assms(2) old [OF that] by (simp add: fst_set_update)
  show ?thesis
    using assms(2) by (simp add: add_shift_def upd inner split: option.split)
qed

lemma foldE_insert_one_keys:
  assumes "foldE insert_one xs (ls, sh) = Inr (ls', sh')"
    and "keys_from lo sh" and "\<forall>(l, c, v) \<in> set xs. lo \<le> c"
  shows "keys_from lo sh'"
  using assms
proof (induction xs arbitrary: ls sh)
  case (Cons x xs)
  obtain l0 c0 v0 where x: "x = (l0, c0, v0)" by (cases x)
  from Cons.prems obtain ls1 where
    "foldE insert_one xs (ls1, add_shift l0 c0 (int (length v0)) sh) = Inr (ls', sh')"
    using foldE_insert_one_Cons x by metis
  then show ?case using Cons.IH Cons.prems x by (simp add: keys_from_add_shift)
qed simp

lemma shifted_column_sum:
  assumes "shift_ok sh" and "keys_from lo sh"
  shows "shifted_column sh l c = c + (\<Sum>q = lo..c. shift_at sh l q)"
proof (cases "map_of sh l")
  case None
  then show ?thesis by (simp add: shifted_column_def shift_at_def)
next
  case (Some m)
  then have "cols_ok m" "fst ` set m \<subseteq> {lo..}"
    using assms shift_ok_cols keys_from_cols Some by blast+
  then show ?thesis
    using Some by (simp add: shifted_column_def shift_at_def cols_ok_def
        column_shift_sum [where lo = lo])
qed

lemma insert_calls_shift:
  assumes "insert_calls ins ls [] = Inr (ls', sh)"
    and "\<forall>(l, c, v) \<in> set ins. 1 \<le> c \<and> v \<noteq> []"
  shows "shift_ok sh" and "keys_from 1 sh"
    and "shifted_column sh l c = c + (\<Sum>q = 1..c. int (length (pieces (sort_inserts ins) l q)))"
proof -
  have f: "foldE insert_one (sort_inserts ins) (ls, []) = Inr (ls', sh)"
    using assms(1) by (simp add: insert_calls_def)
  show ok: "shift_ok sh"
    by (rule foldE_insert_one_shift_ok [OF f]) (use assms(2) in \<open>auto simp: shift_ok_def\<close>)
  show kf: "keys_from 1 sh"
    by (rule foldE_insert_one_keys [OF f]) (use assms(2) in \<open>auto simp: keys_from_def\<close>)
  show "shifted_column sh l c = c + (\<Sum>q = 1..c. int (length (pieces (sort_inserts ins) l q)))"
    using shifted_column_sum [OF ok kf] foldE_insert_one_shift [OF f]
    by (simp add: shift_at_def)
qed

end
