(* ===== verification/Transformer.thy ===== *)
theory Transformer
  imports Clang Insertion
begin

text \<open>
  \<open>ValidationTransformer\<close> (\<open>witnesses/witchtransformer.py\<close>): it checks the structure of the
  witness, collects the locations its waypoints mention, walks the syntax tree to find the
  calls, statements and control expressions at these locations, inserts calls of the
  \<open>__VALIDATOR\<close> functions into the program and moves the locations of the witness
  accordingly. The object is the record \<open>transformer\<close>; the witness, parsed from YAML, is a
  list of entries whose keys may be missing; the syntax tree is an argument.
\<close>

section \<open>The witness\<close>

record y_location =
  y_file :: "string option"
  y_line :: "int option"
  y_col :: "int option"

record waypoint =
  w_type :: "string option"
  w_action :: "string option"
  w_constraint :: "string option"
  w_loc :: "y_location option"
  w_loc2 :: "loc option"

text \<open>\<open>None\<close> stands for an item without the key \<open>waypoint\<close> (\<open>segment\<close>).\<close>

type_synonym segment = "waypoint option list"
type_synonym content = "segment option list"

record witness_entry =
  entry_type :: "string option"
  has_metadata :: bool
  e_content :: "content option"

type_synonym witness = "witness_entry list"

definition witch_assert :: "bool \<Rightarrow> string \<Rightarrow> exn + unit" where
  "witch_assert cond message = (if \<not> cond then err message else Inr ())"

definition check_witness_structure :: "witness \<Rightarrow> exn + unit" where
  "check_witness_structure wit =
     bindE (witch_assert (length wit = 1) ''Multiple or missing entries in witness!'') (\<lambda>_.
     bindE (witch_assert (e_content (hd wit) \<noteq> None) ''Missing witness content!'') (\<lambda>_.
     bindE (witch_assert (has_metadata (hd wit)) ''Missing witness metadata!'') (\<lambda>_.
     bindE (witch_assert (entry_type (hd wit) \<noteq> None) ''Missing witness entry_type!'') (\<lambda>_.
     bindE (witch_assert (entry_type (hd wit) = Some ''violation_sequence'')
              ''Invalid entry type!'') (\<lambda>_.
     witch_assert (length (the (e_content (hd wit))) \<ge> 1) ''Invalid witness syntax!'')))))"

section \<open>The state of the transformer\<close>

record transformer =
  t_program_file :: string
  t_first_decl :: "int option"
  t_calls :: "loc \<rightharpoonup> loc option"
  t_assumptions :: "loc \<rightharpoonup> (loc \<times> loc \<times> bool) option"
  t_branchings :: "loc \<rightharpoonup> (loc \<times> loc \<times> int) option"
  t_switches :: "loc \<rightharpoonup> (loc \<times> loc \<times> int) option"
  t_target :: "loc \<rightharpoonup> (loc \<times> loc) option"
  t_insert :: "insertion list"
  t_shift :: shift_map
  t_c_lines :: "string list"
  t_check_all :: bool
  t_bad_segments :: "nat list"

text \<open>The constructor: empty dictionaries, the lines of the program, and the check of the
  witness structure.\<close>

definition init_transformer :: "string \<Rightarrow> string list \<Rightarrow> witness \<Rightarrow> exn + transformer" where
  "init_transformer program_file c_lines wit =
     bindE (check_witness_structure wit) (\<lambda>_.
     Inr \<lparr>t_program_file = program_file, t_first_decl = None, t_calls = Map.empty,
          t_assumptions = Map.empty, t_branchings = Map.empty, t_switches = Map.empty,
          t_target = Map.empty, t_insert = [], t_shift = [], t_c_lines = c_lines,
          t_check_all = False, t_bad_segments = []\<rparr>)"

section \<open>The locations of the witness\<close>

definition basename_of :: "string \<Rightarrow> string" where
  "basename_of path = last (split_on (CHR ''/'') path)"

text \<open>The checks of one waypoint; returns its location, line, type and action.\<close>

definition check_waypoint ::
  "string \<Rightarrow> waypoint \<Rightarrow> exn + y_location \<times> int \<times> string \<times> string" where
  "check_waypoint program_file wp =
     (case w_loc wp of None \<Rightarrow> err ''Missing waypoint location!'' | Some l \<Rightarrow>
     (case y_file l of None \<Rightarrow> err ''Missing filename in waypoint location!'' | Some f \<Rightarrow>
      if basename_of f \<noteq> basename_of program_file
      then err ''Filename in witness location does not match the program file''
      else
     (case y_line l of None \<Rightarrow> err ''Missing line in waypoint location!'' | Some line \<Rightarrow>
     (case w_type wp of None \<Rightarrow> err ''Missing waypoint type!'' | Some ty \<Rightarrow>
     (case w_action wp of None \<Rightarrow> err ''Missing waypoint action!'' | Some act \<Rightarrow>
      Inr (l, line, ty, act))))))"

text \<open>
  \<open>_get_witness_locations\<close>. The column of a location defaults to 0, in place; a target ends
  the scan of its segment. \<open>done\<close> holds the items of the segment already visited,
  \<open>final\<close> says that the segment is the last one and \<open>lastseg\<close> is \<open>content[-1]\<close>, with
  which the segment of a target must agree.
\<close>

fun scan_waypoints ::
  "string \<Rightarrow> bool \<Rightarrow> segment option \<Rightarrow> segment \<Rightarrow> segment \<Rightarrow> transformer \<Rightarrow>
   exn + segment \<times> transformer" where
  "scan_waypoints pf final lastseg done [] st = Inr (done, st)"
| "scan_waypoints pf final lastseg done (w # ws) st =
     (case w of None \<Rightarrow> Inl AssertionError | Some wp \<Rightarrow>
      bindE (check_waypoint pf wp) (\<lambda>(l, line, ty, act).
      bindE (guardE (act = ''follow'' \<longrightarrow> w = last (w # ws)) AssertionError) (\<lambda>_.
      let col = (case y_col l of None \<Rightarrow> 0 | Some c \<Rightarrow> c);
          w' = Some (wp\<lparr>w_loc := Some (l\<lparr>y_col := Some col\<rparr>)\<rparr>)
      in if ty = ''target'' then
           bindE (guardE (act = ''follow'') AssertionError) (\<lambda>_.
           bindE (guardE (final \<or> Some (done @ w' # ws) = lastseg) AssertionError) (\<lambda>_.
           Inr (done @ w' # ws, st\<lparr>t_target := (t_target st)((line, col) \<mapsto> None)\<rparr>)))
         else if ty = ''function_return'' \<or> ty = ''function_enter'' then
           scan_waypoints pf final lastseg (done @ [w']) ws
             (st\<lparr>t_calls := (t_calls st)((line, col) \<mapsto> None)\<rparr>)
         else if ty = ''assumption'' then
           scan_waypoints pf final lastseg (done @ [w']) ws
             (st\<lparr>t_assumptions := (t_assumptions st)((line, col) \<mapsto> None)\<rparr>)
         else if ty = ''branching'' then
           scan_waypoints pf final lastseg (done @ [w']) ws
             (st\<lparr>t_branchings := (t_branchings st)((line, col) \<mapsto> None),
                 t_switches := (t_switches st)((line, col) \<mapsto> None)\<rparr>)
         else Inl AssertionError)))"

fun get_witness_locations :: "content \<Rightarrow> transformer \<Rightarrow> exn + content \<times> transformer" where
  "get_witness_locations [] st = Inr ([], st)"
| "get_witness_locations (s # ss) st =
     (case s of None \<Rightarrow> Inl AssertionError | Some seg \<Rightarrow>
      bindE (scan_waypoints (t_program_file st) (ss = []) (last (s # ss)) [] seg st)
        (\<lambda>(seg', st').
      bindE (get_witness_locations ss st') (\<lambda>(ss', st'').
      Inr (Some seg' # ss', st''))))"

section \<open>Walking the syntax tree\<close>

definition is_statement :: "cursor \<Rightarrow> nat \<Rightarrow> cursor \<Rightarrow> bool" where
  "is_statement parent child_index child =
     (if kind_of parent = COMPOUND_STMT \<or> is_stmt_kind (cdata child) then True
      else if kind_of parent = LABEL_STMT then True
      else if kind_of parent \<in> {WHILE_STMT, SWITCH_STMT, FOR_STMT, CASE_STMT} \<and>
              int child_index = int (length (children parent)) - 1 then True
      else if kind_of parent = IF_STMT \<and> child_index \<noteq> 0 then True
      else if kind_of parent = DO_STMT \<and> child_index = 0 then True
      else False)"

definition add_branchinfo :: "int \<Rightarrow> loc \<Rightarrow> extent \<Rightarrow> transformer \<Rightarrow> transformer" where
  "add_branchinfo col l ext st =
     st\<lparr>t_branchings := (t_branchings st)(l \<mapsto> Some (ext_start ext, ext_end ext, col))\<rparr>"

definition add_switchinfo :: "int \<Rightarrow> loc \<Rightarrow> extent \<Rightarrow> transformer \<Rightarrow> transformer" where
  "add_switchinfo col l ext st =
     st\<lparr>t_switches := (t_switches st)(l \<mapsto> Some (ext_start ext, ext_end ext, col))\<rparr>"

definition child_at :: "cursor \<Rightarrow> nat \<Rightarrow> exn + cursor" where
  "child_at node i =
     (if i < length (children node) then Inr (children node ! i) else Inl IndexError)"

text \<open>One of the loops \<open>for col in range(...)\<close> of \<open>_find_q_mark\<close>.\<close>

fun scan_q :: "string list \<Rightarrow> int \<Rightarrow> int list \<Rightarrow> exn + loc option" where
  "scan_q c_lines line [] = Inr None"
| "scan_q c_lines line (col # cols) =
     bindE (of_opt IndexError (py_nth c_lines (line - 1))) (\<lambda>s.
     bindE (of_opt IndexError (py_nth s (col - 1))) (\<lambda>c.
     if c = CHR ''?'' then Inr (Some (line, col)) else scan_q c_lines line cols))"

fun scan_q_lines :: "string list \<Rightarrow> int list \<Rightarrow> exn + loc option" where
  "scan_q_lines c_lines [] = Inr None"
| "scan_q_lines c_lines (line # lines) =
     bindE (of_opt IndexError (py_nth c_lines (line - 1))) (\<lambda>s.
     bindE (scan_q c_lines line [1..int (length s) - 1]) (\<lambda>r.
     case r of Some q \<Rightarrow> Inr (Some q) | None \<Rightarrow> scan_q_lines c_lines lines))"

definition find_q_mark :: "string list \<Rightarrow> int \<Rightarrow> int \<Rightarrow> int \<Rightarrow> int \<Rightarrow> exn + loc option" where
  "find_q_mark c_lines startline startcol endline endcol =
     (if startline = endline then scan_q c_lines startline [startcol..endcol - 1]
      else
        bindE (of_opt IndexError (py_nth c_lines (startline - 1))) (\<lambda>s.
        bindE (scan_q c_lines startline [startcol..int (length s) - 1]) (\<lambda>r1.
        case r1 of Some q \<Rightarrow> Inr (Some q) | None \<Rightarrow>
        bindE (scan_q_lines c_lines [startline + 1..endline - 1]) (\<lambda>r2.
        case r2 of Some q \<Rightarrow> Inr (Some q) | None \<Rightarrow>
        scan_q c_lines endline [1..endcol - 1]))))"

text \<open>The position of the question mark and the extent of the condition.\<close>

definition ternary_control :: "cursor \<Rightarrow> string list \<Rightarrow> exn + (loc \<times> extent) option" where
  "ternary_control node c_lines =
     bindE (child_at node 0) (\<lambda>c0.
     bindE (child_at node 1) (\<lambda>c1.
     bindE (find_q_mark c_lines (fst (end_of c0)) (snd (end_of c0))
              (fst (start_of c1)) (snd (start_of c1))) (\<lambda>q.
     case q of None \<Rightarrow> Inr None | Some q_loc \<Rightarrow>
     bindE (if kind_of c0 \<noteq> PAREN_EXPR then Inr c0 else child_at c0 0) (\<lambda>ctrl_expr.
     Inr (Some (q_loc, cextent (cdata ctrl_expr)))))))"

definition record_ternary :: "loc \<Rightarrow> extent \<Rightarrow> transformer \<Rightarrow> transformer" where
  "record_ternary q_loc ext st =
     (let st1 = (if q_loc \<in> dom (t_branchings st)
                 then add_branchinfo (snd q_loc) q_loc ext st else st)
      in if t_branchings st1 (fst q_loc, 0) = Some None
         then add_branchinfo (snd q_loc) (fst q_loc, 0) ext st1 else st1)"

definition handle_ternary :: "cursor \<Rightarrow> transformer \<Rightarrow> exn + transformer" where
  "handle_ternary node st =
     bindE (ternary_control node (t_c_lines st)) (\<lambda>r.
     case r of None \<Rightarrow> Inr st | Some (q_loc, ext) \<Rightarrow> Inr (record_ternary q_loc ext st))"

text \<open>\<open>_, _, first, second, *rest = node.get_tokens()\<close>\<close>

definition unpack_tokens :: "token list \<Rightarrow> exn + token \<times> token" where
  "unpack_tokens ts =
     (case ts of _ # _ # first # second # rest \<Rightarrow> Inr (first, second) | _ \<Rightarrow> Inl ValueError)"

text \<open>
  The extent taken for the control expression of a \<open>for\<close> and the number of columns by which
  its end is moved to the left. With other than four children the tokens decide.
\<close>

definition for_extent :: "cursor \<Rightarrow> exn + extent \<times> int" where
  "for_extent node =
     bindE (child_at node 1) (\<lambda>c1.
     if length (children node) \<noteq> 4 then
       bindE (unpack_tokens (tokens (cdata node))) (\<lambda>(first, second).
       bindE (if spelling first = '';'' then child_at node 0 else Inr c1) (\<lambda>c.
       if spelling second = '';'' then Inr (tok_extent second, 2)
       else Inr (cextent (cdata c), 1)))
     else Inr (cextent (cdata c1), 1))"

definition handle_for :: "cursor \<Rightarrow> int \<Rightarrow> loc \<Rightarrow> transformer \<Rightarrow> exn + transformer" where
  "handle_for node col l st =
     bindE (for_extent node) (\<lambda>(ext, k).
     Inr (st\<lparr>t_branchings := (t_branchings st)
       (l \<mapsto> Some (ext_start ext, (fst (ext_end ext), snd (ext_end ext) - k), col))\<rparr>))"

definition handle_branching :: "cursor \<Rightarrow> loc \<Rightarrow> transformer \<Rightarrow> exn + transformer" where
  "handle_branching node l st =
     (let col = snd (start_of node) in
      case kind_of node of
        IF_STMT \<Rightarrow> bindE (child_at node 0) (\<lambda>c. Inr (add_branchinfo col l (cextent (cdata c)) st))
      | WHILE_STMT \<Rightarrow> bindE (child_at node 0) (\<lambda>c. Inr (add_branchinfo col l (cextent (cdata c)) st))
      | DO_STMT \<Rightarrow> bindE (child_at node 1) (\<lambda>c. Inr (add_branchinfo col l (cextent (cdata c)) st))
      | FOR_STMT \<Rightarrow> handle_for node col l st
      | SWITCH_STMT \<Rightarrow>
          bindE (child_at node 0) (\<lambda>c. Inr (add_switchinfo col l (cextent (cdata c)) st))
      | _ \<Rightarrow> Inr st)"

text \<open>The body of the loop of \<open>traverse_AST\<close>, one definition per purpose.\<close>

definition visit_first_decl :: "cursor \<Rightarrow> transformer \<Rightarrow> transformer" where
  "visit_first_decl child st =
     (if t_first_decl st = None \<or> t_first_decl st = Some 0
      then st\<lparr>t_first_decl := Some (fst (start_of child))\<rparr> else st)"

definition visit_call :: "cursor \<Rightarrow> transformer \<Rightarrow> transformer" where
  "visit_call child st =
     (if kind_of child = CALL_EXPR then
        (let (el, ec) = end_of child;
             calls1 = (if (el, ec - 1) \<in> dom (t_calls st)
                       then (t_calls st)((el, ec - 1) \<mapsto> Some (start_of child))
                       else t_calls st);
             calls2 = (if calls1 (el, 0) = Some None
                       then calls1((el, 0) \<mapsto> Some (start_of child)) else calls1)
         in st\<lparr>t_calls := calls2\<rparr>)
      else st)"

definition visit_branching :: "cursor \<Rightarrow> transformer \<Rightarrow> exn + transformer" where
  "visit_branching child st =
     bindE (if start_of child \<in> dom (t_branchings st)
            then handle_branching child (start_of child) st else Inr st) (\<lambda>st1.
     if t_branchings st1 (fst (start_of child), 0) = Some None
     then handle_branching child (fst (start_of child), 0) st1 else Inr st1)"

definition visit_ternary :: "cursor \<Rightarrow> transformer \<Rightarrow> exn + transformer" where
  "visit_ternary child st =
     (if kind_of child = CONDITIONAL_OPERATOR then handle_ternary child st else Inr st)"

definition visit_assumption :: "cursor \<Rightarrow> nat \<Rightarrow> cursor \<Rightarrow> transformer \<Rightarrow> transformer" where
  "visit_assumption node child_index child st =
     (let start = start_of child; A = t_assumptions st in
      if (start \<in> dom A \<or> A (fst start, 0) = Some None) \<and> is_statement node child_index child
      then
        (let brackets = (kind_of node \<noteq> COMPOUND_STMT \<and> kind_of child \<noteq> COMPOUND_STMT);
             begin_l = (if kind_of child = COMPOUND_STMT then (fst start, snd start + 1) else start);
             info = (begin_l, end_of child, brackets);
             A1 = (if start \<in> dom A then A(start \<mapsto> Some info) else A);
             A2 = (if A1 (fst start, 0) = Some None then A1((fst start, 0) \<mapsto> Some info) else A1)
         in st\<lparr>t_assumptions := A2\<rparr>)
      else st)"

definition visit_target :: "bool \<Rightarrow> cursor \<Rightarrow> transformer \<Rightarrow> transformer" where
  "visit_target full child st =
     (let start = start_of child; T = t_target st in
      if (start \<in> dom T \<or> T (fst start, 0) = Some None) \<and> is_expression (cdata child) \<and> full
      then
        (let col = (if (fst start, 0) \<in> dom T then 0 else snd start)
         in st\<lparr>t_target := T((fst start, col) \<mapsto> Some (start, end_of child))\<rparr>)
      else st)"

definition visit_child ::
  "cursor \<Rightarrow> nat \<Rightarrow> bool \<Rightarrow> cursor \<Rightarrow> transformer \<Rightarrow> exn + transformer" where
  "visit_child node child_index full child st =
     bindE (visit_branching child (visit_call child (visit_first_decl child st))) (\<lambda>st1.
     bindE (visit_ternary child st1) (\<lambda>st2.
     Inr (visit_target full child (visit_assumption node child_index child st2))))"

text \<open>\<open>child_index\<close> counts the children of the program file only, as in the source.\<close>

fun traverse_AST :: "bool \<Rightarrow> cursor \<Rightarrow> transformer \<Rightarrow> exn + transformer"
and traverse_children ::
  "bool \<Rightarrow> cursor \<Rightarrow> nat \<Rightarrow> cursor list \<Rightarrow> transformer \<Rightarrow> exn + transformer" where
  "traverse_AST full (Cursor d cs) st = traverse_children full (Cursor d cs) 0 cs st"
| "traverse_children full node i [] st = Inr st"
| "traverse_children full node i (c # cs) st =
     (if foreign (t_program_file st) c then traverse_children full node i cs st
      else
        bindE (visit_child node i full c st) (\<lambda>st1.
        bindE (traverse_AST (full \<and> \<not> is_expression (cdata c)) c st1) (\<lambda>st2.
        traverse_children full node (Suc i) cs st2)))"

section \<open>Inserting calls for the waypoints\<close>

definition create_assumption :: "string \<Rightarrow> nat \<Rightarrow> bool \<Rightarrow> bool \<Rightarrow> string" where
  "create_assumption constraint seg follow bracket =
     (if bracket then ''{'' else []) @
     ''if(__VALIDATOR_segment('' @ str_nat seg @ '')) __VALIDATOR_assume('' @
     strip_char (CHR '';'') constraint @ '', '' @ (if follow then ''1'' else ''0'') @ ''); ''"

text \<open>\<open>handle_invalid_location\<close>: stop, or remember the segment.\<close>

definition handle_invalid_location :: "nat \<Rightarrow> string \<Rightarrow> transformer \<Rightarrow> exn + transformer" where
  "handle_invalid_location seg message st =
     (if \<not> t_check_all st then Inl (SystemExit message)
      else Inr (st\<lparr>t_bad_segments := t_bad_segments st @ [seg]\<rparr>))"

definition invalid_msg :: "string \<Rightarrow> loc \<Rightarrow> string" where
  "invalid_msg what l =
     ''Invalid location for '' @ what @ '': '' @ str_int (fst l) @ '','' @ str_int (snd l)"

definition add_insert :: "insertion list \<Rightarrow> transformer \<Rightarrow> transformer" where
  "add_insert xs st = st\<lparr>t_insert := t_insert st @ xs\<rparr>"

text \<open>
  One round of the inner loop of \<open>transform\<close>. The loop state is the transformer, the set
  \<open>conditions_covered\<close> and the counter \<open>s_index\<close>, which the branches for invalid locations
  increment too. The first component of the result is the waypoint after the round.
\<close>

type_synonym loop_state = "transformer \<times> loc set \<times> nat"

definition invalid_waypoint ::
  "waypoint \<Rightarrow> string \<Rightarrow> loc \<Rightarrow> loop_state \<Rightarrow> exn + waypoint \<times> loop_state" where
  "invalid_waypoint wp what l ls =
     (case ls of (st, cov, s_index) \<Rightarrow>
        bindE (handle_invalid_location s_index (invalid_msg what l) st) (\<lambda>st'.
        Inr (wp, st', cov, Suc s_index)))"

definition set_location :: "y_location \<Rightarrow> loc \<Rightarrow> waypoint \<Rightarrow> waypoint" where
  "set_location yl l wp = wp\<lparr>w_loc := Some (yl\<lparr>y_line := Some (fst l), y_col := Some (snd l)\<rparr>)\<rparr>"

definition branching_inserts :: "loc \<Rightarrow> loc \<Rightarrow> string \<Rightarrow> int \<Rightarrow> int \<Rightarrow> insertion list" where
  "branching_inserts ctrl_start ctrl_end fun_name line column =
     [(fst ctrl_start, snd ctrl_start,
       fun_name @ ''('' @ str_int line @ '', '' @ str_int column @ '', ''),
      (fst ctrl_end, snd ctrl_end + 1, if ctrl_start > ctrl_end then ''1)'' else '')'')]"

definition transform_call ::
  "y_location \<Rightarrow> loc \<Rightarrow> waypoint \<Rightarrow> loop_state \<Rightarrow> exn + waypoint \<times> loop_state" where
  "transform_call yl l wp ls =
     (case t_calls (fst ls) l of
        None \<Rightarrow> Inl KeyError
      | Some None \<Rightarrow> invalid_waypoint wp ''function call or return'' l ls
      | Some (Some b) \<Rightarrow> Inr (set_location yl b wp, ls))"

definition transform_target ::
  "y_location \<Rightarrow> loc \<Rightarrow> waypoint \<Rightarrow> loop_state \<Rightarrow> exn + waypoint \<times> loop_state" where
  "transform_target yl l wp ls =
     (case t_target (fst ls) l of
        None \<Rightarrow> Inl KeyError
      | Some None \<Rightarrow> invalid_waypoint wp ''target'' l ls
      | Some (Some (b, e)) \<Rightarrow>
          Inr ((set_location yl (fst l, snd b) wp)\<lparr>w_loc2 := Some e\<rparr>, ls))"

definition transform_assumption ::
  "loc \<Rightarrow> string \<Rightarrow> waypoint \<Rightarrow> loop_state \<Rightarrow> exn + waypoint \<times> loop_state" where
  "transform_assumption l act wp ls =
     (case ls of (st, cov, s_index) \<Rightarrow>
      (case t_assumptions st l of
        None \<Rightarrow> Inl KeyError
      | Some None \<Rightarrow> invalid_waypoint wp ''assumption'' l ls
      | Some (Some (start, e, bracket)) \<Rightarrow>
          (case w_constraint wp of None \<Rightarrow> Inl KeyError | Some constraint \<Rightarrow>
           Inr (wp, add_insert
             ((if bracket then [(fst e, snd e + 1, '';}'')] else []) @
              [(fst start, snd start,
                create_assumption constraint s_index (act \<noteq> ''avoid'') bracket)]) st,
             cov, s_index))))"

definition transform_branching ::
  "y_location \<Rightarrow> loc \<Rightarrow> waypoint \<Rightarrow> loop_state \<Rightarrow> exn + waypoint \<times> loop_state" where
  "transform_branching yl l wp ls =
     (case ls of (st, cov, s_index) \<Rightarrow>
      (case t_branchings st l of None \<Rightarrow> Inl KeyError | Some br \<Rightarrow>
       bindE (case br of
           Some info \<Rightarrow> Inr (Some (info, ''__VALIDATOR_branch''))
         | None \<Rightarrow>
             (case t_switches st l of None \<Rightarrow> Inl KeyError
              | Some (Some info) \<Rightarrow> Inr (Some (info, ''__VALIDATOR_switch''))
              | Some None \<Rightarrow> Inr None)) (\<lambda>found.
       case found of
         None \<Rightarrow> invalid_waypoint wp ''branching'' l ls
       | Some ((ctrl_start, ctrl_end, column), fun_name) \<Rightarrow>
           (let wp' = (if snd l = 0 then set_location yl (fst l, column) wp else wp);
                key = (fst l, column)
            in if key \<notin> cov
               then Inr (wp', add_insert
                      (branching_inserts ctrl_start ctrl_end fun_name (fst l) column) st,
                    insert key cov, s_index)
               else Inr (wp', st, cov, s_index)))))"

definition transform_waypoint ::
  "waypoint \<Rightarrow> loop_state \<Rightarrow> exn + waypoint \<times> loop_state" where
  "transform_waypoint wp ls =
     bindE (of_opt KeyError (w_loc wp)) (\<lambda>yl.
     bindE (of_opt KeyError (y_line yl)) (\<lambda>line.
     bindE (of_opt KeyError (y_col yl)) (\<lambda>col.
     bindE (of_opt KeyError (w_type wp)) (\<lambda>ty.
     if ty = ''function_return'' \<or> ty = ''function_enter'' then transform_call yl (line, col) wp ls
     else if ty = ''target'' then transform_target yl (line, col) wp ls
     else if ty = ''assumption'' then
       bindE (of_opt KeyError (w_action wp)) (\<lambda>act.
       transform_assumption (line, col) act wp ls)
     else if ty = ''branching'' then transform_branching yl (line, col) wp ls
     else Inr (wp, ls)))))"

text \<open>The loops over the waypoints of a segment and over the segments.\<close>

fun transform_segment :: "segment \<Rightarrow> loop_state \<Rightarrow> exn + segment \<times> loop_state" where
  "transform_segment [] ls = Inr ([], ls)"
| "transform_segment (w # ws) ls =
     bindE (of_opt KeyError w) (\<lambda>wp.
     bindE (transform_waypoint wp ls) (\<lambda>(wp', ls').
     bindE (transform_segment ws ls') (\<lambda>(ws', ls'').
     Inr (Some wp' # ws', ls''))))"

fun transform_content :: "content \<Rightarrow> loop_state \<Rightarrow> exn + content \<times> loop_state" where
  "transform_content [] ls = Inr ([], ls)"
| "transform_content (s # ss) ls =
     bindE (of_opt KeyError s) (\<lambda>seg.
     bindE (transform_segment seg ls) (\<lambda>(seg', (st, cov, s_index)).
     bindE (transform_content ss (st, cov, Suc s_index)) (\<lambda>(ss', ls').
     Inr (Some seg' # ss', ls'))))"

section \<open>Moving the locations of the witness\<close>

definition shift_waypoint :: "shift_map \<Rightarrow> int \<Rightarrow> waypoint \<Rightarrow> exn + waypoint" where
  "shift_waypoint sh add_lines wp =
     bindE (of_opt KeyError (w_type wp)) (\<lambda>ty.
     if ty = ''assumption'' \<or> ty = ''branching'' then Inr wp
     else
       bindE (of_opt KeyError (w_loc wp)) (\<lambda>yl.
       bindE (of_opt KeyError (y_line yl)) (\<lambda>line.
       bindE (of_opt KeyError (y_col yl)) (\<lambda>col.
       Inr (set_location yl (line + add_lines, shifted_column sh line col) wp)))))"

definition shift_segment :: "shift_map \<Rightarrow> int \<Rightarrow> segment \<Rightarrow> exn + segment" where
  "shift_segment sh add_lines seg =
     mapE (\<lambda>w. bindE (of_opt KeyError w) (\<lambda>wp.
                bindE (shift_waypoint sh add_lines wp) (\<lambda>wp'. Inr (Some wp')))) seg"

text \<open>
  The loop for the end of the target: the column grows inside the loop, by the amount
  collected so far.
\<close>

definition target_end_column :: "(int \<times> int) list \<Rightarrow> int \<Rightarrow> int" where
  "target_end_column m column =
     snd (foldl (\<lambda>(add, c) (col, n).
            let add' = (if c \<ge> col then add + n else add) in (add', c + add')) (0, column) m)"

definition shift_target_end :: "shift_map \<Rightarrow> waypoint \<Rightarrow> waypoint" where
  "shift_target_end sh wp =
     (case w_loc2 wp of None \<Rightarrow> wp
      | Some (line, col) \<Rightarrow>
          (case map_of sh line of None \<Rightarrow> wp
           | Some m \<Rightarrow> wp\<lparr>w_loc2 := Some (line, target_end_column m col)\<rparr>))"

text \<open>\<open>content[-1]['segment'][-1]['waypoint']\<close>\<close>

definition shift_last :: "shift_map \<Rightarrow> content \<Rightarrow> exn + content" where
  "shift_last sh c =
     (if c = [] then Inl IndexError
      else
        bindE (of_opt KeyError (last c)) (\<lambda>seg.
        if seg = [] then Inl IndexError
        else
          bindE (of_opt KeyError (last seg)) (\<lambda>wp.
          Inr (butlast c @ [Some (butlast seg @ [Some (shift_target_end sh wp)])]))))"

definition shift_witness :: "shift_map \<Rightarrow> content \<Rightarrow> int \<Rightarrow> exn + content" where
  "shift_witness sh c add_lines =
     bindE (mapE (\<lambda>s. bindE (of_opt KeyError s) (\<lambda>seg.
                      bindE (shift_segment sh add_lines seg) (\<lambda>seg'. Inr (Some seg')))) c)
       (shift_last sh)"

section \<open>transform\<close>

definition validator_decls :: string where
  "validator_decls =
     ''extern int __VALIDATOR_branch(unsigned int l, unsigned int c, int expr);'' @
     ''extern void __VALIDATOR_assume(int c, int f);'' @
     ''extern int __VALIDATOR_segment(unsigned int s);'' @
     ''extern int __VALIDATOR_switch(unsigned int l, unsigned int c, int expr);'' @ [CHR 0x0A]"

definition decl_insert :: "transformer \<Rightarrow> transformer" where
  "decl_insert st =
     (let line = (case t_first_decl st of None \<Rightarrow> 1 | Some l \<Rightarrow> if l = 0 then 1 else l)
      in add_insert [(line, 1, validator_decls)] st)"

definition is_preprocessed :: "string \<Rightarrow> bool" where
  "is_preprocessed program_file \<longleftrightarrow> endswith program_file ''.i''"

text \<open>Everything up to the edits: what is to be inserted, and the waypoints.\<close>

definition plan_edits :: "cursor \<Rightarrow> content \<Rightarrow> transformer \<Rightarrow> exn + content \<times> transformer" where
  "plan_edits root c st =
     bindE (get_witness_locations c st) (\<lambda>(c1, st1).
     bindE (traverse_AST True root st1) (\<lambda>st2.
     bindE (transform_content c1 (st2, {}, 0)) (\<lambda>(c2, (st3, cov, s_index)).
     if t_check_all st3 \<and> t_bad_segments st3 \<noteq> [] then Inl (SystemExit [])
     else Inr (c2, if is_preprocessed (t_program_file st3) then decl_insert st3 else st3))))"

text \<open>
  The whole method; the result is the content of the new witness and the transformer, whose
  \<open>t_c_lines\<close> are the lines of the new program and whose \<open>t_shift\<close> the caller may keep.
\<close>

definition transform :: "cursor \<Rightarrow> content \<Rightarrow> transformer \<Rightarrow> exn + content \<times> transformer" where
  "transform root c st =
     bindE (plan_edits root c st) (\<lambda>(c', st').
     bindE (insert_calls (t_insert st') (t_c_lines st') (t_shift st')) (\<lambda>(ls, sh).
     bindE (shift_witness sh c' (if is_preprocessed (t_program_file st') then 1 else 0)) (\<lambda>c''.
     Inr (c'', st'\<lparr>t_c_lines := ls, t_shift := sh\<rparr>))))"

section \<open>What the walk over the tree keeps\<close>

text \<open>The walk only fills in information: every field but the dictionaries and the first
  declaration stays, and no dictionary gets or loses a key.\<close>

definition same_keys :: "transformer \<Rightarrow> transformer \<Rightarrow> bool" where
  "same_keys st st' \<longleftrightarrow>
     dom (t_calls st') = dom (t_calls st) \<and> dom (t_assumptions st') = dom (t_assumptions st) \<and>
     dom (t_branchings st') = dom (t_branchings st) \<and> dom (t_switches st') = dom (t_switches st) \<and>
     dom (t_target st') = dom (t_target st)"

definition same_text :: "transformer \<Rightarrow> transformer \<Rightarrow> bool" where
  "same_text st st' \<longleftrightarrow>
     t_program_file st' = t_program_file st \<and> t_c_lines st' = t_c_lines st \<and>
     t_shift st' = t_shift st \<and> t_check_all st' = t_check_all st"

definition same_edits :: "transformer \<Rightarrow> transformer \<Rightarrow> bool" where
  "same_edits st st' \<longleftrightarrow> same_text st st' \<and>
     t_insert st' = t_insert st \<and> t_bad_segments st' = t_bad_segments st"

lemma same_edits_refl [simp]: "same_edits st st"
  by (simp add: same_edits_def same_text_def)

lemma same_edits_trans: "same_edits a b \<Longrightarrow> same_edits b c \<Longrightarrow> same_edits a c"
  by (simp add: same_edits_def same_text_def)

lemma same_text_refl [simp]: "same_text st st"
  by (simp add: same_text_def)

lemma same_text_trans: "same_text a b \<Longrightarrow> same_text b c \<Longrightarrow> same_text a c"
  by (simp add: same_text_def)

lemma same_edits_text: "same_edits a b \<Longrightarrow> same_text a b"
  by (simp add: same_edits_def)

text \<open>The cursors the walk visits.\<close>

fun reached :: "string \<Rightarrow> cursor \<Rightarrow> cursor list" where
  "reached pf (Cursor d cs) =
     concat (map (\<lambda>c. if foreign pf c then [] else c # reached pf c) cs)"

definition reached_list :: "string \<Rightarrow> cursor list \<Rightarrow> cursor list" where
  "reached_list pf cs = concat (map (\<lambda>c. if foreign pf c then [] else c # reached pf c) cs)"

lemma reached_Cursor: "reached pf (Cursor d cs) = reached_list pf cs"
  by (simp add: reached_list_def)

lemma reached_list_Nil: "reached_list pf [] = []"
  by (simp add: reached_list_def)

lemma reached_list_Cons:
  "reached_list pf (c # cs) = (if foreign pf c then [] else c # reached pf c) @ reached_list pf cs"
  by (simp add: reached_list_def)

lemma reached_subtree: "set (reached pf n) \<subseteq> {c \<in> set (subtree n). \<not> foreign pf c}"
  by (induction n) (auto split: if_splits intro: subtree_self)

text \<open>Induction over the walk: a reflexive and transitive relation that every visited child
  respects holds between the states before and after.\<close>

lemma traverse_rel:
  assumes refl: "\<And>s. R s s" and trans: "\<And>a b c. R a b \<Longrightarrow> R b c \<Longrightarrow> R a c"
    and same: "\<And>a b. R a b \<Longrightarrow> t_program_file b = t_program_file a"
    and visit: "\<And>node i full c s s'. c \<in> S \<Longrightarrow> \<not> foreign (t_program_file s) c \<Longrightarrow>
      visit_child node i full c s = Inr s' \<Longrightarrow> R s s'"
  shows "traverse_AST full n st = Inr st' \<Longrightarrow> set (reached (t_program_file st) n) \<subseteq> S \<Longrightarrow> R st st'"
    and "traverse_children full n i cs st = Inr st' \<Longrightarrow>
      set (reached_list (t_program_file st) cs) \<subseteq> S \<Longrightarrow> R st st'"
proof (induction full n st and full n i cs st arbitrary: st' and st'
    rule: traverse_AST_traverse_children.induct)
  case (1 full d cs st)
  then show ?case by (simp add: reached_Cursor del: reached.simps)
next
  case (2 full node i st)
  then show ?case by (simp add: refl)
next
  case (3 full node i c cs st)
  show ?case
  proof (cases "foreign (t_program_file st) c")
    case True
    with 3 show ?thesis by (simp add: reached_list_Cons)
  next
    case False
    with "3.prems" obtain s1 s2 where s1: "visit_child node i full c st = Inr s1"
      and s2: "traverse_AST (full \<and> \<not> is_expression (cdata c)) c s1 = Inr s2"
      and s3: "traverse_children full node (Suc i) cs s2 = Inr st'"
      by (auto simp: bindE_eq_Inr)
    have S: "c \<in> S" "set (reached (t_program_file st) c) \<subseteq> S"
      "set (reached_list (t_program_file st) cs) \<subseteq> S"
      using "3.prems"(2) False by (simp_all add: reached_list_Cons)
    from S(1) False s1 have r1: "R st s1" by (rule visit)
    have r2: "R s1 s2" using "3.IH"(2) [OF False s2] S(2) same [OF r1] by simp
    have "R s2 st'" using "3.IH"(3) [OF False s3] S(3) same [OF r1] same [OF r2] by simp
    with r1 r2 show ?thesis by (blast intro: trans)
  qed
qed

lemma handle_branching_cases:
  assumes "handle_branching node l st = Inr st'"
  shows "st' = st \<or> (\<exists>x. st' = st\<lparr>t_branchings := (t_branchings st)(l \<mapsto> x)\<rparr>) \<or>
    (kind_of node = SWITCH_STMT \<and> (\<exists>x. st' = st\<lparr>t_switches := (t_switches st)(l \<mapsto> x)\<rparr>))"
  using assms
  by (auto simp: handle_branching_def handle_for_def add_branchinfo_def add_switchinfo_def
      bindE_eq_Inr Let_def split: cursor_kind.splits)

lemma handle_branching_edits: "handle_branching node l st = Inr st' \<Longrightarrow> same_edits st st'"
  by (drule handle_branching_cases) (auto simp: same_edits_def same_text_def)

lemma record_ternary_edits: "same_edits st (record_ternary q ext st)"
  by (simp add: record_ternary_def add_branchinfo_def Let_def same_edits_def same_text_def)

lemma handle_ternary_cases:
  assumes "handle_ternary node st = Inr st'"
  shows "st' = st \<or> (\<exists>q ext. ternary_control node (t_c_lines st) = Inr (Some (q, ext)) \<and>
    st' = record_ternary q ext st)"
  using assms by (auto simp: handle_ternary_def bindE_eq_Inr split: option.splits)

lemma handle_ternary_edits: "handle_ternary node st = Inr st' \<Longrightarrow> same_edits st st'"
  by (drule handle_ternary_cases) (auto simp: record_ternary_edits)

lemma visit_child_split:
  assumes "visit_child node i full c st = Inr st'"
  obtains s1 s2 where "visit_branching c (visit_call c (visit_first_decl c st)) = Inr s1"
    and "visit_ternary c s1 = Inr s2"
    and "st' = visit_target full c (visit_assumption node i c s2)"
  using assms by (auto simp: visit_child_def bindE_eq_Inr)

lemma visit_branching_split:
  assumes "visit_branching c st = Inr st'"
  obtains s1 where "s1 = st \<or> handle_branching c (start_of c) st = Inr s1"
    and "st' = s1 \<or> handle_branching c (fst (start_of c), 0) s1 = Inr st'"
  using assms by (auto simp: visit_branching_def bindE_eq_Inr split: if_splits)

lemma visit_branching_edits: "visit_branching c st = Inr st' \<Longrightarrow> same_edits st st'"
  by (erule visit_branching_split) (auto dest!: handle_branching_edits intro: same_edits_trans)

lemma visit_ternary_edits: "visit_ternary c st = Inr st' \<Longrightarrow> same_edits st st'"
  by (auto simp: visit_ternary_def handle_ternary_edits split: if_splits)

lemma visit_child_edits:
  assumes "visit_child node i full c st = Inr st'"
  shows "same_edits st st'"
  using assms
proof (rule visit_child_split)
  let ?s = "visit_call c (visit_first_decl c st)"
  fix s1 s2 assume s1: "visit_branching c ?s = Inr s1" and s2: "visit_ternary c s1 = Inr s2"
    and s3: "st' = visit_target full c (visit_assumption node i c s2)"
  have "same_edits st ?s"
    by (simp add: visit_call_def visit_first_decl_def same_edits_def same_text_def Let_def
        split: prod.split)
  moreover have "same_edits s2 st'"
    unfolding s3 by (simp add: visit_target_def visit_assumption_def same_edits_def same_text_def
        Let_def)
  ultimately show ?thesis
    using visit_branching_edits [OF s1] visit_ternary_edits [OF s2]
    by (blast intro: same_edits_trans)
qed

lemma traverse_edits: "traverse_AST full n st = Inr st' \<Longrightarrow> same_edits st st'"
  by (rule traverse_rel(1) [where S = UNIV and R = same_edits])
    (auto intro: same_edits_trans visit_child_edits dest: same_edits_text simp: same_text_def)

section \<open>What the calls are\<close>

text \<open>
  The information the walk records for a call waypoint is the start of a call expression of
  the program file that ends right after the location of the waypoint (or, for a location
  without column, on its line).
\<close>

definition call_found :: "cursor set \<Rightarrow> string \<Rightarrow> loc \<Rightarrow> loc \<Rightarrow> bool" where
  "call_found S pf l b \<longleftrightarrow>
     (\<exists>n \<in> S. kind_of n = CALL_EXPR \<and> \<not> foreign pf n \<and> start_of n = b \<and>
        fst (end_of n) = fst l \<and> (snd (end_of n) = snd l + 1 \<or> snd l = 0))"

definition calls_step :: "cursor set \<Rightarrow> transformer \<Rightarrow> transformer \<Rightarrow> bool" where
  "calls_step S st st' \<longleftrightarrow> t_program_file st' = t_program_file st \<and>
     dom (t_calls st') = dom (t_calls st) \<and>
     (\<forall>l b. t_calls st' l = Some (Some b) \<longrightarrow>
        t_calls st l = Some (Some b) \<or> call_found S (t_program_file st) l b)"

lemma visit_call_step:
  assumes "c \<in> S" and "\<not> foreign (t_program_file st) c"
  shows "calls_step S st (visit_call c st)"
proof (cases "kind_of c = CALL_EXPR")
  case False
  then show ?thesis by (simp add: visit_call_def calls_step_def)
next
  case True
  obtain el ec where e: "end_of c = (el, ec)" by (cases "end_of c")
  have "call_found S (t_program_file st) (el, ec - 1) (start_of c)"
    "call_found S (t_program_file st) (el, 0) (start_of c)"
    using assms True e by (auto simp: call_found_def)
  then show ?thesis
    using True e by (auto simp: visit_call_def calls_step_def Let_def split: if_splits)
qed

lemma handle_branching_calls: "handle_branching node l st = Inr st' \<Longrightarrow> t_calls st' = t_calls st"
  by (drule handle_branching_cases) auto

lemma visit_branching_calls: "visit_branching c st = Inr st' \<Longrightarrow> t_calls st' = t_calls st"
  by (erule visit_branching_split) (auto dest!: handle_branching_calls)

lemma visit_ternary_calls: "visit_ternary c st = Inr st' \<Longrightarrow> t_calls st' = t_calls st"
  by (auto simp: visit_ternary_def record_ternary_def add_branchinfo_def Let_def
      split: if_splits dest!: handle_ternary_cases)

lemma visit_child_calls:
  assumes "visit_child node i full c st = Inr st'"
  shows "t_calls st' = t_calls (visit_call c st)"
  using assms
proof (rule visit_child_split)
  let ?s = "visit_call c (visit_first_decl c st)"
  fix s1 s2 assume s1: "visit_branching c ?s = Inr s1" and s2: "visit_ternary c s1 = Inr s2"
    and s3: "st' = visit_target full c (visit_assumption node i c s2)"
  have "t_calls st' = t_calls s2"
    unfolding s3 by (simp add: visit_target_def visit_assumption_def Let_def)
  also have "\<dots> = t_calls ?s"
    using visit_branching_calls [OF s1] visit_ternary_calls [OF s2] by simp
  also have "\<dots> = t_calls (visit_call c st)"
    by (simp add: visit_call_def visit_first_decl_def Let_def split: prod.split)
  finally show ?thesis .
qed

lemma traverse_calls_step:
  assumes "traverse_AST full n st = Inr st'" and "set (reached (t_program_file st) n) \<subseteq> S"
  shows "calls_step S st st'"
proof (rule traverse_rel(1) [where R = "calls_step S", OF _ _ _ _ assms])
  fix a b c assume "calls_step S a b" "calls_step S b c"
  then show "calls_step S a c" by (simp add: calls_step_def) blast
next
  fix node i full c s s'
  assume "c \<in> S" "\<not> foreign (t_program_file s) c" and v: "visit_child node i full c s = Inr s'"
  then have "calls_step S s (visit_call c s)" by (blast intro: visit_call_step)
  then show "calls_step S s s'"
    using visit_child_calls [OF v] visit_child_edits [OF v]
    by (simp add: calls_step_def same_edits_def same_text_def)
qed (simp_all add: calls_step_def)

text \<open>The walk fills in every location at which a visited call ends.\<close>

definition filled :: "transformer \<Rightarrow> cursor \<Rightarrow> bool" where
  "filled st c \<longleftrightarrow> (kind_of c = CALL_EXPR \<and> (fst (end_of c), snd (end_of c) - 1) \<in> dom (t_calls st) \<longrightarrow>
     (\<exists>b. t_calls st (fst (end_of c), snd (end_of c) - 1) = Some (Some b)))"

text \<open>No information gets lost and no location is added.\<close>

definition fills :: "transformer \<Rightarrow> transformer \<Rightarrow> bool" where
  "fills st st' \<longleftrightarrow> t_program_file st' = t_program_file st \<and> dom (t_calls st') = dom (t_calls st) \<and>
     (\<forall>l b. t_calls st l = Some (Some b) \<longrightarrow> (\<exists>b'. t_calls st' l = Some (Some b')))"

lemma fills_refl: "fills st st"
  by (simp add: fills_def)

lemma fills_trans: "fills a b \<Longrightarrow> fills b c \<Longrightarrow> fills a c"
  by (simp add: fills_def)

lemma fills_filled: "fills a b \<Longrightarrow> filled a c \<Longrightarrow> filled b c"
  by (auto simp: fills_def filled_def)

lemma visit_call_fills: "fills st (visit_call c st) \<and> filled (visit_call c st) c"
  by (auto simp: visit_call_def fills_def filled_def Let_def split: prod.split)

lemma visit_child_fills:
  assumes "visit_child node i full c st = Inr st'"
  shows "fills st st'" and "filled st' c"
  using visit_call_fills [where st = st and c = c] visit_child_calls [OF assms] visit_child_edits [OF assms]
  by (simp_all add: fills_def filled_def same_edits_def same_text_def)

lemma traverse_fills:
  shows "traverse_AST full n st = Inr st' \<Longrightarrow> fills st st'"
    and "traverse_children full n i cs st = Inr st' \<Longrightarrow> fills st st'"
proof -
  have "t_program_file b = t_program_file a" if "fills a b" for a b
    using that by (simp add: fills_def)
  note r = traverse_rel [where S = UNIV and R = fills,
      OF fills_refl fills_trans this visit_child_fills(1)]
  show "traverse_AST full n st = Inr st' \<Longrightarrow> fills st st'" by (rule r(1)) simp_all
  show "traverse_children full n i cs st = Inr st' \<Longrightarrow> fills st st'" by (rule r(2)) simp_all
qed

lemma traverse_filled:
  shows "traverse_AST full n st = Inr st' \<Longrightarrow> \<forall>c \<in> set (reached (t_program_file st) n). filled st' c"
    and "traverse_children full n i cs st = Inr st' \<Longrightarrow>
      \<forall>c \<in> set (reached_list (t_program_file st) cs). filled st' c"
proof (induction full n st and full n i cs st arbitrary: st' and st'
    rule: traverse_AST_traverse_children.induct)
  case (1 full d cs st)
  then show ?case by (simp add: reached_list_def)
next
  case (2 full node i st)
  then show ?case by (simp add: reached_list_def)
next
  case (3 full node i c cs st)
  show ?case
  proof (cases "foreign (t_program_file st) c")
    case True
    with 3 show ?thesis by (simp add: reached_list_def)
  next
    case False
    with "3.prems" obtain s1 s2 where s1: "visit_child node i full c st = Inr s1"
      and s2: "traverse_AST (full \<and> \<not> is_expression (cdata c)) c s1 = Inr s2"
      and s3: "traverse_children full node (Suc i) cs s2 = Inr st'"
      by (auto simp: bindE_eq_Inr)
    note f = visit_child_fills [OF s1] traverse_fills(1) [OF s2] traverse_fills(2) [OF s3]
    have pf: "t_program_file s1 = t_program_file st" "t_program_file s2 = t_program_file st"
      using f by (simp_all add: fills_def)
    show ?thesis
      using "3.IH"(2) [OF False s2] "3.IH"(3) [OF False s3] False pf f
      by (auto simp: reached_list_def intro: fills_filled fills_trans)
  qed
qed

section \<open>The insertions are inside the program\<close>

text \<open>
  What clang documents of the extents of the cursors of a file: they start at a character
  of the file and end right before one (the line break after the last token of a line
  counts). The walk reads the extents of the cursors of the program file and of what is
  below them.
\<close>

definition text_pos :: "string list \<Rightarrow> loc \<Rightarrow> bool" where
  "text_pos ls l \<longleftrightarrow> 1 \<le> fst l \<and> fst l \<le> int (length ls) \<and> 1 \<le> snd l \<and>
     snd l \<le> int (length (ls ! nat (fst l - 1)))"

definition extent_ok :: "string list \<Rightarrow> extent \<Rightarrow> bool" where
  "extent_ok ls e \<longleftrightarrow> text_pos ls (ext_start e) \<and> text_pos ls (ext_end e) \<and> 2 \<le> snd (ext_end e)"

definition cursor_ok :: "string list \<Rightarrow> cursor \<Rightarrow> bool" where
  "cursor_ok ls n \<longleftrightarrow> extent_ok ls (cextent (cdata n)) \<and>
     (\<forall>t \<in> set (tokens (cdata n)). extent_ok ls (tok_extent t))"

definition tree_ok :: "string \<Rightarrow> string list \<Rightarrow> cursor \<Rightarrow> bool" where
  "tree_ok pf ls root \<longleftrightarrow>
     (\<forall>n \<in> set (subtree root). \<not> foreign pf n \<longrightarrow> (\<forall>m \<in> set (subtree n). cursor_ok ls m))"

definition insert_pos :: "string list \<Rightarrow> loc \<Rightarrow> bool" where
  "insert_pos ls l \<longleftrightarrow> valid_pos ls (fst l) (snd l)"

text \<open>The recorded information leads to insertions inside the program.\<close>

definition range_ok :: "string list \<Rightarrow> loc \<Rightarrow> loc \<Rightarrow> bool" where
  "range_ok ls b e \<longleftrightarrow> insert_pos ls b \<and> insert_pos ls (fst e, snd e + 1)"

definition infos_ok :: "string list \<Rightarrow> transformer \<Rightarrow> bool" where
  "infos_ok ls st \<longleftrightarrow>
     (\<forall>l b e x. t_assumptions st l = Some (Some (b, e, x)) \<longrightarrow> range_ok ls b e) \<and>
     (\<forall>l b e x. t_branchings st l = Some (Some (b, e, x)) \<longrightarrow> range_ok ls b e) \<and>
     (\<forall>l b e x. t_switches st l = Some (Some (b, e, x)) \<longrightarrow> range_ok ls b e) \<and>
     (case t_first_decl st of None \<Rightarrow> True | Some l \<Rightarrow> l = 0 \<or> insert_pos ls (l, 1))"

lemma text_pos_insert: "text_pos ls l \<Longrightarrow> insert_pos ls l"
  "text_pos ls l \<Longrightarrow> insert_pos ls (fst l, snd l + 1)"
  "text_pos ls l \<Longrightarrow> insert_pos ls (fst l, 1)"
  by (auto simp: text_pos_def insert_pos_def valid_pos_def)

lemma extent_ok_range:
  "extent_ok ls e \<Longrightarrow> range_ok ls (ext_start e) (ext_end e)"
  "extent_ok ls e \<Longrightarrow> range_ok ls (fst (ext_start e), snd (ext_start e) + 1) (ext_end e)"
  "extent_ok ls e \<Longrightarrow> k \<in> {1, 2} \<Longrightarrow>
    range_ok ls (ext_start e) (fst (ext_end e), snd (ext_end e) - k)"
  by (auto simp: extent_ok_def range_ok_def text_pos_def insert_pos_def valid_pos_def)

lemma infos_ok_branch:
  "infos_ok ls st \<Longrightarrow> range_ok ls b e \<Longrightarrow>
    infos_ok ls (st\<lparr>t_branchings := (t_branchings st)(l \<mapsto> Some (b, e, x))\<rparr>)"
  "infos_ok ls st \<Longrightarrow> range_ok ls b e \<Longrightarrow>
    infos_ok ls (st\<lparr>t_switches := (t_switches st)(l \<mapsto> Some (b, e, x))\<rparr>)"
  by (auto simp: infos_ok_def)

lemma child_at_ok:
  assumes "child_at n i = Inr c" and "\<forall>m \<in> set (subtree n). cursor_ok ls m"
  shows "\<forall>m \<in> set (subtree c). cursor_ok ls m" and "extent_ok ls (cextent (cdata c))"
proof -
  from assms(1) have "c \<in> set (children n)" by (auto simp: child_at_def split: if_splits)
  then show "\<forall>m \<in> set (subtree c). cursor_ok ls m"
    using assms(2) subtree_children by blast
  then show "extent_ok ls (cextent (cdata c))"
    using subtree_self cursor_ok_def by blast
qed

lemma unpack_tokens_in: "unpack_tokens ts = Inr (f, s) \<Longrightarrow> f \<in> set ts \<and> s \<in> set ts"
  by (auto simp: unpack_tokens_def split: list.splits)

lemma for_extent_ok:
  assumes "for_extent n = Inr (e, k)" and ok: "\<forall>m \<in> set (subtree n). cursor_ok ls m"
  shows "extent_ok ls e \<and> k \<in> {1, 2}"
proof -
  have "\<forall>t \<in> set (tokens (cdata n)). extent_ok ls (tok_extent t)"
    using ok subtree_self cursor_ok_def by blast
  with assms(1) child_at_ok(2) [OF _ ok] show ?thesis
    by (auto simp: for_extent_def bindE_eq_Inr split: if_splits dest: unpack_tokens_in)
qed

lemma handle_branching_ok:
  assumes "handle_branching n l st = Inr st'" and ok: "\<forall>m \<in> set (subtree n). cursor_ok ls m"
    and "infos_ok ls st"
  shows "infos_ok ls st'"
  using assms(1,3) child_at_ok(2) [OF _ ok] for_extent_ok [OF _ ok]
  by (auto simp: handle_branching_def handle_for_def add_branchinfo_def add_switchinfo_def
      bindE_eq_Inr Let_def intro!: infos_ok_branch extent_ok_range split: cursor_kind.splits)

lemma record_ternary_ok:
  assumes "extent_ok ls ext" and "infos_ok ls st"
  shows "infos_ok ls (record_ternary q ext st)"
  using infos_ok_branch(1) [OF _ extent_ok_range(1) [OF assms(1)]] assms(2)
  by (simp add: record_ternary_def add_branchinfo_def Let_def)

lemma ternary_control_ok:
  assumes "ternary_control n ls0 = Inr (Some (q, ext))"
    and ok: "\<forall>m \<in> set (subtree n). cursor_ok ls m"
  shows "extent_ok ls ext"
proof -
  from assms(1) obtain c0 c where c0: "child_at n 0 = Inr c0"
    and c: "c = c0 \<or> child_at c0 0 = Inr c" and ext: "ext = cextent (cdata c)"
    by (auto simp: ternary_control_def bindE_eq_Inr split: option.splits if_splits) blast+
  from c show ?thesis
    using child_at_ok [OF c0 ok] child_at_ok(2) ext by blast
qed

lemma visit_branching_ok:
  assumes "visit_branching n st = Inr st'" and "\<forall>m \<in> set (subtree n). cursor_ok ls m"
    and "infos_ok ls st"
  shows "infos_ok ls st'"
  using assms by (elim visit_branching_split) (blast dest: handle_branching_ok)

lemma visit_ternary_ok:
  assumes "visit_ternary n st = Inr st'" and "\<forall>m \<in> set (subtree n). cursor_ok ls m"
    and "infos_ok ls st"
  shows "infos_ok ls st'"
  using assms ternary_control_ok record_ternary_ok
  by (fastforce simp: visit_ternary_def split: if_splits dest: handle_ternary_cases)

lemma visit_assumption_ok:
  assumes ok: "extent_ok ls (cextent (cdata c))" and "infos_ok ls st"
  shows "infos_ok ls (visit_assumption n i c st)"
proof -
  have "range_ok ls (if kind_of c = COMPOUND_STMT then (fst (start_of c), snd (start_of c) + 1)
      else start_of c) (end_of c)"
    using extent_ok_range(1,2) [OF ok] by simp
  then show ?thesis
    using assms(2) by (auto simp: visit_assumption_def Let_def infos_ok_def)
qed

lemma visit_child_ok:
  assumes "visit_child n i full c st = Inr st'" and ok: "\<forall>m \<in> set (subtree c). cursor_ok ls m"
    and st: "infos_ok ls st"
  shows "infos_ok ls st'"
  using assms(1)
proof (rule visit_child_split)
  have e: "extent_ok ls (cextent (cdata c))"
    using ok subtree_self cursor_ok_def by blast
  let ?s = "visit_call c (visit_first_decl c st)"
  fix s1 s2 assume s1: "visit_branching c ?s = Inr s1" and s2: "visit_ternary c s1 = Inr s2"
    and s3: "st' = visit_target full c (visit_assumption n i c s2)"
  have "insert_pos ls (fst (start_of c), 1)"
    using e text_pos_insert(3) extent_ok_def by blast
  then have "infos_ok ls ?s"
    using st by (auto simp: infos_ok_def visit_call_def visit_first_decl_def Let_def
        split: prod.split option.splits)
  with s1 have "infos_ok ls s1" using ok visit_branching_ok by blast
  with s2 have "infos_ok ls s2" using ok visit_ternary_ok by blast
  with e have "infos_ok ls (visit_assumption n i c s2)" by (rule visit_assumption_ok)
  then show ?thesis
    unfolding s3 by (simp add: visit_target_def Let_def infos_ok_def)
qed

lemma traverse_infos_ok:
  assumes "traverse_AST full root st = Inr st'" and ok: "tree_ok (t_program_file st) ls root"
    and st: "infos_ok ls st"
  shows "infos_ok ls st'"
proof -
  let ?R = "\<lambda>a b. t_program_file b = t_program_file a \<and>
    (t_program_file a = t_program_file st \<and> infos_ok ls a \<longrightarrow> infos_ok ls b)"
  have "?R st st'"
  proof (rule traverse_rel(1) [where S = "set (subtree root)" and R = ?R, OF _ _ _ _ assms(1)])
    fix node i full c s s'
    assume "c \<in> set (subtree root)" "\<not> foreign (t_program_file s) c"
      and v: "visit_child node i full c s = Inr s'"
    then show "?R s s'"
      using ok visit_child_ok [OF v] visit_child_edits [OF v]
      by (auto simp: tree_ok_def same_edits_def same_text_def)
  qed (use reached_subtree in auto)
  with st show ?thesis by simp
qed

subsection \<open>The insertions of the loop over the waypoints\<close>

definition insert_ok :: "string list \<Rightarrow> insertion \<Rightarrow> bool" where
  "insert_ok ls i \<longleftrightarrow> valid_pos ls (fst i) (fst (snd i)) \<and> snd (snd i) \<noteq> []"

definition inserts_ok :: "string list \<Rightarrow> transformer \<Rightarrow> bool" where
  "inserts_ok ls st \<longleftrightarrow> (\<forall>i \<in> set (t_insert st). insert_ok ls i)"

text \<open>An invariant of the transformer that every round keeps holds after the loop.\<close>

lemma transform_segment_rel:
  assumes refl: "\<And>s. R s s" and trans: "\<And>a b c. R a b \<Longrightarrow> R b c \<Longrightarrow> R a c"
    and round: "\<And>wp ls wp' ls'. transform_waypoint wp ls = Inr (wp', ls') \<Longrightarrow> R (fst ls) (fst ls')"
  shows "transform_segment seg ls = Inr (seg', ls') \<Longrightarrow> R (fst ls) (fst ls')"
proof (induction seg arbitrary: ls seg')
  case Nil
  then show ?case by (simp add: refl)
next
  case (Cons w ws)
  then show ?case
    by (auto simp: bindE_eq_Inr) (metis fst_conv round trans)
qed

lemma transform_content_rel:
  assumes refl: "\<And>s. R s s" and trans: "\<And>a b c. R a b \<Longrightarrow> R b c \<Longrightarrow> R a c"
    and round: "\<And>wp ls wp' ls'. transform_waypoint wp ls = Inr (wp', ls') \<Longrightarrow> R (fst ls) (fst ls')"
  shows "transform_content c ls = Inr (c', ls') \<Longrightarrow> R (fst ls) (fst ls')"
proof (induction c arbitrary: ls c')
  case Nil
  then show ?case by (simp add: refl)
next
  case (Cons s ss)
  from Cons.prems obtain seg seg' st cov s_index ss' where
    1: "transform_segment seg ls = Inr (seg', (st, cov, s_index))" and
    2: "transform_content ss (st, cov, Suc s_index) = Inr (ss', ls')"
    by (auto simp: bindE_eq_Inr)
  have "R (fst ls) (fst (st, cov, s_index))"
    using transform_segment_rel [where R = R, OF refl _ _ 1] trans round by blast
  moreover have "R (fst (st, cov, Suc s_index)) (fst ls')"
    using Cons.IH [OF 2] .
  ultimately show ?case using trans by auto
qed

text \<open>The effect of a round: the dictionaries stay, insertions and bad segments are added.\<close>

definition round_step :: "transformer \<Rightarrow> transformer \<Rightarrow> bool" where
  "round_step st st' \<longleftrightarrow> same_text st st' \<and> t_first_decl st' = t_first_decl st \<and>
     t_calls st' = t_calls st \<and> t_assumptions st' = t_assumptions st \<and>
     t_branchings st' = t_branchings st \<and> t_switches st' = t_switches st \<and>
     t_target st' = t_target st \<and>
     (\<forall>ls. infos_ok ls st \<and> inserts_ok ls st \<longrightarrow> inserts_ok ls st')"

lemma round_step_refl [simp]: "round_step st st"
  by (simp add: round_step_def)

lemma round_step_trans: "round_step a b \<Longrightarrow> round_step b c \<Longrightarrow> round_step a c"
  by (auto simp: round_step_def infos_ok_def intro: same_text_trans)

lemma round_step_add_insert:
  assumes "\<And>ls. infos_ok ls st \<Longrightarrow> \<forall>i \<in> set xs. insert_ok ls i"
  shows "round_step st (add_insert xs st)"
  using assms by (auto simp: round_step_def add_insert_def same_text_def inserts_ok_def)

lemma invalid_waypoint_step:
  "invalid_waypoint wp what l ls = Inr (wp', ls') \<Longrightarrow> round_step (fst ls) (fst ls')"
  by (auto simp: invalid_waypoint_def handle_invalid_location_def bindE_eq_Inr round_step_def
      same_text_def inserts_ok_def split: prod.splits if_splits)

lemma create_assumption_ne [simp]: "create_assumption c s f b \<noteq> []"
  by (simp add: create_assumption_def)

lemma infos_okD:
  "infos_ok ls st \<Longrightarrow> t_assumptions st l = Some (Some (b, e, x)) \<Longrightarrow> range_ok ls b e"
  "infos_ok ls st \<Longrightarrow> t_branchings st l = Some (Some (b, e, y)) \<Longrightarrow> range_ok ls b e"
  "infos_ok ls st \<Longrightarrow> t_switches st l = Some (Some (b, e, y)) \<Longrightarrow> range_ok ls b e"
  by (unfold infos_ok_def) blast+

lemma transform_assumption_step:
  assumes "transform_assumption l act wp ls = Inr (wp', ls')"
  shows "round_step (fst ls) (fst ls')"
proof -
  obtain st cov k where ls: "ls = (st, cov, k)" by (cases ls)
  have r: "round_step st (add_insert ((if x then [(fst e, snd e + 1, '';}'')] else []) @
         [(fst b, snd b, create_assumption c k f x)]) st)"
    if "t_assumptions st l = Some (Some (b, e, x))" for b e x c f
    by (rule round_step_add_insert, drule infos_okD(1) [OF _ that])
      (simp add: range_ok_def insert_pos_def insert_ok_def)
  show ?thesis
    using assms r ls invalid_waypoint_step [of wp "''assumption''" l ls wp' ls']
    by (auto simp: transform_assumption_def split: option.splits)
qed

lemma branching_inserts_ok:
  assumes "range_ok ls b e" and "f \<noteq> []"
  shows "\<forall>i \<in> set (branching_inserts b e f line col). insert_ok ls i"
  using assms by (auto simp: branching_inserts_def range_ok_def insert_pos_def insert_ok_def)

lemma transform_branching_step:
  assumes "transform_branching yl l wp ls = Inr (wp', ls')"
  shows "round_step (fst ls) (fst ls')"
proof -
  obtain st cov k where ls: "ls = (st, cov, k)" by (cases ls)
  have r: "round_step st (add_insert (branching_inserts b e f line col) st)"
    if "t_branchings st l = Some (Some (b, e, x)) \<or> t_switches st l = Some (Some (b, e, x))"
      "f \<noteq> []" for b e x f line col
    by (rule round_step_add_insert, rule branching_inserts_ok [OF _ that(2)])
      (use that(1) infos_okD(2,3) in blast)
  from assms ls have "invalid_waypoint wp ''branching'' l ls = Inr (wp', ls') \<or>
      (\<exists>b e x f. f \<noteq> [] \<and>
         (t_branchings st l = Some (Some (b, e, x)) \<or> t_switches st l = Some (Some (b, e, x))) \<and>
         (fst ls' = st \<or> fst ls' = add_insert (branching_inserts b e f (fst l) x) st))"
    by (fastforce simp: transform_branching_def bindE_eq_Inr Let_def
        split: option.splits if_splits prod.splits)
  then show ?thesis
  proof
    assume "invalid_waypoint wp ''branching'' l ls = Inr (wp', ls')"
    then show ?thesis by (rule invalid_waypoint_step)
  next
    assume "\<exists>b e x f. f \<noteq> [] \<and>
         (t_branchings st l = Some (Some (b, e, x)) \<or> t_switches st l = Some (Some (b, e, x))) \<and>
         (fst ls' = st \<or> fst ls' = add_insert (branching_inserts b e f (fst l) x) st)"
    with r ls show ?thesis by (metis fst_conv round_step_refl)
  qed
qed

lemma transform_call_step:
  "transform_call yl l wp ls = Inr (wp', ls') \<Longrightarrow> round_step (fst ls) (fst ls')"
  by (auto simp: transform_call_def split: option.splits dest: invalid_waypoint_step)

lemma transform_target_step:
  "transform_target yl l wp ls = Inr (wp', ls') \<Longrightarrow> round_step (fst ls) (fst ls')"
  by (auto simp: transform_target_def split: option.splits dest: invalid_waypoint_step)

lemmas transform_steps = transform_call_step transform_target_step transform_assumption_step
  transform_branching_step

lemma transform_waypoint_step:
  assumes "transform_waypoint wp ls = Inr (wp', ls')"
  shows "round_step (fst ls) (fst ls')"
  using assms unfolding transform_waypoint_def bindE_eq_Inr
  by (elim exE conjE if_eqE)
    (erule transform_steps | (unfold bindE_eq_Inr, elim exE conjE, erule transform_steps) |
      (drule sum.inject(2) [THEN iffD1], simp))+

lemma transform_content_step:
  "transform_content c ls = Inr (c', ls') \<Longrightarrow> round_step (fst ls) (fst ls')"
  by (rule transform_content_rel [of round_step])
    (auto intro: round_step_trans transform_waypoint_step)

text \<open>The scan only adds keys without information.\<close>

definition scan_step :: "transformer \<Rightarrow> transformer \<Rightarrow> bool" where
  "scan_step st st' \<longleftrightarrow> same_edits st st' \<and> t_first_decl st' = t_first_decl st \<and>
     (\<forall>ls. infos_ok ls st \<longrightarrow> infos_ok ls st')"

lemma scan_step_refl [simp]: "scan_step st st"
  by (simp add: scan_step_def)

lemma scan_step_trans: "scan_step a b \<Longrightarrow> scan_step b c \<Longrightarrow> scan_step a c"
  by (auto simp: scan_step_def intro: same_edits_trans)

lemma scan_step_updates:
  "scan_step st (st\<lparr>t_target := (t_target st)(l \<mapsto> None)\<rparr>)"
  "scan_step st (st\<lparr>t_calls := (t_calls st)(l \<mapsto> None)\<rparr>)"
  "scan_step st (st\<lparr>t_assumptions := (t_assumptions st)(l \<mapsto> None)\<rparr>)"
  "scan_step st (st\<lparr>t_branchings := (t_branchings st)(l \<mapsto> None),
     t_switches := (t_switches st)(l \<mapsto> None)\<rparr>)"
  by (simp_all add: scan_step_def same_edits_def same_text_def infos_ok_def)

text \<open>One round of the scan; the step of a waypoint that is not a target goes on.\<close>

lemma scan_waypoints_round:
  assumes "scan_waypoints pf final lastseg pre (w # ws) st = Inr (seg, st')"
  obtains (target) l where "st' = st\<lparr>t_target := (t_target st)(l \<mapsto> None)\<rparr>"
  | (other) st1 pre1 where "scan_step st st1"
      and "scan_waypoints pf final lastseg pre1 ws st1 = Inr (seg, st')"
proof -
  obtain wp where w: "w = Some wp" using assms by (cases w) auto
  from assms w obtain l line ty act where
    1: "check_waypoint pf wp = Inr (l, line, ty, act)" by (auto simp: bindE_eq_Inr)
  from assms w 1 have
    2: "guardE (act = ''follow'' \<longrightarrow> w = last (w # ws)) AssertionError = Inr ()"
    by (cases "guardE (act = ''follow'' \<longrightarrow> w = last (w # ws)) AssertionError") auto
  note eq = assms [unfolded w, simplified 1 2 [unfolded w] scan_waypoints.simps option.case
    bindE_simps prod.case Let_def]
  show ?thesis
  proof (cases "ty = ''target''")
    case True
    with eq show ?thesis by (auto simp: bindE_eq_Inr intro: target)
  next
    case nt: False
    show ?thesis
    proof (cases "ty = ''function_return'' \<or> ty = ''function_enter''")
      case True
      show ?thesis
        by (rule other [OF scan_step_updates(2)]) (use eq nt True in \<open>simp, blast?\<close>)
    next
      case nc: False
      show ?thesis
      proof (cases "ty = ''assumption''")
        case True
        show ?thesis
          by (rule other [OF scan_step_updates(3)]) (use eq nt nc True in simp)
      next
        case na: False
        then have "ty = ''branching''" using eq nt nc by (simp split: if_splits)
        then show ?thesis
          by (intro other [OF scan_step_updates(4)]) (use eq nt nc na in simp)
      qed
    qed
  qed
qed

lemma scan_waypoints_edits:
  "scan_waypoints pf final lastseg pre ws st = Inr (seg, st') \<Longrightarrow> scan_step st st'"
proof (induction ws arbitrary: pre st)
  case Nil
  then show ?case by simp
next
  case (Cons w ws)
  from Cons.prems show ?case
  proof (cases rule: scan_waypoints_round)
    case target
    then show ?thesis by (simp add: scan_step_updates)
  next
    case other
    then show ?thesis using Cons.IH scan_step_trans by blast
  qed
qed

lemma get_witness_locations_edits:
  "get_witness_locations c st = Inr (c', st') \<Longrightarrow> scan_step st st'"
proof (induction c arbitrary: c' st)
  case Nil
  then show ?case by simp
next
  case (Cons s ss)
  then show ?case
    by (auto simp: bindE_eq_Inr split: option.splits dest!: scan_waypoints_edits
        intro: scan_step_trans)
qed

lemma first_decl_insert:
  assumes "infos_ok ls st" and "ls \<noteq> []" and "inserts_ok ls st"
  shows "inserts_ok ls (decl_insert st)"
proof -
  have "valid_pos ls 1 1" using assms(2) by (cases ls) (auto simp: valid_pos_def)
  then show ?thesis
    using assms(1,3) by (auto simp: decl_insert_def add_insert_def inserts_ok_def insert_ok_def
        infos_ok_def insert_pos_def validator_decls_def split: option.splits)
qed

text \<open>From a transformer without insertions, everything planned is inside the program.\<close>

lemma plan_edits_ok:
  assumes "plan_edits root c st = Inr (c', st')" and "tree_ok (t_program_file st) ls root"
    and "infos_ok ls st" and "inserts_ok ls st" and "ls \<noteq> []"
  shows "inserts_ok ls st'" and "same_text st st'"
proof -
  from assms(1) obtain c1 st1 st2 st3 cov k where
    1: "get_witness_locations c st = Inr (c1, st1)" and
    2: "traverse_AST True root st1 = Inr st2" and
    3: "transform_content c1 (st2, {}, 0) = Inr (c', (st3, cov, k))" and
    4: "st' = (if is_preprocessed (t_program_file st3) then decl_insert st3 else st3)"
    by (auto simp: plan_edits_def bindE_eq_Inr split: if_splits)
  from get_witness_locations_edits [OF 1] have s1: "same_edits st st1" "infos_ok ls st1"
    using assms(3) by (auto simp: scan_step_def)
  have s2: "same_edits st1 st2" using 2 by (rule traverse_edits)
  have pf: "t_program_file st1 = t_program_file st"
    using s1 by (simp add: same_edits_def same_text_def)
  have i2: "infos_ok ls st2"
    using traverse_infos_ok [OF 2] assms(2) s1 pf by simp
  have "inserts_ok ls st2"
    using s1 s2 assms(4) by (simp add: inserts_ok_def same_edits_def)
  with transform_content_step [OF 3] i2 have i3: "inserts_ok ls st3" "infos_ok ls st3"
    and t3: "same_text st2 st3"
    by (auto simp: round_step_def infos_ok_def)
  have "same_text st3 st'"
    by (simp add: 4 decl_insert_def add_insert_def same_text_def)
  then show "same_text st st'"
    using s1 s2 t3 same_edits_text same_text_trans by blast
  show "inserts_ok ls st'"
    using i3 assms(5) by (simp add: 4 first_decl_insert)
qed

lemma init_transformer_ok:
  assumes "init_transformer pf ls wit = Inr st"
  shows "infos_ok ls st" and "inserts_ok ls st" and "t_program_file st = pf"
    and "t_c_lines st = ls" and "t_shift st = []"
  using assms by (auto simp: init_transformer_def bindE_eq_Inr infos_ok_def inserts_ok_def)

text \<open>Where a character of a woven program is.\<close>

lemma woven_nth:
  assumes "woven F ls ls'" and "text_pos ls (l, col)"
    and s: "c' = col + (\<Sum>q = 1..col. int (length (F l q)))"
  shows "c' \<le> int (length (ls' ! nat (l - 1)))"
    and "ls' ! nat (l - 1) ! nat (c' - 1) = ls ! nat (l - 1) ! nat (col - 1)"
proof -
  have l: "nat (l - 1) < length ls" "int (nat (l - 1)) + 1 = l" and
    col: "nat (col - 1) < length (ls ! nat (l - 1))" "1 + int (nat (col - 1)) = col"
    using assms(2) by (auto simp: text_pos_def)
  have ln: "ls' ! nat (l - 1) = weave (F l) 1 (ls ! nat (l - 1))"
    using assms(1) l by (auto simp: woven_def)
  note w = weave_nth [OF col(1), where p = 1 and f = "F l", unfolded col(2)]
  have "c' - 1 = int (nat (col - 1)) + (\<Sum>q = 1..col. int (length (F l q)))"
    using s col(2) by simp
  with w ln show "ls' ! nat (l - 1) ! nat (c' - 1) = ls ! nat (l - 1) ! nat (col - 1)"
    by simp
  have "0 < c'" using s col(2) assms(2) sum_nonneg [of "{1..col}" "\<lambda>q. int (length (F l q))"]
    by (simp add: text_pos_def)
  then show "c' \<le> int (length (ls' ! nat (l - 1)))"
    using w(1) ln \<open>c' - 1 = _\<close> by (simp add: nat_less_iff)
qed

lemma inserts_ok_calls:
  assumes "inserts_ok ls st" and "t_shift st = []"
  obtains ls' sh where "insert_calls (t_insert st) ls (t_shift st) = Inr (ls', sh)"
    and "length ls' = length ls"
    and "\<And>l col. text_pos ls (l, col) \<Longrightarrow>
      shifted_column sh l col \<le> int (length (ls' ! nat (l - 1))) \<and>
      ls' ! nat (l - 1) ! nat (shifted_column sh l col - 1) = ls ! nat (l - 1) ! nat (col - 1)"
proof -
  have v: "\<forall>(l, c, v) \<in> set (t_insert st). valid_pos ls l c \<and> v \<noteq> []"
    using assms(1) by (fastforce simp: inserts_ok_def insert_ok_def)
  then obtain ls' sh where i: "insert_calls (t_insert st) ls [] = Inr (ls', sh)"
    and w: "woven (pieces (sort_inserts (t_insert st))) ls ls'"
    using insert_calls_woven [of "t_insert st" ls "[]"] by fast
  have "\<forall>(l, c, v) \<in> set (t_insert st). 1 \<le> c \<and> v \<noteq> []"
    using v by (auto simp: valid_pos_def)
  note s = insert_calls_shift(3) [OF i this]
  show ?thesis
    by (rule that [of ls' sh]) (use i w assms(2) woven_nth [OF w _ s] in \<open>auto simp: woven_def\<close>)
qed

section \<open>An example\<close>

text \<open>A program of three lines, its syntax tree, and a witness with a call, an assumption and a
  target.\<close>

definition ex_program :: "string list" where
  "ex_program = [''int main() {'' @ [CHR 0x0A], ''  int x = f();'' @ [CHR 0x0A], ''}'' @ [CHR 0x0A]]"

definition ex_cursor :: "cursor_kind \<Rightarrow> loc \<Rightarrow> loc \<Rightarrow> bool \<Rightarrow> bool \<Rightarrow> cursor list \<Rightarrow> cursor" where
  "ex_cursor k b e expr stmt cs = Cursor \<lparr>ckind = k, cfile = Some ''p.c'',
     cextent = \<lparr>ext_start = b, ext_end = e\<rparr>, is_expression = expr, is_stmt_kind = stmt,
     is_declaration = (\<not> expr \<and> \<not> stmt), tokens = []\<rparr> cs"

definition ex_root :: cursor where
  "ex_root = Cursor \<lparr>ckind = OTHER_KIND, cfile = None,
     cextent = \<lparr>ext_start = (0, 0), ext_end = (0, 0)\<rparr>, is_expression = False, is_stmt_kind = False,
     is_declaration = False, tokens = []\<rparr>
     [ex_cursor OTHER_KIND (1, 1) (3, 2) False False
       [ex_cursor COMPOUND_STMT (1, 12) (3, 2) False True
         [ex_cursor OTHER_KIND (2, 3) (2, 15) False True
           [ex_cursor OTHER_KIND (2, 3) (2, 14) False False
             [ex_cursor CALL_EXPR (2, 11) (2, 14) True False []]]]]]"

definition ex_waypoint :: "string \<Rightarrow> string \<Rightarrow> string option \<Rightarrow> int \<Rightarrow> int \<Rightarrow> waypoint" where
  "ex_waypoint ty act con l c = \<lparr>w_type = Some ty, w_action = Some act, w_constraint = con,
     w_loc = Some \<lparr>y_file = Some ''p.c'', y_line = Some l, y_col = Some c\<rparr>, w_loc2 = None\<rparr>"

definition ex_content :: content where
  "ex_content = [Some [Some (ex_waypoint ''function_return'' ''avoid'' None 2 13),
     Some (ex_waypoint ''assumption'' ''follow'' (Some ''x == 0;'') 2 3)],
     Some [Some (ex_waypoint ''target'' ''follow'' None 2 11)]]"

definition ex_witness :: witness where
  "ex_witness = [\<lparr>entry_type = Some ''violation_sequence'', has_metadata = True,
     e_content = Some ex_content\<rparr>]"

definition ex_start :: transformer where
  "ex_start = \<lparr>t_program_file = ''p.c'', t_first_decl = None, t_calls = Map.empty,
          t_assumptions = Map.empty, t_branchings = Map.empty, t_switches = Map.empty,
          t_target = Map.empty, t_insert = [], t_shift = [], t_c_lines = ex_program,
          t_check_all = False, t_bad_segments = []\<rparr>"


lemma ex_init: "init_transformer ''p.c'' ex_program ex_witness = Inr ex_start"
  by (simp add: init_transformer_def check_witness_structure_def witch_assert_def ex_witness_def
      ex_content_def ex_start_def)

lemma ex_tree_ok: "tree_ok ''p.c'' ex_program ex_root"
  by code_simp

lemma ex_plan: "isl (plan_edits ex_root ex_content ex_start) = False"
  by code_simp

lemma ex_transform: "isl (transform ex_root ex_content ex_start) = False"
  by code_simp

lemma ex_walk: "isl (traverse_AST True ex_root
    (ex_start\<lparr>t_calls := [(2, 13) \<mapsto> None]\<rparr>)) = False"
  by code_simp

section \<open>Properties\<close>

text \<open>C3: For a syntax tree whose extents lie in the program, every text that the transformer
  plans to insert (waypoint calls and the declarations of a preprocessed file) is non-empty and
  has a position inside the program, so that no insertion raises or wraps around.\<close>

theorem planned_insertions_inside:
  assumes "init_transformer pf ls wit = Inr st" and "tree_ok pf ls root" and "ls \<noteq> []"
    and "plan_edits root c st = Inr (c', st')"
  shows "\<forall>(l, col, v) \<in> set (t_insert st'). valid_pos ls l col \<and> v \<noteq> []"
  using plan_edits_ok(1) [OF assms(4), of ls] init_transformer_ok [OF assms(1)] assms(2,3)
  by (fastforce simp: inserts_ok_def insert_ok_def)

theorem planned_insertions_inside_witness:
  "\<exists>c' st'. plan_edits ex_root ex_content ex_start = Inr (c', st') \<and>
    (\<forall>(l, col, v) \<in> set (t_insert st'). valid_pos ex_program l col \<and> v \<noteq> [])"
proof -
  obtain c' st' where p: "plan_edits ex_root ex_content ex_start = Inr (c', st')"
    using ex_plan by (cases "plan_edits ex_root ex_content ex_start") auto
  show ?thesis
    using p planned_insertions_inside [OF ex_init ex_tree_ok _ p] by (auto simp: ex_program_def)
qed

text \<open>C1: The transformed program contains the original one at the recorded places: the
  character at line \<open>l\<close>, column \<open>col\<close> is in the new program in the same list element at the
  column that \<open>_shift_witness\<close> computes from the recorded shifts, and nothing but the lines
  and the shift map of the object changes in these last steps.\<close>

theorem transform_keeps_program:
  assumes "init_transformer pf ls wit = Inr st" and "tree_ok pf ls root" and "ls \<noteq> []"
    and "transform root c st = Inr (c', st')"
  shows "length (t_c_lines st') = length ls \<and>
    (\<forall>l col. text_pos ls (l, col) \<longrightarrow>
      shifted_column (t_shift st') l col \<le> int (length (t_c_lines st' ! nat (l - 1))) \<and>
      t_c_lines st' ! nat (l - 1) ! nat (shifted_column (t_shift st') l col - 1) =
        ls ! nat (l - 1) ! nat (col - 1))"
proof -
  from assms(4) obtain c1 st1 where p: "plan_edits root c st = Inr (c1, st1)"
    and c: "insert_calls (t_insert st1) (t_c_lines st1) (t_shift st1) =
      Inr (t_c_lines st', t_shift st')"
    by (auto simp: transform_def bindE_eq_Inr)
  have ok: "inserts_ok ls st1" "t_c_lines st1 = ls" "t_shift st1 = []"
    using plan_edits_ok [OF p, of ls] init_transformer_ok [OF assms(1)] assms(2,3)
    by (auto simp: same_text_def)
  from inserts_ok_calls [OF ok(1,3)] c ok(2) show ?thesis by (metis Inr_inject prod.inject)
qed

theorem transform_keeps_program_witness:
  "\<exists>c' st'. transform ex_root ex_content ex_start = Inr (c', st') \<and>
    t_c_lines st' ! 1 ! nat (shifted_column (t_shift st') 2 11 - 1) = CHR ''f''"
proof -
  obtain c' st' where p: "transform ex_root ex_content ex_start = Inr (c', st')"
    using ex_transform by (cases "transform ex_root ex_content ex_start") auto
  have "text_pos ex_program (2, 11)" and "ex_program ! 1 ! 10 = CHR ''f''" and "ex_program \<noteq> []"
    by (simp_all add: text_pos_def ex_program_def)
  then show ?thesis
    using p transform_keeps_program [OF ex_init ex_tree_ok _ p]
    by (auto dest: spec [of _ 2] spec [of _ 11])
qed

text \<open>C2: \<open>traverse_AST\<close> resolves the call waypoints: it keeps exactly the locations of the
  witness; what it newly records for a location is the start of a call expression of the
  program file whose last character is there (for a location without column, one that ends
  on its line); and no location at which a visited call ends is left unresolved.\<close>

theorem traverse_resolves_calls:
  assumes "traverse_AST full root st = Inr st'"
  shows "dom (t_calls st') = dom (t_calls st) \<and>
    (\<forall>l b. t_calls st' l = Some (Some b) \<longrightarrow> t_calls st l = Some (Some b) \<or>
      (\<exists>n \<in> set (reached (t_program_file st) root). kind_of n = CALL_EXPR \<and> start_of n = b \<and>
        fst (end_of n) = fst l \<and> (snd (end_of n) = snd l + 1 \<or> snd l = 0))) \<and>
    (\<forall>n \<in> set (reached (t_program_file st) root). \<forall>l \<in> dom (t_calls st).
      kind_of n = CALL_EXPR \<and> end_of n = (fst l, snd l + 1) \<longrightarrow>
      (\<exists>b. t_calls st' l = Some (Some b)))"
proof (intro conjI)
  note step = traverse_calls_step [OF assms order.refl]
  show "dom (t_calls st') = dom (t_calls st)"
    using step by (simp add: calls_step_def)
  show "\<forall>l b. t_calls st' l = Some (Some b) \<longrightarrow> t_calls st l = Some (Some b) \<or>
      (\<exists>n \<in> set (reached (t_program_file st) root). kind_of n = CALL_EXPR \<and> start_of n = b \<and> fst (end_of n) = fst l \<and> (snd (end_of n) = snd l + 1 \<or> snd l = 0))"
    using step unfolding calls_step_def call_found_def by blast
  show "\<forall>n \<in> set (reached (t_program_file st) root). \<forall>l \<in> dom (t_calls st).
      kind_of n = CALL_EXPR \<and> end_of n = (fst l, snd l + 1) \<longrightarrow>
      (\<exists>b. t_calls st' l = Some (Some b))"
    using traverse_filled(1) [OF assms] traverse_fills(1) [OF assms]
    by (force simp: filled_def fills_def)
qed

theorem traverse_resolves_calls_witness:
  "\<exists>st'. traverse_AST True ex_root (ex_start\<lparr>t_calls := [(2, 13) \<mapsto> None]\<rparr>) = Inr st' \<and>
    dom (t_calls st') = {(2, 13)}"
proof -
  obtain st' where p: "traverse_AST True ex_root (ex_start\<lparr>t_calls := [(2, 13) \<mapsto> None]\<rparr>) = Inr st'"
    using ex_walk
    by (cases "traverse_AST True ex_root (ex_start\<lparr>t_calls := [(2, 13) \<mapsto> None]\<rparr>)") auto
  show ?thesis using p traverse_resolves_calls [OF p] by simp
qed

end
