(* ===== verification/YamlWriter.thy ===== *)
theory YamlWriter
  imports Transformer
begin

text \<open>
  \<open>YAMLWriter\<close> (\<open>witnesses/YAMLwitnesswriter.py\<close>): it reads the waypoints file of the back end,
  undoes the shift of the validated program (\<open>shift_back\<close>), walks the syntax tree of the source
  to find the closing brackets of the calls and the full expression of the target, and builds
  the entry of the YAML witness. Time stamp, version, identifier and hash (or the exception of computing it) are arguments. The
  lemmas show that \<open>shift_back\<close> inverts the shift of the transformer and that the locations of
  calls survive the way through both components.
\<close>

section \<open>State\<close>

type_synonym test_call = "int \<times> int \<times> string \<times> bool"

record out_waypoint =
  o_type :: string
  o_action :: string
  o_constraint :: "(string \<times> string) option"
  o_file :: string
  o_line :: int
  o_column :: int

record y_metadata =
  format_version :: string
  creation_time :: string
  producer :: "string \<times> string"
  md_uuid :: string
  input_files :: "string list"
  input_file_hashes :: "(string \<times> string) list"
  md_specification :: string
  data_model :: string
  language :: string

record out_entry =
  oe_type :: string
  oe_metadata :: y_metadata
  oe_content :: "out_waypoint list list option"

text \<open>\<open>errorLoc\<close> is a tuple of any length; it is false for the code when it is \<open>None\<close> or empty.\<close>

record yaml_writer =
  yw_source :: string
  yw_relsource :: string
  yw_ltl :: "string list"
  yw_termination :: bool
  yw_is32bit :: bool
  yw_correctness :: bool
  yw_test :: "test_call list"
  yw_errorLoc :: "int list option"
  yw_errorExpr :: "loc option"
  yw_calls :: "loc \<rightharpoonup> loc option"
  yw_witness :: "out_entry list"
  yw_shift :: "shift_map option"

definition init_writer ::
  "string \<Rightarrow> string \<Rightarrow> string list \<Rightarrow> bool \<Rightarrow> bool \<Rightarrow> bool \<Rightarrow> shift_map option \<Rightarrow> yaml_writer" where
  "init_writer source relsource ltl termination is32bit is_correctness_wit shift =
     \<lparr>yw_source = source, yw_relsource = relsource, yw_ltl = ltl, yw_termination = termination,
      yw_is32bit = is32bit, yw_correctness = is_correctness_wit, yw_test = [], yw_errorLoc = None,
      yw_errorExpr = None, yw_calls = Map.empty, yw_witness = [], yw_shift = shift\<rparr>"

definition truthy :: "'a list option \<Rightarrow> bool" where
  "truthy x = (case x of Some (_ # _) \<Rightarrow> True | _ \<Rightarrow> False)"

definition pair_of :: "int list \<Rightarrow> exn + loc" where
  "pair_of xs = (case xs of a # b # _ \<Rightarrow> Inr (a, b) | _ \<Rightarrow> Inl IndexError)"

section \<open>shift_back\<close>

text \<open>The loop over the sorted columns for a call, which stops at the first column that is not
  to the left, and the loop for the error location, which goes on.\<close>

fun back_break :: "(int \<times> int) list \<Rightarrow> int \<Rightarrow> int" where
  "back_break [] c = c"
| "back_break ((col, n) # m) c = (if c > col then back_break m (c - n) else c)"

fun back_all :: "(int \<times> int) list \<Rightarrow> int \<Rightarrow> int" where
  "back_all [] c = c"
| "back_all ((col, n) # m) c = back_all m (if c > col then c - n else c)"

definition shift_back_call :: "shift_map \<Rightarrow> int \<Rightarrow> test_call \<Rightarrow> test_call" where
  "shift_back_call sh add_lines call =
     (case call of (line, col, value, cyc) \<Rightarrow>
       (let og_line = line - add_lines
        in (og_line, (case map_of sh og_line of None \<Rightarrow> col | Some m \<Rightarrow> back_break (sort_key fst m) col),
            value, cyc)))"

definition shift_back_loc :: "shift_map \<Rightarrow> int \<Rightarrow> loc \<Rightarrow> loc" where
  "shift_back_loc sh add_lines l =
     (let og_line = fst l - add_lines
      in (og_line, (case map_of sh og_line of None \<Rightarrow> snd l
                    | Some m \<Rightarrow> back_all (sort_key fst m) (snd l))))"

definition call_keys :: "test_call list \<Rightarrow> loc \<rightharpoonup> loc option" where
  "call_keys ts = foldl (\<lambda>m (l, c, _). m((l, c) \<mapsto> None)) Map.empty ts"

definition shift_back :: "shift_map \<Rightarrow> yaml_writer \<Rightarrow> exn + yaml_writer" where
  "shift_back sh w =
     (let add_lines = (if is_preprocessed (yw_source w) then 1 else 0);
          ts = map (shift_back_call sh add_lines) (yw_test w)
      in bindE (of_opt TypeError (yw_errorLoc w)) (\<lambda>e.
         bindE (pair_of e) (\<lambda>l.
         Inr (w\<lparr>yw_test := ts, yw_calls := call_keys ts,
                yw_errorLoc := Some (let l' = shift_back_loc sh add_lines l in [fst l', snd l'])\<rparr>))))"

section \<open>parse\<close>

definition py_ints :: "string list \<Rightarrow> exn + int list" where
  "py_ints xs = mapE (\<lambda>s. of_opt ValueError (py_int s)) xs"

definition parse_call :: "string \<Rightarrow> exn + test_call" where
  "parse_call line =
     (let call = split_on (CHR '':'') (strip_char (CHR 0x0A) line)
      in bindE (of_opt IndexError (py_nth call 1)) (\<lambda>s1.
         bindE (of_opt ValueError (py_int s1)) (\<lambda>l.
         bindE (of_opt IndexError (py_nth call 2)) (\<lambda>s2.
         bindE (of_opt ValueError (py_int s2)) (\<lambda>c.
         bindE (of_opt IndexError (py_nth call 3)) (\<lambda>value.
         Inr (l, c, value, length call = 5)))))))"

text \<open>The loop over the lines; the flag is \<open>cycle\<close>.\<close>

fun parse_lines :: "string list \<Rightarrow> yaml_writer \<Rightarrow> bool \<Rightarrow> exn + yaml_writer \<times> bool" where
  "parse_lines [] w cyc = Inr (w, cyc)"
| "parse_lines (line # ls) w cyc =
     bindE (of_opt IndexError (py_nth line 0)) (\<lambda>c.
     if c = CHR ''@'' then
       bindE (py_ints (drop 2 (split_on (CHR '':'') (strip_char (CHR 0x0A) line)))) (\<lambda>e.
       Inr (w\<lparr>yw_errorLoc := Some e\<rparr>, cyc))
     else
       bindE (parse_call line) (\<lambda>call. case call of (l, c, value, cy) \<Rightarrow>
       parse_lines ls (w\<lparr>yw_test := yw_test w @ [call], yw_calls := (yw_calls w)((l, c) \<mapsto> None)\<rparr>) cy))"

definition parse_waypoints :: "string list \<Rightarrow> yaml_writer \<Rightarrow> exn + yaml_writer" where
  "parse_waypoints ls w =
     bindE (parse_lines ls w False) (\<lambda>(w1, cyc).
     let w2 = (if cyc then w1\<lparr>yw_errorLoc := None\<rparr> else w1)
     in case yw_shift w2 of None \<Rightarrow> Inr w2
        | Some sh \<Rightarrow> if sh = [] then Inr w2 else shift_back sh w2)"

section \<open>Walking the syntax tree\<close>

definition in_range :: "loc \<Rightarrow> loc \<Rightarrow> loc \<Rightarrow> bool" where
  "in_range e b f = location_in_range (fst e) (snd e) (fst b) (snd b) (fst f) (snd f)"

definition py_child :: "cursor \<Rightarrow> int \<Rightarrow> exn + cursor" where
  "py_child n i = of_opt IndexError (py_nth (children n) i)"

text \<open>\<open>_get_recurring_location\<close>; the operands of \<open>or\<close> are evaluated from left to right.\<close>

definition orE :: "bool \<Rightarrow> exn + bool \<Rightarrow> exn + bool" where
  "orE b r = (if b then Inr True else r)"

definition recurring_for :: "cursor \<Rightarrow> loc \<Rightarrow> exn + loc option" where
  "recurring_for node e =
     bindE (orE (e = start_of node)
             (bindE (py_child node 0) (\<lambda>c0. bindE (py_child node (- 2)) (\<lambda>c2.
              Inr (in_range e (start_of c0) (end_of c2)))))) (\<lambda>hit.
     if hit then bindE (py_child node (- 1)) (\<lambda>c. Inr (Some (start_of c))) else Inr None)"

definition recurring_do :: "cursor \<Rightarrow> loc \<Rightarrow> exn + loc option" where
  "recurring_do node e =
     bindE (py_child node 0) (\<lambda>c0.
     bindE (orE (e = (fst (end_of c0), snd (end_of c0) - 1))
             (bindE (py_child node 1) (\<lambda>c1. Inr (in_range e (start_of c1) (end_of c1))))) (\<lambda>hit.
     Inr (if hit then Some (start_of c0) else None)))"

definition recurring_if :: "cursor \<Rightarrow> loc \<Rightarrow> exn + loc option" where
  "recurring_if node e =
     bindE (py_child node 0) (\<lambda>c0.
     Inr (if e = start_of c0 \<or> in_range e (start_of c0) (end_of c0)
          then Some (start_of node) else None))"

definition or_else :: "exn + 'a option \<Rightarrow> exn + 'a option \<Rightarrow> exn + 'a option" where
  "or_else r s = bindE r (\<lambda>x. case x of None \<Rightarrow> s | Some y \<Rightarrow> Inr (Some y))"

definition get_recurring_location :: "cursor \<Rightarrow> loc \<Rightarrow> exn + loc option" where
  "get_recurring_location node e =
     or_else (if kind_of node = FOR_STMT \<or> kind_of node = WHILE_STMT then recurring_for node e
              else Inr None)
    (or_else (if kind_of node = DO_STMT then recurring_do node e else Inr None)
    (or_else (if kind_of node = IF_STMT then recurring_if node e else Inr None)
    (or_else (Inr (if kind_of node = SWITCH_STMT \<and> e = start_of node
                   then Some (start_of node) else None))
       (Inr (if (is_stmt_kind (cdata node) \<or> is_declaration (cdata node)) \<and> e = start_of node
             then Some (start_of node) else None)))))"

definition visit_recurring :: "cursor \<Rightarrow> yaml_writer \<Rightarrow> exn + yaml_writer" where
  "visit_recurring node w =
     (if yw_termination w \<and> truthy (yw_errorLoc w) \<and> yw_errorExpr w = None then
        bindE (pair_of (the (yw_errorLoc w))) (\<lambda>e.
        bindE (get_recurring_location node e) (\<lambda>r. Inr (w\<lparr>yw_errorExpr := r\<rparr>)))
      else Inr w)"

definition visit_bracket :: "cursor \<Rightarrow> yaml_writer \<Rightarrow> yaml_writer" where
  "visit_bracket child w =
     (if kind_of child = CALL_EXPR \<and> start_of child \<in> dom (yw_calls w)
      then w\<lparr>yw_calls := (yw_calls w)(start_of child \<mapsto>
             Some (fst (end_of child), snd (end_of child) - 1))\<rparr>
      else w)"

definition visit_error :: "cursor \<Rightarrow> yaml_writer \<Rightarrow> exn + yaml_writer" where
  "visit_error child w =
     (if yw_errorExpr w \<noteq> None \<or> \<not> truthy (yw_errorLoc w) \<or> \<not> is_expression (cdata child) then Inr w
      else
        bindE (pair_of (the (yw_errorLoc w))) (\<lambda>e.
        Inr (if in_range e (start_of child) (end_of child)
             then w\<lparr>yw_errorExpr := Some (start_of child)\<rparr> else w)))"

fun find_brackets :: "cursor \<Rightarrow> yaml_writer \<Rightarrow> exn + yaml_writer"
and find_brackets_list :: "cursor list \<Rightarrow> yaml_writer \<Rightarrow> exn + yaml_writer" where
  "find_brackets (Cursor d cs) w =
     bindE (visit_recurring (Cursor d cs) w) (find_brackets_list cs)"
| "find_brackets_list [] w = Inr w"
| "find_brackets_list (c # cs) w =
     (if foreign (yw_source w) c then find_brackets_list cs w
      else
        bindE (visit_error c (visit_bracket c w)) (\<lambda>w1.
        bindE (find_brackets c w1) (\<lambda>w2.
        find_brackets_list cs w2)))"

section \<open>The witness\<close>

definition add_metadata :: "string \<Rightarrow> string \<Rightarrow> string \<Rightarrow> string \<Rightarrow> yaml_writer \<Rightarrow> yaml_writer" where
  "add_metadata time version uuid hash w =
     w\<lparr>yw_witness := yw_witness w @
       [\<lparr>oe_type = (if \<not> yw_correctness w then ''violation_sequence'' else ''invariant_set''),
         oe_metadata = \<lparr>format_version = ''2.1'', creation_time = time,
           producer = (''witch'', version), md_uuid = uuid, input_files = [yw_relsource w],
           input_file_hashes = [(yw_relsource w, hash)], md_specification = join '','' (yw_ltl w),
           data_model = (if yw_is32bit w then ''ILP32'' else ''LP64''), language = ''C''\<rparr>,
         oe_content = None\<rparr>]\<rparr>"

definition return_waypoint :: "string \<Rightarrow> string \<Rightarrow> bool \<Rightarrow> loc \<Rightarrow> out_waypoint" where
  "return_waypoint relsource value cyc new_location =
     \<lparr>o_type = ''function_return'', o_action = (if cyc then ''cycle'' else ''follow''),
      o_constraint = Some (''ext_c_expression'', [CHR 0x5C] @ ''result == '' @ value),
      o_file = relsource, o_line = fst new_location, o_column = snd new_location\<rparr>"

definition call_waypoint :: "yaml_writer \<Rightarrow> test_call \<Rightarrow> exn + out_waypoint" where
  "call_waypoint w call =
     (case call of (l, c, value, cyc) \<Rightarrow>
        bindE (of_opt KeyError (yw_calls w (l, c))) (\<lambda>x.
        bindE (of_opt AssertionError x) (\<lambda>new_location.
        Inr (return_waypoint (yw_relsource w) value cyc new_location))))"

definition last_waypoint :: "yaml_writer \<Rightarrow> loc \<Rightarrow> out_waypoint" where
  "last_waypoint w e =
     (if yw_termination w
      then \<lparr>o_type = ''assumption'', o_action = ''cycle'',
            o_constraint = Some (''c_expression'', ''1''),
            o_file = yw_relsource w, o_line = fst e, o_column = snd e\<rparr>
      else \<lparr>o_type = ''target'', o_action = ''follow'', o_constraint = None,
            o_file = yw_relsource w, o_line = fst e, o_column = snd e\<rparr>)"

definition set_content :: "out_waypoint list list \<Rightarrow> yaml_writer \<Rightarrow> exn + yaml_writer" where
  "set_content c w =
     (case yw_witness w of [] \<Rightarrow> Inl IndexError
      | e # es \<Rightarrow> Inr (w\<lparr>yw_witness := e\<lparr>oe_content := Some c\<rparr> # es\<rparr>))"

definition create_content :: "cursor \<Rightarrow> yaml_writer \<Rightarrow> exn + yaml_writer" where
  "create_content root w =
     bindE (find_brackets root w) (\<lambda>w1.
     bindE (mapE (call_waypoint w1) (yw_test w1)) (\<lambda>wps.
     if truthy (yw_errorLoc w1) then
       bindE (case yw_errorExpr w1 of Some e \<Rightarrow> Inr e | None \<Rightarrow> pair_of (the (yw_errorLoc w1))) (\<lambda>e.
       set_content (map (\<lambda>wp. [wp]) wps @ [[last_waypoint w1 e]]) (w1\<lparr>yw_errorExpr := Some e\<rparr>))
     else set_content (map (\<lambda>wp. [wp]) wps) w1))"

definition generate_violation_witness ::
  "string list \<Rightarrow> string \<Rightarrow> string \<Rightarrow> string \<Rightarrow> exn + string \<Rightarrow> cursor \<Rightarrow> yaml_writer \<Rightarrow> exn + yaml_writer" where
  "generate_violation_witness ls time version uuid hash root w =
     bindE (parse_waypoints ls w) (\<lambda>w1.
     bindE (guardE (truthy (yw_errorLoc w1) \<or> yw_termination w1) AssertionError) (\<lambda>_.
     bindE hash (\<lambda>h.
     create_content root (add_metadata time version uuid h w1))))"

definition generate_correctness_witness ::
  "string \<Rightarrow> string \<Rightarrow> string \<Rightarrow> exn + string \<Rightarrow> yaml_writer \<Rightarrow> exn + yaml_writer" where
  "generate_correctness_witness time version uuid hash w =
     bindE hash (\<lambda>h. set_content [] (add_metadata time version uuid h w))"

section \<open>shift_back inverts the shift\<close>

text \<open>A map of positions between two texts with a way back.\<close>

locale relocation =
  fixes fwd :: "'m \<Rightarrow> loc \<Rightarrow> loc" and bwd :: "'m \<Rightarrow> loc \<Rightarrow> loc" and valid :: "'m \<Rightarrow> bool"
  assumes bwd_fwd: "valid m \<Longrightarrow> bwd m (fwd m l) = l"
begin

lemma fwd_inj: "valid m \<Longrightarrow> inj (fwd m)"
  by (metis bwd_fwd injI)

lemma fwd_distinct: "valid m \<Longrightarrow> distinct (map (fwd m) ls) = distinct ls"
  using fwd_inj [of m] by (metis distinct_map inj_on_subset subset_UNIV)

lemma bwd_map: "valid m \<Longrightarrow> map (bwd m) (map (fwd m) ls) = ls"
  by (induction ls) (simp_all add: bwd_fwd)

end

lemma column_shift_sorted: "column_shift (sort_key fst m) c = column_shift m c"
proof -
  have "mset (map snd (filter (\<lambda>(col, n). col \<le> c) (sort_key fst m))) =
      mset (map snd (filter (\<lambda>(col, n). col \<le> c) m))"
    by (simp add: mset_filter)
  then show ?thesis by (metis column_shift_sum_list sum_mset_sum_list)
qed

lemma column_shift_Cons:
  "column_shift ((k, n) # m) c = (if k \<le> c then n else 0) + column_shift m c"
  by (simp add: column_shift_sum_list)

lemma column_shift_nonneg: "\<forall>(c, n) \<in> set m. 0 < n \<Longrightarrow> 0 \<le> column_shift m c"
  by (induction m) (auto simp: column_shift_Cons, simp add: column_shift_sum_list)

lemma column_shift_right: "\<forall>x \<in> set m. c < fst x \<Longrightarrow> column_shift m c = 0"
  by (induction m) (auto simp: column_shift_Cons, simp add: column_shift_sum_list)

text \<open>On sorted columns both loops take away what the shift added.\<close>

lemma back_shift:
  assumes "sorted (map fst m)" and "\<forall>(c, n) \<in> set m. 0 < n"
  shows "back_break m (c + column_shift m c) = c" and "back_all m (c + column_shift m c) = c"
proof -
  have "back_break m (c + column_shift m c) = c \<and> back_all m (c + column_shift m c) = c"
    using assms
  proof (induction m)
    case Nil
    then show ?case by (simp add: column_shift_def)
  next
    case (Cons x m)
    obtain k n where x: "x = (k, n)" by (cases x)
    have nn: "0 < n" "0 \<le> column_shift m c" using Cons.prems x column_shift_nonneg by auto
    show ?case
    proof (cases "k \<le> c")
      case True
      then show ?thesis using Cons nn x by (simp add: column_shift_Cons)
    next
      case False
      then have "\<forall>y \<in> set m. c < fst y" using Cons.prems x by auto
      then have "column_shift m c = 0" by (rule column_shift_right)
      then show ?thesis using Cons False x by (simp add: column_shift_Cons)
    qed
  qed
  then show "back_break m (c + column_shift m c) = c" "back_all m (c + column_shift m c) = c"
    by simp_all
qed

lemma back_shifted_column:
  assumes "shift_ok sh"
  shows "(case map_of sh l of None \<Rightarrow> shifted_column sh l c
          | Some m \<Rightarrow> back_break (sort_key fst m) (shifted_column sh l c)) = c"
    and "(case map_of sh l of None \<Rightarrow> shifted_column sh l c
          | Some m \<Rightarrow> back_all (sort_key fst m) (shifted_column sh l c)) = c"
proof -
  have m: "back_break (sort_key fst m) (c + column_shift m c) = c \<and>
      back_all (sort_key fst m) (c + column_shift m c) = c" if "map_of sh l = Some m" for m
    using back_shift [of "sort_key fst m" c] shift_ok_cols [OF assms that]
    by (simp add: cols_ok_def column_shift_sorted)
  then show "(case map_of sh l of None \<Rightarrow> shifted_column sh l c
          | Some m \<Rightarrow> back_break (sort_key fst m) (shifted_column sh l c)) = c"
    and "(case map_of sh l of None \<Rightarrow> shifted_column sh l c
          | Some m \<Rightarrow> back_all (sort_key fst m) (shifted_column sh l c)) = c"
    by (simp_all add: shifted_column_def split: option.split)
qed

text \<open>The position in the new program, as \<open>_shift_witness\<close> computes it.\<close>

definition shifted_loc :: "shift_map \<times> int \<Rightarrow> loc \<Rightarrow> loc" where
  "shifted_loc m l = (fst l + snd m, shifted_column (fst m) (fst l) (snd l))"

definition back_call_loc :: "shift_map \<times> int \<Rightarrow> loc \<Rightarrow> loc" where
  "back_call_loc m l =
     (case shift_back_call (fst m) (snd m) (fst l, snd l, [], False) of (line, col, _) \<Rightarrow> (line, col))"

definition back_error_loc :: "shift_map \<times> int \<Rightarrow> loc \<Rightarrow> loc" where
  "back_error_loc m = shift_back_loc (fst m) (snd m)"

definition valid_shift :: "shift_map \<times> int \<Rightarrow> bool" where
  "valid_shift m \<longleftrightarrow> shift_ok (fst m)"

interpretation call_pos: relocation shifted_loc back_call_loc valid_shift
  by unfold_locales (simp add: shifted_loc_def back_call_loc_def shift_back_call_def Let_def
      valid_shift_def back_shifted_column)

interpretation error_pos: relocation shifted_loc back_error_loc valid_shift
  by unfold_locales (simp add: shifted_loc_def back_error_loc_def shift_back_loc_def Let_def
      valid_shift_def back_shifted_column cong: option.case_cong)

lemma shift_back_call_value:
  "shift_back_call sh a (l, c, v, cy) =
     (fst (back_call_loc (sh, a) (l, c)), snd (back_call_loc (sh, a) (l, c)), v, cy)"
  by (simp add: back_call_loc_def shift_back_call_def Let_def)

section \<open>The closing brackets\<close>

lemma find_brackets_rel:
  assumes refl: "\<And>s. R s s" and trans: "\<And>a b c. R a b \<Longrightarrow> R b c \<Longrightarrow> R a c"
    and recur: "\<And>n s s'. visit_recurring n s = Inr s' \<Longrightarrow> R s s'"
    and visit: "\<And>c s s'. c \<in> S \<Longrightarrow> \<not> foreign (yw_source s) c \<Longrightarrow>
      visit_error c (visit_bracket c s) = Inr s' \<Longrightarrow> R s s'"
  shows "find_brackets n w = Inr w' \<Longrightarrow> set (subtree n) \<subseteq> S \<Longrightarrow> R w w'"
    and "find_brackets_list cs w = Inr w' \<Longrightarrow> (\<Union>c \<in> set cs. set (subtree c)) \<subseteq> S \<Longrightarrow> R w w'"
proof (induction n w and cs w arbitrary: w' and w' rule: find_brackets_find_brackets_list.induct)
  case (1 d cs w)
  then show ?case by (auto simp: bindE_eq_Inr intro: trans recur)
next
  case (2 w)
  then show ?case by (simp add: refl)
next
  case (3 c cs w)
  show ?case
  proof (cases "foreign (yw_source w) c")
    case True
    with 3 show ?thesis by simp
  next
    case False
    with "3.prems" obtain w1 w2 where w1: "visit_error c (visit_bracket c w) = Inr w1"
      and w2: "find_brackets c w1 = Inr w2" and w3: "find_brackets_list cs w2 = Inr w'"
      by (auto simp: bindE_eq_Inr)
    have "c \<in> S" using "3.prems"(2) subtree_self by fastforce
    then have "R w w1" using False w1 by (rule visit)
    moreover have "R w1 w2" using "3.IH"(2) [OF False w2] "3.prems"(2) by auto
    moreover have "R w2 w'" using "3.IH"(3) [OF False w3] "3.prems"(2) by auto
    ultimately show ?thesis by (blast intro: trans)
  qed
qed

lemma visit_recurring_calls:
  "visit_recurring n w = Inr w' \<Longrightarrow> yw_calls w' = yw_calls w \<and> yw_source w' = yw_source w \<and>
    yw_test w' = yw_test w \<and> yw_relsource w' = yw_relsource w"
  by (auto simp: visit_recurring_def bindE_eq_Inr split: if_splits)

lemma visit_error_calls:
  "visit_error c w = Inr w' \<Longrightarrow> yw_calls w' = yw_calls w \<and> yw_source w' = yw_source w \<and>
    yw_test w' = yw_test w \<and> yw_relsource w' = yw_relsource w"
  by (auto simp: visit_error_def bindE_eq_Inr split: if_splits)

definition bracket_found :: "cursor set \<Rightarrow> string \<Rightarrow> loc \<Rightarrow> loc \<Rightarrow> bool" where
  "bracket_found S src l e \<longleftrightarrow> (\<exists>n \<in> S. kind_of n = CALL_EXPR \<and> \<not> foreign src n \<and>
     start_of n = l \<and> e = (fst (end_of n), snd (end_of n) - 1))"

definition brackets_step :: "cursor set \<Rightarrow> yaml_writer \<Rightarrow> yaml_writer \<Rightarrow> bool" where
  "brackets_step S w w' \<longleftrightarrow> yw_source w' = yw_source w \<and> yw_test w' = yw_test w \<and>
     yw_relsource w' = yw_relsource w \<and> dom (yw_calls w') = dom (yw_calls w) \<and>
     (\<forall>l e. yw_calls w' l = Some (Some e) \<longrightarrow>
        yw_calls w l = Some (Some e) \<or> bracket_found S (yw_source w) l e) \<and>
     (\<forall>l e. yw_calls w l = Some (Some e) \<longrightarrow> (\<exists>e'. yw_calls w' l = Some (Some e')))"

lemma brackets_step_trans: "brackets_step S a b \<Longrightarrow> brackets_step S b c \<Longrightarrow> brackets_step S a c"
  by (simp add: brackets_step_def) metis

lemma visit_brackets_step:
  assumes "c \<in> S" and "\<not> foreign (yw_source w) c" and "visit_error c (visit_bracket c w) = Inr w'"
  shows "brackets_step S w w'"
    and "kind_of c = CALL_EXPR \<Longrightarrow> start_of c \<in> dom (yw_calls w) \<Longrightarrow>
      \<exists>e. yw_calls w' (start_of c) = Some (Some e)"
  using visit_error_calls [OF assms(3)] assms(1,2)
  by (auto simp: brackets_step_def visit_bracket_def bracket_found_def split: if_splits)

lemma find_brackets_step:
  assumes "find_brackets root w = Inr w'"
  shows "brackets_step (set (subtree root)) w w'"
proof (rule find_brackets_rel(1) [where S = "set (subtree root)", OF _ _ _ _ assms])
  show "brackets_step (set (subtree root)) s s" for s by (simp add: brackets_step_def)
  show "brackets_step (set (subtree root)) a c"
    if "brackets_step (set (subtree root)) a b" "brackets_step (set (subtree root)) b c" for a b c
    using that by (rule brackets_step_trans)
  show "brackets_step (set (subtree root)) s s'" if "visit_recurring n s = Inr s'" for n s s'
    using visit_recurring_calls [OF that] by (simp add: brackets_step_def)
qed (simp_all add: visit_brackets_step(1))

definition bracket_known :: "yaml_writer \<Rightarrow> cursor \<Rightarrow> bool" where
  "bracket_known w c \<longleftrightarrow> (kind_of c = CALL_EXPR \<and> start_of c \<in> dom (yw_calls w) \<longrightarrow>
     (\<exists>e. yw_calls w (start_of c) = Some (Some e)))"

lemma brackets_step_known: "brackets_step S a b \<Longrightarrow> bracket_known a c \<Longrightarrow> bracket_known b c"
  unfolding brackets_step_def bracket_known_def by metis

lemma find_brackets_list_step:
  assumes "find_brackets_list cs w = Inr w'"
  shows "brackets_step UNIV w w'"
proof (rule find_brackets_rel(2) [where S = UNIV, OF _ _ _ _ assms])
  show "brackets_step UNIV s s" for s by (simp add: brackets_step_def)
  show "brackets_step UNIV a c" if "brackets_step UNIV a b" "brackets_step UNIV b c" for a b c
    using that by (rule brackets_step_trans)
  show "brackets_step UNIV s s'" if "visit_recurring n s = Inr s'" for n s s'
    using visit_recurring_calls [OF that] by (simp add: brackets_step_def)
qed (simp_all add: visit_brackets_step(1))

lemma brackets_step_UNIV: "brackets_step S a b \<Longrightarrow> brackets_step UNIV a b"
  unfolding brackets_step_def bracket_found_def by blast

lemma find_brackets_known:
  shows "find_brackets n w = Inr w' \<Longrightarrow> \<forall>c \<in> set (reached (yw_source w) n). bracket_known w' c"
    and "find_brackets_list cs w = Inr w' \<Longrightarrow>
      \<forall>c \<in> set (reached_list (yw_source w) cs). bracket_known w' c"
proof (induction n w and cs w arbitrary: w' and w' rule: find_brackets_find_brackets_list.induct)
  case (1 d cs w)
  then show ?case
    by (auto simp: bindE_eq_Inr reached_Cursor simp del: reached.simps dest!: visit_recurring_calls)
next
  case (2 w)
  then show ?case by (simp add: reached_list_Nil)
next
  case (3 c cs w)
  show ?case
  proof (cases "foreign (yw_source w) c")
    case True
    with 3 show ?thesis by (simp add: reached_list_Cons)
  next
    case False
    with "3.prems" obtain w1 w2 where w1: "visit_error c (visit_bracket c w) = Inr w1"
      and w2: "find_brackets c w1 = Inr w2" and w3: "find_brackets_list cs w2 = Inr w'"
      by (auto simp: bindE_eq_Inr)
    note s1 = visit_brackets_step [OF UNIV_I False w1]
    note s2 = brackets_step_UNIV [OF find_brackets_step [OF w2]]
    note s3 = find_brackets_list_step [OF w3]
    have src: "yw_source w1 = yw_source w" "yw_source w2 = yw_source w"
      and d: "dom (yw_calls w1) = dom (yw_calls w)"
      using s1(1) s2 by (simp_all add: brackets_step_def)
    have "bracket_known w1 c" using s1(2) d by (simp add: bracket_known_def)
    then have "bracket_known w' c" using s2 s3 brackets_step_known by blast
    then show ?thesis
      using "3.IH"(2) [OF False w2] "3.IH"(3) [OF False w3] False src s3
      by (auto simp: reached_list_Cons intro: brackets_step_known)
  qed
qed

section \<open>Properties\<close>

lemma shift_ok_transform:
  assumes "init_transformer pf ls wit = Inr st" and "tree_ok pf ls root" and "ls \<noteq> []"
    and "transform root c st = Inr (c', st')"
  shows "shift_ok (t_shift st')"
proof -
  from assms(4) obtain c1 st1 where p: "plan_edits root c st = Inr (c1, st1)"
    and c: "insert_calls (t_insert st1) (t_c_lines st1) (t_shift st1) =
      Inr (t_c_lines st', t_shift st')"
    by (auto simp: transform_def bindE_eq_Inr)
  have "inserts_ok ls st1" "t_shift st1 = []"
    using plan_edits_ok [OF p, of ls] init_transformer_ok [OF assms(1)] assms(2,3)
    by (auto simp: same_text_def)
  then have "\<forall>(l, c, v) \<in> set (t_insert st1). 1 \<le> c \<and> v \<noteq> []"
    by (fastforce simp: inserts_ok_def insert_ok_def valid_pos_def)
  with c \<open>t_shift st1 = []\<close> show ?thesis using insert_calls_shift(1) by metis
qed

text \<open>C4: \<open>shift_back\<close> of the witness writer undoes the shift that the transformer recorded:
  for calls and for the error location, the position that \<open>_shift_witness\<close> gives a character
  (its line moved by the added lines) goes back to the position in the source.\<close>

theorem shift_back_inverts_transform:
  assumes "init_transformer pf ls wit = Inr st" and "tree_ok pf ls root" and "ls \<noteq> []"
    and "transform root c st = Inr (c', st')"
  shows "shift_back_call (t_shift st') k (l + k, shifted_column (t_shift st') l col, v, cy) =
      (l, col, v, cy) \<and>
    shift_back_loc (t_shift st') k (l + k, shifted_column (t_shift st') l col) = (l, col)"
proof -
  have v: "valid_shift (t_shift st', k)"
    using shift_ok_transform [OF assms] by (simp add: valid_shift_def)
  have "shifted_loc (t_shift st', k) (l, col) = (l + k, shifted_column (t_shift st') l col)"
    by (simp add: shifted_loc_def)
  with call_pos.bwd_fwd [OF v, of "(l, col)"] error_pos.bwd_fwd [OF v, of "(l, col)"]
  show ?thesis by (simp add: shift_back_call_value back_error_loc_def)
qed

theorem shift_back_inverts_transform_witness:
  "\<exists>c' st'. transform ex_root ex_content ex_start = Inr (c', st') \<and>
    shift_back_loc (t_shift st') 0 (2, shifted_column (t_shift st') 2 11) = (2, 11)"
proof -
  obtain c' st' where p: "transform ex_root ex_content ex_start = Inr (c', st')"
    using ex_transform by (cases "transform ex_root ex_content ex_start") auto
  have "ex_program \<noteq> []" by (simp add: ex_program_def)
  with p shift_back_inverts_transform [OF ex_init ex_tree_ok _ p, of 0 2 11] show ?thesis by auto
qed

text \<open>C5: The location of a call waypoint survives the validator: the transformer replaces the
  closing bracket \<open>l\<close> of a call by the start of the call, and the walk of the witness writer
  over the same tree turns this start into \<open>l\<close> again. This holds for a bracket that is not in column 0,
  when no waypoint was resolved before the two walks and the writer was given the start, and only when no two
  call expressions of the tree with different ends start at the same place: in \<open>f()()\<close> both do, and the
  writer knows one bracket for a start only.\<close>

theorem call_location_round_trip:
  assumes "traverse_AST True root st = Inr st'" and "\<forall>l b. t_calls st l \<noteq> Some (Some b)"
    and "t_calls st' l = Some (Some b)" and "snd l \<noteq> 0"
    and "find_brackets root w = Inr w'" and "\<forall>l e. yw_calls w l \<noteq> Some (Some e)"
    and "b \<in> dom (yw_calls w)" and "yw_source w = t_program_file st"
    and "\<forall>m \<in> set (subtree root). \<forall>n \<in> set (subtree root). kind_of m = CALL_EXPR \<longrightarrow>
      kind_of n = CALL_EXPR \<longrightarrow> start_of m = start_of n \<longrightarrow> end_of m = end_of n"
  shows "yw_calls w' b = Some (Some l)"
proof -
  have "call_found (set (reached (t_program_file st) root)) (t_program_file st) l b"
    using traverse_calls_step [OF assms(1) order.refl] assms(2,3)
    unfolding calls_step_def by blast
  then obtain n where n: "n \<in> set (reached (t_program_file st) root)" "kind_of n = CALL_EXPR"
    "start_of n = b" "fst (end_of n) = fst l" "snd (end_of n) = snd l + 1"
    using assms(4) unfolding call_found_def by blast
  note step = find_brackets_step [OF assms(5)]
  have "bracket_known w' n"
    using find_brackets_known(1) [OF assms(5)] n(1) assms(8) by simp
  moreover have "b \<in> dom (yw_calls w')" using step assms(7) by (simp add: brackets_step_def)
  ultimately obtain e where e: "yw_calls w' b = Some (Some e)"
    using n(2,3) unfolding bracket_known_def by auto
  with step assms(6) have "bracket_found (set (subtree root)) (yw_source w) b e"
    unfolding brackets_step_def by blast
  then obtain m where m: "m \<in> set (subtree root)" "kind_of m = CALL_EXPR" "start_of m = b"
    "e = (fst (end_of m), snd (end_of m) - 1)"
    unfolding bracket_found_def by blast
  have "n \<in> set (subtree root)" using n(1) reached_subtree by blast
  then have "end_of m = end_of n" using assms(9) m n by metis
  then show ?thesis using e m(4) n(4,5) by (simp add: prod_eq_iff)
qed

definition ex_writer :: yaml_writer where
  "ex_writer = (init_writer ''p.c'' ''p.c'' [] False False False None)
     \<lparr>yw_calls := [(2, 11) \<mapsto> None]\<rparr>"

lemma ex_brackets: "isl (find_brackets ex_root ex_writer) = False"
  by code_simp

lemma ex_calls_found: "case traverse_AST True ex_root (ex_start\<lparr>t_calls := [(2, 13) \<mapsto> None]\<rparr>) of
    Inl _ \<Rightarrow> False | Inr st \<Rightarrow> t_calls st (2, 13) = Some (Some (2, 11))"
  by code_simp

theorem call_location_round_trip_witness:
  "\<exists>w'. find_brackets ex_root ex_writer = Inr w' \<and> yw_calls w' (2, 11) = Some (Some (2, 13))"
proof -
  obtain w' where w: "find_brackets ex_root ex_writer = Inr w'"
    using ex_brackets by (cases "find_brackets ex_root ex_writer") auto
  obtain st' where st: "traverse_AST True ex_root (ex_start\<lparr>t_calls := [(2, 13) \<mapsto> None]\<rparr>) = Inr st'"
    "t_calls st' (2, 13) = Some (Some (2, 11))"
    using ex_calls_found
    by (cases "traverse_AST True ex_root (ex_start\<lparr>t_calls := [(2, 13) \<mapsto> None]\<rparr>)") auto
  have "yw_calls w' (2, 11) = Some (Some (2, 13))"
    by (rule call_location_round_trip [OF st(1) _ st(2) _ w])
      (simp_all add: ex_writer_def init_writer_def ex_start_def ex_root_def ex_cursor_def)
  with w show ?thesis by blast
qed

lemma set_content_Inr:
  assumes "set_content c w = Inr w'"
  obtains e es where "yw_witness w' = e # es" and "oe_content e = Some c"
  using assms by (auto simp: set_content_def split: list.splits)

lemma create_content_split:
  assumes "create_content root w = Inr w'"
  obtains w1 wps target e es where "find_brackets root w = Inr w1"
    and "mapE (call_waypoint w1) (yw_test w1) = Inr wps"
    and "length target = (if truthy (yw_errorLoc w1) then 1 else 0)"
    and "yw_witness w' = e # es" and "oe_content e = Some (map (\<lambda>wp. [wp]) wps @ target)"
proof -
  from assms obtain w1 wps where 1: "find_brackets root w = Inr w1"
    and 2: "mapE (call_waypoint w1) (yw_test w1) = Inr wps"
    and 3: "(if truthy (yw_errorLoc w1) then
       bindE (case yw_errorExpr w1 of Some e \<Rightarrow> Inr e | None \<Rightarrow> pair_of (the (yw_errorLoc w1))) (\<lambda>e.
       set_content (map (\<lambda>wp. [wp]) wps @ [[last_waypoint w1 e]]) (w1\<lparr>yw_errorExpr := Some e\<rparr>))
     else set_content (map (\<lambda>wp. [wp]) wps) w1) = Inr w'"
    unfolding create_content_def bindE_eq_Inr by blast
  show ?thesis
  proof (cases "truthy (yw_errorLoc w1)")
    case True
    with 3 obtain e where "set_content (map (\<lambda>wp. [wp]) wps @ [[last_waypoint w1 e]])
        (w1\<lparr>yw_errorExpr := Some e\<rparr>) = Inr w'"
      by (auto simp only: if_True bindE_eq_Inr)
    then show ?thesis by (rule set_content_Inr) (rule that [of w1 wps "[[last_waypoint w1 e]]"], simp_all add: 1 2 True)
  next
    case False
    with 3 have "set_content (map (\<lambda>wp. [wp]) wps @ []) w1 = Inr w'" by simp
    then show ?thesis by (rule set_content_Inr) (rule that [of w1 wps "[]"], simp_all add: 1 2 False)
  qed
qed

text \<open>C6: The content of a violation witness: one segment per call of the test, in order, at a
  closing bracket of a call expression of the source that starts where the test says, with the
  value of the test as constraint, and after them at most one segment, for the target.\<close>

theorem create_content_calls:
  assumes "create_content root w = Inr w'" and "\<forall>l e. yw_calls w l \<noteq> Some (Some e)"
  shows "\<exists>e es content. yw_witness w' = e # es \<and> oe_content e = Some content \<and>
    length content \<in> {length (yw_test w), length (yw_test w) + 1} \<and>
    (\<forall>i < length (yw_test w). \<exists>l c value cyc. yw_test w ! i = (l, c, value, cyc) \<and>
      (\<exists>n \<in> set (subtree root). kind_of n = CALL_EXPR \<and> start_of n = (l, c) \<and>
        content ! i = [return_waypoint (yw_relsource w) value cyc
          (fst (end_of n), snd (end_of n) - 1)]))"
proof -
  from assms(1) obtain w1 wps target e es where w1: "find_brackets root w = Inr w1"
    and wps: "mapE (call_waypoint w1) (yw_test w1) = Inr wps"
    and tl: "length target = (if truthy (yw_errorLoc w1) then 1 else 0)"
    and w': "yw_witness w' = e # es" "oe_content e = Some (map (\<lambda>wp. [wp]) wps @ target)"
    by (rule create_content_split)
  note step = find_brackets_step [OF w1]
  have same: "yw_test w1 = yw_test w" "yw_relsource w1 = yw_relsource w"
    using step by (simp_all add: brackets_step_def)
  have len: "length wps = length (yw_test w)" using mapE_length [OF wps] same by simp
  have one: "\<exists>l c value cyc. yw_test w ! i = (l, c, value, cyc) \<and>
      (\<exists>n \<in> set (subtree root). kind_of n = CALL_EXPR \<and> start_of n = (l, c) \<and>
        (map (\<lambda>wp. [wp]) wps @ target) ! i = [return_waypoint (yw_relsource w) value cyc
          (fst (end_of n), snd (end_of n) - 1)])"
    if i: "i < length (yw_test w)" for i
  proof -
    obtain l c v cyc where t: "yw_test w ! i = (l, c, v, cyc)" by (cases "yw_test w ! i")
    with mapE_nth [OF wps, of i] i same obtain x where x: "yw_calls w1 (l, c) = Some (Some x)"
      "wps ! i = return_waypoint (yw_relsource w) v cyc x"
      by (auto simp: call_waypoint_def bindE_eq_Inr)
    then have "bracket_found (set (subtree root)) (yw_source w) (l, c) x"
      using step assms(2) unfolding brackets_step_def by blast
    then obtain n where "n \<in> set (subtree root)" "kind_of n = CALL_EXPR" "start_of n = (l, c)"
      "x = (fst (end_of n), snd (end_of n) - 1)"
      unfolding bracket_found_def by blast
    with t x(2) i len show ?thesis by (auto simp: nth_append)
  qed
  show ?thesis
    using w' one len tl by (intro exI conjI) auto
qed

text \<open>A parsed waypoints file with a call and an error location.\<close>

definition ex_waypoints :: "string list" where
  "ex_waypoints = [''x:2:11:7'' @ [CHR 0x0A], ''@:f:2:11'' @ [CHR 0x0A]]"

definition ex_prepared :: yaml_writer where
  "ex_prepared =
     (case parse_waypoints ex_waypoints (init_writer ''p.c'' ''p.c'' [] False False False None) of
        Inl _ \<Rightarrow> ex_writer | Inr w \<Rightarrow> add_metadata [] [] [] [] w)"

lemma ex_created: "isl (create_content ex_root ex_prepared) = False"
  by code_simp

lemma ex_prepared_calls: "yw_test ex_prepared = [(2, 11, ''7'', False)]"
  "yw_calls ex_prepared = [(2, 11) \<mapsto> None]"
  by (simp_all add: ex_prepared_def ex_waypoints_def parse_waypoints_def parse_call_def py_nth_def
      py_pos_def strip_char_def init_writer_def add_metadata_def py_int_def strip_def lstrip_def
      rstrip_def is_space_def valid_digits_def is_digit_def digits_value_def digit_val_def
      py_ints_def Let_def)

theorem create_content_calls_witness:
  "\<exists>w' e es content. create_content ex_root ex_prepared = Inr w' \<and> yw_witness w' = e # es \<and>
    oe_content e = Some content \<and> length content \<in> {1, 2}"
proof -
  obtain w' where w: "create_content ex_root ex_prepared = Inr w'"
    using ex_created by (cases "create_content ex_root ex_prepared") auto
  have "\<forall>l e. yw_calls ex_prepared l \<noteq> Some (Some e)"
    by (simp add: ex_prepared_calls)
  from create_content_calls [OF w this] show ?thesis
    using w by (auto simp: ex_prepared_calls)
qed

end
