(* ===== verification/Property.thy ===== *)
theory Property
  imports Prelude "HOL-Library.Multiset"
begin

text \<open>
  \<open>property.py\<close>: the property classes, the tables of supported properties, and
  \<open>get_property\<close>, which turns the argument of \<open>--prp\<close> (a file or a list of keywords) into
  one property object. The file system is an argument (absolute path of a path, and the lines
  of a file if it is one). A property object is the record \<open>py_prop\<close> with its class as a
  datatype; the methods of the classes are functions on it. The lemmas show what a file with
  a parametrised property gives, that no property reaches the branches for unhandled ones,
  and that the order in which Python iterates the set of properties does not matter.
\<close>

section \<open>The classes\<close>

datatype prop_class =
    NullDeref | MemSafety | MemCleanup | NoOverflow | DefBehavior
  | UnreachCall | Assertions | TerminationProp
  | CoverBranches | CoverConditions | CoverStmts | ErrorCall

text \<open>\<open>calls\<close> is a list of names; where the code puts a string there (the path that
  \<open>PropertyErrorCall(prpfile)\<close> takes for its first parameter) it is the list of its
  one-character strings, as iteration and \<open>join\<close> see it.\<close>

record py_prop =
  p_class :: prop_class
  p_prpfile :: "string option"
  p_ltl :: "string list"
  p_calls :: "string list"

definition chars_of :: "string \<Rightarrow> string list" where
  "chars_of s = map (\<lambda>c. [c]) s"

definition PropertyErrorCall :: "string list option \<Rightarrow> string option \<Rightarrow> py_prop" where
  "PropertyErrorCall calls prpfile =
     \<lparr>p_class = ErrorCall, p_prpfile = prpfile, p_ltl = [],
      p_calls = (case calls of Some (c # cs) \<Rightarrow> c # cs | _ \<Rightarrow> [''reach_error''])\<rparr>"

text \<open>The call \<open>cls(prpfile)\<close> of a class taken from a table.\<close>

definition make_prop :: "prop_class \<Rightarrow> string option \<Rightarrow> py_prop" where
  "make_prop cls prpfile =
     (if cls = ErrorCall then PropertyErrorCall (map_option chars_of prpfile) None
      else \<lparr>p_class = cls, p_prpfile = prpfile, p_ltl = [],
            p_calls = (if cls = UnreachCall then [''reach_error'']
                       else if cls = Assertions then [''__assert_fail'', ''__VERIFIER_error'']
                       else [])\<rparr>)"

definition memsafety :: "py_prop \<Rightarrow> bool" where "memsafety p = (p_class p = MemSafety)"
definition nullderef :: "py_prop \<Rightarrow> bool" where "nullderef p = (p_class p = NullDeref)"
definition memcleanup :: "py_prop \<Rightarrow> bool" where "memcleanup p = (p_class p = MemCleanup)"
definition signedoverflow :: "py_prop \<Rightarrow> bool" where "signedoverflow p = (p_class p = NoOverflow)"
definition undefinedness :: "py_prop \<Rightarrow> bool" where "undefinedness p = (p_class p = DefBehavior)"
definition assertions :: "py_prop \<Rightarrow> bool" where "assertions p = (p_class p = Assertions)"
definition unreachcall :: "py_prop \<Rightarrow> bool" where
  "unreachcall p = (p_class p = UnreachCall \<or> p_class p = Assertions)"
definition termination_prp :: "py_prop \<Rightarrow> bool" where "termination_prp p = (p_class p = TerminationProp)"
definition errorcall :: "py_prop \<Rightarrow> bool" where "errorcall p = (p_class p = ErrorCall)"
definition coverage :: "py_prop \<Rightarrow> bool" where
  "coverage p = (p_class p \<in> {CoverBranches, CoverConditions, CoverStmts, ErrorCall})"
definition coverStmts :: "py_prop \<Rightarrow> bool" where "coverStmts p = (p_class p = CoverStmts)"
definition coverBranches :: "py_prop \<Rightarrow> bool" where "coverBranches p = (p_class p = CoverBranches)"
definition coverConditions :: "py_prop \<Rightarrow> bool" where
  "coverConditions p = (p_class p = CoverConditions)"

lemmas prop_methods = memsafety_def nullderef_def memcleanup_def signedoverflow_def
  undefinedness_def assertions_def unreachcall_def termination_prp_def errorcall_def coverage_def
  coverStmts_def coverBranches_def coverConditions_def

definition prop_help :: "py_prop \<Rightarrow> string" where
  "prop_help p =
     (case p_class p of
        NullDeref \<Rightarrow> ''null pointer dereferences''
      | MemSafety \<Rightarrow> ''invalid dereferences, invalid free, memory leaks, etc.''
      | MemCleanup \<Rightarrow> ''unfreed memory''
      | NoOverflow \<Rightarrow> ''signed integer overflow''
      | DefBehavior \<Rightarrow> ''undefined behavior''
      | UnreachCall \<Rightarrow> ''reachability of calls to '' @ join '','' (p_calls p)
      | Assertions \<Rightarrow> ''reachability of calls to '' @ join '','' (p_calls p)
      | TerminationProp \<Rightarrow> ''non-terminating loops and recursion''
      | CoverBranches \<Rightarrow> ''generating tests to maximize the coverage of branches''
      | CoverConditions \<Rightarrow> ''generating tests to maximize the coverage of conditions''
      | CoverStmts \<Rightarrow> ''generating tests to maximize the coverage of statements''
      | ErrorCall \<Rightarrow> ''generating tests that cover calls of '' @ join '' '' (p_calls p))"

section \<open>The tables\<close>

definition supported_ltl_properties :: "(string \<times> prop_class) list" where
  "supported_ltl_properties =
     [(''CHECK( init(main()), LTL(G ! call(__VERIFIER_error())) )'', UnreachCall),
      (''CHECK( init(main()), LTL(G valid-free) )'', MemSafety),
      (''CHECK( init(main()), LTL(G valid-deref) )'', MemSafety),
      (''CHECK( init(main()), LTL(G valid-memtrack) )'', MemSafety),
      (''CHECK( init(main()), LTL(G valid-memcleanup) )'', MemCleanup),
      (''CHECK( init(main()), LTL(G ! overflow) )'', NoOverflow),
      (''CHECK( init(main()), LTL(G def-behavior) )'', DefBehavior),
      (''CHECK( init(main()), LTL(F end) )'', TerminationProp),
      (''COVER( init(main()), FQL(COVER EDGES(@DECISIONEDGE)) )'', CoverBranches),
      (''COVER( init(main()), FQL(COVER EDGES(@CONDITIONEDGE)) )'', CoverConditions),
      (''COVER( init(main()), FQL(COVER EDGES(@BASICBLOCKENTRY)) )'', CoverStmts),
      (''COVER( init(main()), FQL(COVER EDGES(@CALL(__VERIFIER_error))) )'', ErrorCall)]"

definition supported_properties :: "(string \<times> prop_class) list" where
  "supported_properties =
     [(''assert'', Assertions), (''assertions'', Assertions), (''valid-deref'', MemSafety),
      (''valid-free'', MemSafety), (''valid-memtrack'', MemSafety), (''null-deref'', NullDeref),
      (''undefined-behavior'', DefBehavior), (''undef-behavior'', DefBehavior),
      (''undefined'', DefBehavior), (''signed-overflow'', NoOverflow),
      (''no-overflow'', NoOverflow), (''memsafety'', MemSafety), (''memcleanup'', MemCleanup),
      (''termination'', TerminationProp), (''coverage'', CoverStmts),
      (''cover-branches'', CoverBranches), (''cover-conditions'', CoverConditions),
      (''cover-statements'', CoverStmts), (''cover-error'', ErrorCall)]"

section \<open>Reading a property\<close>

text \<open>The file system: the absolute path of a path (with the home directory expanded), and
  the lines of the file at an absolute path, if there is one.\<close>

record file_system =
  abs_path :: "string \<Rightarrow> string"
  file_lines :: "string \<Rightarrow> string list option"

text \<open>\<open>os.path.join\<close>\<close>

definition path_join :: "string \<Rightarrow> string \<Rightarrow> string" where
  "path_join a b =
     (if startswith b ''/'' then b
      else if a = [] \<or> endswith a ''/'' then a @ b else a @ ''/'' @ b)"

definition parse_prp :: "file_system \<Rightarrow> string \<Rightarrow> string list \<times> string option" where
  "parse_prp fs prp =
     (let epath = abs_path fs prp
      in case file_lines fs epath of
           Some ls \<Rightarrow> (filter (\<lambda>l. l \<noteq> []) (map strip ls), Some epath)
         | None \<Rightarrow> (words prp, None))"

definition filter_properties :: "string list \<Rightarrow> string list \<times> string list \<times> string list" where
  "filter_properties prps =
     (filter (\<lambda>p. map_of supported_properties p \<noteq> None) prps,
      filter (\<lambda>p. map_of supported_properties p = None \<and>
                  map_of supported_ltl_properties p \<noteq> None) prps,
      filter (\<lambda>p. map_of supported_properties p = None \<and>
                  map_of supported_ltl_properties p = None) prps)"

definition unsupported_msg :: "string \<Rightarrow> string" where
  "unsupported_msg prps =
     ''Unknown or unsupported properties: '' @ prps @ [CHR 0x0A] @
     ''Supported properties are:'' @ [CHR 0x0A] @
     concat (map (\<lambda>k. ''    '' @ fst k @ [CHR 0x0A]) supported_ltl_properties) @
     ''or use shortcuts:'' @ [CHR 0x0A] @
     concat (map (\<lambda>k. ''    '' @ fst k @ [CHR 0x0A]) supported_properties) @
     [CHR 0x0A] @ ''By default, we are looking just for assertion violations.'' @ [CHR 0x0A]"

definition create_keyword_props :: "string list \<Rightarrow> string option \<Rightarrow> py_prop list" where
  "create_keyword_props prps prpfile =
     map (\<lambda>p. make_prop (the (map_of supported_properties p)) prpfile) prps"

definition create_ltl_props :: "string list \<Rightarrow> string option \<Rightarrow> py_prop list" where
  "create_ltl_props prps prpfile =
     map (\<lambda>p. make_prop (the (map_of supported_ltl_properties p)) prpfile) prps"

definition get_simple_property :: "string list \<Rightarrow> string option \<Rightarrow> py_prop list \<times> string list" where
  "get_simple_property prps prpfile =
     (case filter_properties prps of (keyword_prps, ltl_prps, other_prps) \<Rightarrow>
       (create_keyword_props keyword_prps prpfile @ create_ltl_props ltl_prps prpfile,
        other_prps))"

text \<open>One round of the loop of \<open>_get_parametrized_property\<close>; \<open>None\<close> for an unresolved item.\<close>

definition parametrized :: "string option \<Rightarrow> string \<Rightarrow> py_prop option" where
  "parametrized prpfile p =
     (if startswith p ''CHECK( init(main()), LTL(G ! call'' then
        (let suff = drop 34 p; f = slice_to suff (py_find suff ''()'')
         in Some ((make_prop UnreachCall prpfile)\<lparr>p_calls := [f]\<rparr>))
      else if startswith p ''COVER( init(main()), FQL(COVER EDGES(@CALL('' then
        (let suff = drop 43 p; f = slice_to suff (py_find suff '')'')
         in Some ((make_prop ErrorCall prpfile)\<lparr>p_calls := [f]\<rparr>))
      else None)"

definition get_parametrized_property ::
  "string list \<Rightarrow> string option \<Rightarrow> py_prop list \<times> string list" where
  "get_parametrized_property prps prpfile =
     (List.map_filter (parametrized prpfile) prps,
      filter (\<lambda>p. parametrized prpfile p = None) prps)"

definition assign_default_prpfile ::
  "file_system \<Rightarrow> string \<Rightarrow> py_prop \<Rightarrow> exn + py_prop" where
  "assign_default_prpfile fs symbiotic_dir p =
     (let prpfile = abs_path fs (path_join symbiotic_dir ''properties'');
          file = (\<lambda>name. Inr (p\<lparr>p_prpfile := Some (path_join prpfile name)\<rparr>))
      in if unreachcall p \<or> assertions p then file ''unreach-call.prp''
         else if memsafety p then file ''valid-memsafety.prp''
         else if memcleanup p then file ''valid-memcleanup.prp''
         else if nullderef p then file ''no-null-deref.prp''
         else if termination_prp p then file ''termination.prp''
         else if signedoverflow p then file ''no-overflow.prp''
         else if undefinedness p then file ''def-behavior.prp''
         else if coverage p then
           (if coverBranches p then file ''coverage-branches.prp''
            else if coverConditions p then file ''coverage-conditions.prp''
            else if coverStmts p then file ''coverage-statements.prp''
            else if errorcall p then file ''coverage-error-call.prp''
            else Inl (SymbioticException ''unhandled covereage property''))
         else Inl (SymbioticException ''unhandled property''))"

text \<open>The loop of \<open>_merge_memsafety_prop\<close>; \<open>seen\<close> says that \<open>memsafety\<close> is set.\<close>

fun merge_memsafety :: "bool \<Rightarrow> py_prop list \<Rightarrow> py_prop list" where
  "merge_memsafety seen [] = []"
| "merge_memsafety seen (p # ps) =
     (if memsafety p then (if seen then merge_memsafety True ps else p # merge_memsafety True ps)
      else p # merge_memsafety seen ps)"

text \<open>The loop over the properties in \<open>get_property\<close>.\<close>

definition complete_prop :: "file_system \<Rightarrow> string \<Rightarrow> py_prop \<Rightarrow> exn + py_prop" where
  "complete_prop fs symbiotic_dir p =
     bindE (if p_prpfile p = None then assign_default_prpfile fs symbiotic_dir p else Inr p) (\<lambda>p1.
     Inr (if p_ltl p1 = [] then p1\<lparr>p_ltl := fst (parse_prp fs (the (p_prpfile p1)))\<rparr> else p1))"

text \<open>\<open>get_property\<close>; \<open>order\<close> is the order in which \<open>set(properties)\<close> is iterated.\<close>

definition get_property ::
  "(py_prop list \<Rightarrow> py_prop list) \<Rightarrow> file_system \<Rightarrow> string \<Rightarrow> string option \<Rightarrow> exn + py_prop" where
  "get_property order fs symbiotic_dir prp =
     (case prp of
        None \<Rightarrow> assign_default_prpfile fs symbiotic_dir (make_prop Assertions None)
      | Some prp \<Rightarrow>
          (case parse_prp fs prp of (prps, prpfile) \<Rightarrow>
           case get_simple_property prps prpfile of (properties, unresolved) \<Rightarrow>
           bindE (if unresolved \<noteq> [] then
                    (case get_parametrized_property unresolved prpfile of (props, unresolved') \<Rightarrow>
                       if unresolved' \<noteq> []
                       then Inl (SymbioticException (unsupported_msg (join '';'' unresolved')))
                       else Inr (properties @ props))
                  else Inr properties) (\<lambda>properties.
           bindE (mapE (complete_prop fs symbiotic_dir) properties) (\<lambda>properties.
           let merged = merge_memsafety False (order properties)
           in if length merged = 1 then Inr (hd merged) else Inl AssertionError))))"

section \<open>Properties\<close>

lemma make_prop_class [simp]: "p_class (make_prop cls f) = cls"
  by (simp add: make_prop_def PropertyErrorCall_def)

lemma make_prop_ltl [simp]: "p_ltl (make_prop cls f) = []"
  by (simp add: make_prop_def PropertyErrorCall_def)

text \<open>No class reaches a branch for an unhandled property.\<close>

lemma assign_default_total:
  "\<exists>name. assign_default_prpfile fs d p =
     Inr (p\<lparr>p_prpfile := Some (path_join (abs_path fs (path_join d ''properties'')) name)\<rparr>)"
  by (cases "p_class p") (auto simp: assign_default_prpfile_def prop_methods Let_def)

lemma complete_prop_total:
  "\<exists>p'. complete_prop fs d p = Inr p' \<and> p_class p' = p_class p \<and> p_calls p' = p_calls p \<and>
     p_prpfile p' \<noteq> None"
  using assign_default_total [of fs d p] by (auto simp: complete_prop_def)

lemma complete_prop_Inr:
  assumes "complete_prop fs d p = Inr q"
  shows "p_class q = p_class p" and "p_calls q = p_calls p" and "p_prpfile q \<noteq> None"
  using complete_prop_total [of fs d p] assms by auto

lemma mapE_total: "(\<And>x. x \<in> set xs \<Longrightarrow> \<exists>y. f x = Inr y) \<Longrightarrow> \<exists>ys. mapE f xs = Inr ys"
  by (induction xs) fastforce+

text \<open>Merging looks at the order of the list only among the memory safety properties.\<close>

lemma length_merge:
  "length (merge_memsafety seen ps) = length (filter (\<lambda>p. \<not> memsafety p) ps) +
     (if \<not> seen \<and> (\<exists>p \<in> set ps. memsafety p) then 1 else 0)"
  by (induction seen ps rule: merge_memsafety.induct) auto

lemma set_merge: "set (merge_memsafety seen ps) \<subseteq> set ps"
proof (induction seen ps rule: merge_memsafety.induct)
  case (2 seen p ps)
  then show ?case by (cases "memsafety p"; cases seen) auto
qed simp

lemma merge_members:
  assumes "merge_memsafety False ps = [q]"
  shows "q \<in> set ps" and "\<And>p. p \<in> set ps \<Longrightarrow> p = q \<or> memsafety p \<and> memsafety q"
proof -
  show "q \<in> set ps" using set_merge [of False ps] assms by simp
  have non: "p \<in> set (merge_memsafety seen ps)" if "p \<in> set ps" "\<not> memsafety p" for p seen ps
    using that by (induction seen ps rule: merge_memsafety.induct) auto
  have ms: "\<exists>p \<in> set (merge_memsafety False ps). memsafety p" if "\<exists>p \<in> set ps. memsafety p" for ps
    using that
  proof (induction ps)
    case (Cons p ps)
    then show ?case by (cases "memsafety p") auto
  qed simp
  show "\<And>p. p \<in> set ps \<Longrightarrow> p = q \<or> memsafety p \<and> memsafety q"
    using non [of _ ps False] ms [of ps] assms by auto
qed

text \<open>All memory safety properties that are built from one argument are equal.\<close>

lemma parametrized_class:
  "parametrized f p = Some q \<Longrightarrow> p_class q = UnreachCall \<or> p_class q = ErrorCall"
  by (auto simp: parametrized_def Let_def split: if_splits)

definition uniform :: "string option \<Rightarrow> py_prop list \<Rightarrow> bool" where
  "uniform f ps \<longleftrightarrow> (\<forall>p \<in> set ps. memsafety p \<longrightarrow> p = make_prop MemSafety f)"

lemma uniform_simple: "uniform f (fst (get_simple_property prps f))"
  by (auto simp: uniform_def get_simple_property_def filter_properties_def memsafety_def
      create_keyword_props_def create_ltl_props_def)

lemma uniform_parametrized: "uniform f (fst (get_parametrized_property prps f))"
  using parametrized_class [of f]
  by (fastforce simp: uniform_def get_parametrized_property_def List.map_filter_def memsafety_def)

lemma uniform_append: "uniform f ps \<Longrightarrow> uniform f qs \<Longrightarrow> uniform f (ps @ qs)"
  by (auto simp: uniform_def)

lemma mapE_uniform:
  assumes "mapE (complete_prop fs d) ps = Inr qs" and "uniform f ps"
    and "p \<in> set qs" and "q \<in> set qs" and "memsafety p" and "memsafety q"
  shows "p = q"
proof -
  have src: "complete_prop fs d (make_prop MemSafety f) = Inr x" if x: "x \<in> set qs" "memsafety x" for x
  proof -
    obtain i where i: "i < length qs" "qs ! i = x" using x(1) in_set_conv_nth by metis
    then have c: "complete_prop fs d (ps ! i) = Inr x" and l: "i < length ps"
      using mapE_nth [OF assms(1), of i] mapE_length [OF assms(1)] by auto
    then have "memsafety (ps ! i)"
      using x(2) complete_prop_Inr(1) [OF c] by (simp add: memsafety_def)
    then show ?thesis using c nth_mem [OF l] assms(2) by (metis uniform_def)
  qed
  show ?thesis using src [OF assms(3,5)] src [OF assms(4,6)] by simp
qed

lemma merge_order_length:
  assumes "mset xs = mset ys"
  shows "length (merge_memsafety False xs) = length (merge_memsafety False ys)"
proof -
  have "mset (filter (\<lambda>p. \<not> memsafety p) xs) = mset (filter (\<lambda>p. \<not> memsafety p) ys)"
    using assms by (simp add: mset_filter)
  then have "length (filter (\<lambda>p. \<not> memsafety p) xs) = length (filter (\<lambda>p. \<not> memsafety p) ys)"
    by (rule mset_eq_length)
  moreover have "set xs = set ys" using assms by (rule mset_eq_setD)
  ultimately show ?thesis by (simp add: length_merge)
qed

lemma merge_order:
  assumes "mapE (complete_prop fs d) ps = Inr qs" and "uniform f ps"
    and "mset xs = mset qs" and "mset ys = mset qs"
    and "length (merge_memsafety False xs) = 1"
  shows "merge_memsafety False ys = merge_memsafety False xs"
proof -
  have s: "set xs = set qs" "set ys = set qs"
    using assms(3,4) mset_eq_setD by blast+
  have "length (merge_memsafety False ys) = 1"
    using assms(5) merge_order_length [of xs ys] assms(3,4) by simp
  then obtain a b where a: "merge_memsafety False xs = [a]"
    and b: "merge_memsafety False ys = [b]"
    using assms(5) by (auto simp: length_Suc_conv)
  have "a \<in> set qs" "b \<in> set qs" "a = b \<or> memsafety a \<and> memsafety b"
    using merge_members [OF a] merge_members [OF b] s by auto
  then have "a = b" using mapE_uniform [OF assms(1,2)] by blast
  with a b show ?thesis by simp
qed

text \<open>C7: The result of \<open>get_property\<close> does not depend on the order in which Python iterates
  \<open>set(properties)\<close>, although only the first memory safety property is kept.\<close>

theorem get_property_order:
  assumes "\<And>ps. mset (ord1 ps) = mset ps" and "\<And>ps. mset (ord2 ps) = mset ps"
  shows "get_property ord1 fs d prp = get_property ord2 fs d prp"
proof (cases prp)
  case None
  then show ?thesis by (simp add: get_property_def)
next
  case (Some s)
  obtain prps f where parse: "parse_prp fs s = (prps, f)" by (cases "parse_prp fs s")
  obtain ps un where simple: "get_simple_property prps f = (ps, un)"
    by (cases "get_simple_property prps f")
  obtain qs un' where par: "get_parametrized_property un f = (qs, un')"
    by (cases "get_parametrized_property un f")
  have u: "uniform f ps" "uniform f (ps @ qs)"
    using uniform_simple [of f prps] uniform_parametrized [of f un] simple par uniform_append
    by fastforce+
  have same: "bindE (mapE (complete_prop fs d) rs) (\<lambda>properties.
        let merged = merge_memsafety False (ord1 properties)
        in if length merged = 1 then Inr (hd merged) else Inl AssertionError) =
      bindE (mapE (complete_prop fs d) rs) (\<lambda>properties.
        let merged = merge_memsafety False (ord2 properties)
        in if length merged = 1 then Inr (hd merged) else Inl AssertionError)"
    if "uniform f rs" for rs
  proof (cases "mapE (complete_prop fs d) rs")
    case (Inr xs)
    then show ?thesis
      using merge_order [OF Inr that, of "ord1 xs" "ord2 xs"]
        merge_order_length [of "ord1 xs" "ord2 xs"] assms by (simp add: Let_def)
  qed simp
  show ?thesis
    using same [OF u(1)] same [OF u(2)]
    by (simp add: get_property_def Some parse simple par)
qed

theorem get_property_order_witness:
  "get_property rev \<lparr>abs_path = id, file_lines = Map.empty\<rparr> [] (Some ''valid-free valid-deref'') =
   get_property id \<lparr>abs_path = id, file_lines = Map.empty\<rparr> [] (Some ''valid-free valid-deref'')"
  by (rule get_property_order) simp_all

lemma cut_at_parens:
  assumes "CHR ''('' \<notin> set f"
  shows "slice_to (f @ ''()'' @ rest) (py_find (f @ ''()'' @ rest) ''()'') = f"
  using find_pos_fresh [of "''()''" f rest] assms
  by (simp add: py_find_def slice_to_take)

lemma cut_at_paren:
  assumes "CHR '')'' \<notin> set f"
  shows "slice_to (f @ '')'' @ rest) (py_find (f @ '')'' @ rest) '')'') = f"
  using find_pos_fresh [of "'')''" f rest] assms
  by (simp add: py_find_def slice_to_take)

definition unreach_line :: "string \<Rightarrow> string" where
  "unreach_line f = ''CHECK( init(main()), LTL(G ! call('' @ f @ ''())) )''"

definition cover_line :: "string \<Rightarrow> string" where
  "cover_line f = ''COVER( init(main()), FQL(COVER EDGES(@CALL('' @ f @ ''))) )''"

lemma lines_not_keywords:
  "map_of supported_properties (unreach_line f) = None"
  "map_of supported_properties (cover_line f) = None"
  by (simp_all add: supported_properties_def unreach_line_def cover_line_def)

lemma unreach_line_not_ltl:
  assumes "f \<noteq> ''__VERIFIER_error''"
  shows "map_of supported_ltl_properties (unreach_line f) = None"
proof -
  have "f @ ''())) )'' \<noteq> ''__VERIFIER_error'' @ ''())) )''" using assms by (subst append_same_eq)
  then show ?thesis by (simp add: supported_ltl_properties_def unreach_line_def)
qed

lemma cover_line_not_ltl:
  assumes "f \<noteq> ''__VERIFIER_error''"
  shows "map_of supported_ltl_properties (cover_line f) = None"
proof -
  have "f @ ''))) )'' \<noteq> ''__VERIFIER_error'' @ ''))) )''" using assms by (subst append_same_eq)
  then show ?thesis by (simp add: supported_ltl_properties_def cover_line_def)
qed

lemma parametrized_unreach:
  assumes "CHR ''('' \<notin> set f"
  shows "parametrized prpfile (unreach_line f) =
    Some ((make_prop UnreachCall prpfile)\<lparr>p_calls := [f]\<rparr>)"
  using cut_at_parens [OF assms, of "'')) )''"]
  by (simp add: parametrized_def unreach_line_def Let_def)

lemma parametrized_cover:
  assumes "CHR '')'' \<notin> set f"
  shows "parametrized prpfile (cover_line f) =
    Some ((make_prop ErrorCall prpfile)\<lparr>p_calls := [f]\<rparr>)"
  using cut_at_paren [OF assms, of "'')) )''"]
  by (simp add: parametrized_def cover_line_def Let_def)

lemma order_single: "(\<And>ps. mset (ord ps) = mset ps) \<Longrightarrow> ord [p] = [p]"
  by (metis mset_single_iff mset.simps(1,2))

lemma error_lines_ltl:
  "map_of supported_ltl_properties (unreach_line ''__VERIFIER_error'') = Some UnreachCall"
  "map_of supported_ltl_properties (cover_line ''__VERIFIER_error'') = Some ErrorCall"
  by (simp_all add: supported_ltl_properties_def unreach_line_def cover_line_def)

text \<open>C8: A property file whose only line is the LTL or FQL formula for a function \<open>f\<close>, whose name has no
  parentheses, gives the property about exactly the calls of \<open>f\<close>, with the file itself as property file
  for the LTL formula, and the file of the error-call coverage for the FQL formula. The exception is
  \<open>__VERIFIER_error\<close>, whose formulas are in the table: the LTL formula gives the property about
  \<open>reach_error\<close>, and the FQL formula one whose calls are the characters of the path of the file.\<close>

theorem get_property_for_function:
  assumes "file_lines fs (abs_path fs path) = Some [l]" and "\<And>ps. mset (order ps) = mset ps"
    and "set f \<inter> {CHR ''('', CHR '')''} = {}"
    and "dflt = path_join (abs_path fs (path_join d ''properties'')) ''coverage-error-call.prp''"
  shows "(strip l = unreach_line f \<longrightarrow>
      get_property order fs d (Some path) = Inr \<lparr>p_class = UnreachCall,
        p_prpfile = Some (abs_path fs path), p_ltl = fst (parse_prp fs (abs_path fs path)),
        p_calls = (if f = ''__VERIFIER_error'' then [''reach_error''] else [f])\<rparr>) \<and>
    (strip l = cover_line f \<longrightarrow>
      get_property order fs d (Some path) = Inr \<lparr>p_class = ErrorCall,
        p_prpfile = Some dflt, p_ltl = fst (parse_prp fs dflt),
        p_calls = (if f \<noteq> ''__VERIFIER_error'' then [f]
          else if abs_path fs path = [] then [''reach_error''] else chars_of (abs_path fs path))\<rparr>)"
proof -
  have ne: "unreach_line f \<noteq> []" "cover_line f \<noteq> []" for f
    by (simp_all add: unreach_line_def cover_line_def)
  have parse: "parse_prp fs path = (filter (\<lambda>l. l \<noteq> []) [strip l], Some (abs_path fs path))"
    by (simp add: parse_prp_def assms(1) Let_def)
  note simps = get_property_def parse Let_def get_simple_property_def
    filter_properties_def create_keyword_props_def create_ltl_props_def
    get_parametrized_property_def List.map_filter_def lines_not_keywords
    order_single [of order, OF assms(2)] memsafety_def complete_prop_def
  show ?thesis
  proof (cases "f = ''__VERIFIER_error''")
    case True
    have "strip l = unreach_line f \<longrightarrow> get_property order fs d (Some path) = Inr \<lparr>p_class = UnreachCall,
        p_prpfile = Some (abs_path fs path), p_ltl = fst (parse_prp fs (abs_path fs path)), p_calls = [''reach_error'']\<rparr>"
      unfolding True by (simp add: simps ne error_lines_ltl) (simp add: make_prop_def)
    moreover have "strip l = cover_line f \<longrightarrow> get_property order fs d (Some path) = Inr \<lparr>p_class = ErrorCall,
        p_prpfile = Some dflt, p_ltl = fst (parse_prp fs dflt),
        p_calls = (if abs_path fs path = [] then [''reach_error''] else chars_of (abs_path fs path))\<rparr>"
      unfolding True
      by (simp add: simps ne error_lines_ltl make_prop_def PropertyErrorCall_def assign_default_prpfile_def
          prop_methods assms(4))
        (simp add: chars_of_def split: list.split)
    ultimately show ?thesis using True by simp
  next
    case False
    have "strip l = unreach_line f \<longrightarrow>
        get_property order fs d (Some path) = Inr \<lparr>p_class = UnreachCall,
          p_prpfile = Some (abs_path fs path),
          p_ltl = fst (parse_prp fs (abs_path fs path)), p_calls = [f]\<rparr>"
      using assms(3) by (simp add: simps ne unreach_line_not_ltl [OF False] parametrized_unreach make_prop_def)
    moreover have "strip l = cover_line f \<longrightarrow>
        get_property order fs d (Some path) = Inr \<lparr>p_class = ErrorCall,
          p_prpfile = Some dflt, p_ltl = fst (parse_prp fs dflt), p_calls = [f]\<rparr>"
      using assms(3) by (simp add: simps ne cover_line_not_ltl [OF False] parametrized_cover
        make_prop_def PropertyErrorCall_def assign_default_prpfile_def prop_methods assms(4))
    ultimately show ?thesis using False by simp
  qed
qed

theorem get_property_for_function_witness:
  "get_property id \<lparr>abs_path = id, file_lines = [''p'' \<mapsto> [unreach_line ''bad'']]\<rparr> [] (Some ''p'') =
   Inr \<lparr>p_class = UnreachCall, p_prpfile = Some ''p'', p_ltl = [unreach_line ''bad''],
     p_calls = [''bad'']\<rparr>"
proof -
  have s: "strip (unreach_line ''bad'') = unreach_line ''bad''"
    by (simp add: unreach_line_def strip_def lstrip_def rstrip_def is_space_def)
  then have "parse_prp \<lparr>abs_path = id, file_lines = [''p'' \<mapsto> [unreach_line ''bad'']]\<rparr> ''p'' =
      ([unreach_line ''bad''], Some ''p'')"
    by (simp add: parse_prp_def) (simp add: unreach_line_def)
  then show ?thesis
    using get_property_for_function [of "\<lparr>abs_path = id, file_lines = [''p'' \<mapsto> [unreach_line ''bad'']]\<rparr>"
        "''p''" "unreach_line ''bad''" id "''bad''", OF _ _ _ refl] s by simp
qed

lemma mapE_complete_total: "\<exists>qs. mapE (complete_prop fs d) ps = Inr qs"
  using complete_prop_total by (intro mapE_total) blast

lemma mapE_complete_prpfile:
  assumes "mapE (complete_prop fs d) ps = Inr qs" and "q \<in> set qs"
  shows "p_prpfile q \<noteq> None"
proof -
  from assms(2) obtain i where i: "i < length qs" "qs ! i = q" by (auto simp: in_set_conv_nth)
  then have "complete_prop fs d (ps ! i) = Inr q"
    using mapE_nth [OF assms(1), of i] mapE_length [OF assms(1)] by simp
  then show ?thesis by (rule complete_prop_Inr(3))
qed

lemma finish_cases:
  assumes "mset (order qs) = mset qs"
  shows "case (let merged = merge_memsafety False (order qs)
      in if length merged = 1 then Inr (hd merged) else Inl AssertionError) of
        Inl e \<Rightarrow> e = AssertionError | Inr p \<Rightarrow> p \<in> set qs"
proof (cases "length (merge_memsafety False (order qs)) = 1")
  case True
  then obtain a where "merge_memsafety False (order qs) = [a]" by (auto simp: length_Suc_conv)
  then show ?thesis using merge_members(1) [of "order qs" a] mset_eq_setD [OF assms] by simp
qed (simp add: Let_def)

text \<open>C9: \<open>get_property\<close> always returns a property with a property file, or stops because items
  are unsupported (the message names exactly items that no table and no pattern knows) or
  because there is not exactly one property; the branches for unhandled properties are dead.\<close>

theorem get_property_outcomes:
  assumes "\<And>ps. mset (order ps) = mset ps"
  shows "case get_property order fs d prp of
      Inr p \<Rightarrow> p_prpfile p \<noteq> None
    | Inl e \<Rightarrow> e = AssertionError \<or>
        (\<exists>u \<noteq> []. e = SymbioticException (unsupported_msg (join '';'' u)) \<and>
          (\<forall>s \<in> set u. map_of supported_properties s = None \<and>
             map_of supported_ltl_properties s = None \<and>
             \<not> startswith s ''CHECK( init(main()), LTL(G ! call'' \<and>
             \<not> startswith s ''COVER( init(main()), FQL(COVER EDGES(@CALL(''))"
proof (cases prp)
  case None
  then show ?thesis
    using assign_default_total [of fs d "make_prop Assertions None"]
    by (auto simp: get_property_def)
next
  case (Some s)
  obtain prps f where parse: "parse_prp fs s = (prps, f)" by (cases "parse_prp fs s")
  obtain ps un where simple: "get_simple_property prps f = (ps, un)"
    by (cases "get_simple_property prps f")
  obtain qs un' where par: "get_parametrized_property un f = (qs, un')"
    by (cases "get_parametrized_property un f")
  have fin: "case bindE (mapE (complete_prop fs d) rs) (\<lambda>properties.
        let merged = merge_memsafety False (order properties)
        in if length merged = 1 then Inr (hd merged) else Inl AssertionError) of
      Inl e \<Rightarrow> e = AssertionError | Inr p \<Rightarrow> p_prpfile p \<noteq> None" for rs
  proof -
    obtain xs where xs: "mapE (complete_prop fs d) rs = Inr xs"
      using mapE_complete_total by blast
    show ?thesis
      using finish_cases [of order xs, OF assms] mapE_complete_prpfile [OF xs]
      by (auto simp: xs split: sum.splits)
  qed
  have un: "map_of supported_properties s = None \<and> map_of supported_ltl_properties s = None"
    if "s \<in> set un" for s
    using simple that by (auto simp: get_simple_property_def filter_properties_def)
  have un': "s \<in> set un \<and> \<not> startswith s ''CHECK( init(main()), LTL(G ! call'' \<and>
      \<not> startswith s ''COVER( init(main()), FQL(COVER EDGES(@CALL(''" if "s \<in> set un'" for s
    using par that
    by (auto simp only: get_parametrized_property_def prod.inject set_filter mem_Collect_eq
        parametrized_def Let_def split: if_splits)
  show ?thesis
  proof (cases "un \<noteq> [] \<and> un' \<noteq> []")
    case True
    then have "get_property order fs d prp = Inl (SymbioticException (unsupported_msg (join '';'' un')))"
      by (simp add: get_property_def Some parse simple par)
    then show ?thesis using True un un' by auto
  next
    case False
    then have "get_property order fs d prp =
      bindE (mapE (complete_prop fs d) (if un = [] then ps else ps @ qs)) (\<lambda>properties.
        let merged = merge_memsafety False (order properties)
        in if length merged = 1 then Inr (hd merged) else Inl AssertionError)"
      by (cases "un = []") (simp_all add: get_property_def Some parse simple par)
    with fin [of "if un = [] then ps else ps @ qs"] have "case get_property order fs d prp of
        Inl e \<Rightarrow> e = AssertionError | Inr p \<Rightarrow> p_prpfile p \<noteq> None"
      by (simp only:)
    then show ?thesis by (cases "get_property order fs d prp") simp_all
  qed
qed

theorem get_property_outcomes_witness:
  "case get_property id \<lparr>abs_path = id, file_lines = Map.empty\<rparr> [] (Some ''memsafety termination'') of
      Inr p \<Rightarrow> p_prpfile p \<noteq> None
    | Inl e \<Rightarrow> e = AssertionError \<or> (\<exists>u \<noteq> []. e = SymbioticException (unsupported_msg (join '';'' u)))"
  using get_property_outcomes [of id "\<lparr>abs_path = id, file_lines = Map.empty\<rparr>" "[]"
      "Some ''memsafety termination''"]
  by (auto split: sum.splits)

end
