(* ===== verification/Options.thy ===== *)
theory Options
  imports Prelude
begin

text \<open>
  \<open>options.py\<close>: the object with all settings (\<open>options\<close>, a record with the attributes of
  \<open>SymbioticOptions\<close> in the order of its constructor), the shortcuts \<open>--sv-comp\<close>,
  \<open>--test-comp\<close> and \<open>--witness-check\<close>, and \<open>parse_command_line\<close>: Python's \<open>getopt\<close> for
  long options, the effect of each option, and the conflict checks at the end. The working
  directory, path functions and file tests of the operating system are arguments. Messages
  that are only printed are left out.
\<close>

section \<open>State\<close>

record options =
  tool_name :: string
  is32bit :: bool
  stats :: bool
  generate_ll :: bool
  generate_c :: bool
  cc_mode :: bool
  propertystr :: "string option"
  noslice :: bool
  malloc_never_fails :: bool
  explicit_symbolic :: bool
  undef_retval_nosym :: bool
  undefined_are_pure :: bool
  require_slicer :: bool
  timeout :: int
  slicer_timeout :: int
  instrumentation_timeout :: int
  no_optimize :: bool
  no_verification :: bool
  no_instrument :: bool
  final_output :: "string option"
  witness_output :: "string option"
  graphml_witness_output :: "string option"
  testsuite_output :: string
  source_is_bc :: bool
  argv :: "string list"
  optlevel :: "string list"
  slicer_pta :: string
  memsafety_config_file :: "string option"
  overflow_config_file :: "string option"
  repeat_slicing :: int
  exit_on_error :: bool
  linkundef :: "string list"
  nolinkundef :: bool
  link_files :: "string list"
  link_files_before_slicing :: "string list"
  slicer_cmd :: "string list"
  slicer_params :: "string list"
  tool_params :: "string list"
  disabled_optimizations :: "string list"
  CFLAGS :: "string list"
  CPPFLAGS :: "string list"
  full_instrumentation :: bool
  nowitness :: bool
  executable_witness :: bool
  search_include_paths :: bool
  overflow_with_clang :: bool
  replay_error :: bool
  target_settings :: "string list"
  report_type :: "string list"
  sv_comp :: bool
  test_comp :: bool
  witness_check :: bool
  witness_check_file :: "string option"
  guide_only :: bool
  check_all_locations :: bool
  no_integrity_check :: bool
  dump_env_only :: bool
  dump_env_cmd :: bool
  save_files :: bool
  working_dir_prefix :: string
  unroll_count :: int

text \<open>What the parser asks the operating system.\<close>

record os_env =
  os_cwd :: string
  os_abspath :: "string \<Rightarrow> string"
  os_expanduser :: "string \<Rightarrow> string"
  os_isfile :: "string \<Rightarrow> bool"
  os_isdir :: "string \<Rightarrow> bool"
  os_has_version :: bool

definition SymbioticOptions :: "os_env \<Rightarrow> options" where
  "SymbioticOptions env =
     \<lparr>tool_name = ''klee'', is32bit = False, stats = False, generate_ll = False,
      generate_c = False, cc_mode = False, propertystr = None, noslice = False,
      malloc_never_fails = False, explicit_symbolic = False, undef_retval_nosym = False,
      undefined_are_pure = False, require_slicer = False, timeout = 0, slicer_timeout = 0,
      instrumentation_timeout = 0, no_optimize = False, no_verification = False,
      no_instrument = False, final_output = None, witness_output = None,
      graphml_witness_output = None, testsuite_output = os_cwd env @ ''/test-suite'',
      source_is_bc = False, argv = [], optlevel = [''before-O3'', ''after-O3''],
      slicer_pta = ''fi'', memsafety_config_file = None, overflow_config_file = None,
      repeat_slicing = 1, exit_on_error = False,
      linkundef = [''verifier'', ''libc'', ''posix'', ''kernel''], nolinkundef = False,
      link_files = [],
      link_files_before_slicing =
        [''__VERIFIER_exit'', ''__VERIFIER_silent_exit'', ''__VERIFIER_assert''],
      slicer_cmd = [''sbt-slicer''], slicer_params = [], tool_params = [],
      disabled_optimizations = [], CFLAGS = [], CPPFLAGS = [], full_instrumentation = False,
      nowitness = True, executable_witness = False, search_include_paths = False,
      overflow_with_clang = False, replay_error = False, target_settings = [],
      report_type = [''normal''], sv_comp = False, test_comp = False, witness_check = False,
      witness_check_file = None, guide_only = False, check_all_locations = False,
      no_integrity_check = False, dump_env_only = False, dump_env_cmd = False,
      save_files = False, working_dir_prefix = ''/tmp'', unroll_count = 0\<rparr>"

section \<open>Shortcuts\<close>

definition remove_linkundef :: "string \<Rightarrow> options \<Rightarrow> options" where
  "remove_linkundef what opts = opts\<lparr>linkundef := remove1 what (linkundef opts)\<rparr>"

definition set_witness_check :: "options \<Rightarrow> options" where
  "set_witness_check opts = opts\<lparr>
     witness_check := True, sv_comp := True, nowitness := \<not> guide_only opts,
     no_integrity_check := True, malloc_never_fails := False, explicit_symbolic := True,
     search_include_paths := False, linkundef := linkundef opts @ [''svcomp''],
     CFLAGS := CFLAGS opts @ [''-fbracket-depth=2048''], replay_error := False,
     tool_name := ''witch-klee'', exit_on_error := False, noslice := True,
     report_type := report_type opts @ [''sv-comp''], no_instrument := True,
     no_optimize := True\<rparr>"

text \<open>\<open>if not opts.witness_output\<close>: no value or the empty string.\<close>

definition str_set :: "string option \<Rightarrow> bool" where
  "str_set s = (case s of Some (_ # _) \<Rightarrow> True | _ \<Rightarrow> False)"

definition set_svcomp :: "os_env \<Rightarrow> options \<Rightarrow> options" where
  "set_svcomp env opts = opts\<lparr>
     sv_comp := True, nowitness := False,
     witness_output := (if \<not> str_set (witness_output opts)
       then Some (os_cwd env @ ''/witness.yml'') else witness_output opts),
     graphml_witness_output := (if \<not> str_set (graphml_witness_output opts)
       then Some (os_cwd env @ ''/witness.graphml'') else graphml_witness_output opts),
     no_integrity_check := True, malloc_never_fails := False, explicit_symbolic := True,
     search_include_paths := False, linkundef := linkundef opts @ [''svcomp''],
     CFLAGS := CFLAGS opts @ [''-fbracket-depth=2048''], replay_error := True,
     tool_name := ''svcomp'', slicer_timeout := 300, instrumentation_timeout := 400,
     exit_on_error := True, report_type := report_type opts @ [''sv-comp'']\<rparr>"

definition set_testcomp :: "options \<Rightarrow> options" where
  "set_testcomp opts = opts\<lparr>
     test_comp := True, no_integrity_check := True, malloc_never_fails := True,
     explicit_symbolic := True, search_include_paths := False,
     linkundef := linkundef opts @ [''svcomp''],
     CFLAGS := CFLAGS opts @ [''-fbracket-depth=2048''], replay_error := True,
     tool_name := ''testcomp'', slicer_timeout := 60, instrumentation_timeout := 60,
     exit_on_error := True, report_type := report_type opts @ [''sv-comp'']\<rparr>"

definition translate_flag :: "os_env \<Rightarrow> string \<Rightarrow> string" where
  "translate_flag env f =
     (if os_isfile env f then os_abspath env f
      else if startswith f ''-I'' then ''-I'' @ os_abspath env (drop 2 f)
      else f)"

definition translate_flags :: "os_env \<Rightarrow> string list \<Rightarrow> string list \<Rightarrow> string list" where
  "translate_flags env output flags = output @ map (translate_flag env) flags"

section \<open>getopt\<close>

definition long_options :: "string list" where
  "long_options =
     [''no-slice'', ''32'', ''64'', ''prp='', ''no-optimize'', ''debug='', ''timeout='',
      ''slicer-timeout='', ''instrumentation-timeout='', ''version'', ''help'',
      ''no-verification'', ''output='', ''witness='', ''bc'', ''optimize='',
      ''malloc-never-fails'', ''pta='', ''no-link='', ''argv='', ''no-instrument'',
      ''cflags='', ''cppflags='', ''link='', ''executable-witness'', ''verifier='',
      ''target='', ''require-slicer'', ''no-link-undefined'', ''repeat-slicing='',
      ''slicer-params='', ''slicer-cmd='', ''verifier-params='', ''explicit-symbolic'',
      ''undefined-retval-nosym'', ''save-files'', ''version-short'', ''no-witness'',
      ''witness-with-source-lines'', ''exit-on-error'', ''undefined-are-pure'',
      ''no-integrity-check'', ''dump-env'', ''dump-env-cmd'', ''memsafety-config-file='',
      ''overflow-config-file='', ''statistics'', ''working-dir-prefix='', ''sv-comp'',
      ''test-comp'', ''overflow-with-clang'', ''gen-ll'', ''gen-c'', ''test-suite='',
      ''search-include-paths'', ''replay-error'', ''cc'', ''report='', ''no-replay-error'',
      ''unroll='', ''full-instrumentation'', ''target-settings='', ''witness-check='',
      ''guide-only'', ''check-all-locations'', ''graphml-witness='']"

text \<open>The functions of Python's module \<open>getopt\<close>; \<open>Inl\<close> is the message of a \<open>GetoptError\<close>.\<close>

definition long_has_args :: "string \<Rightarrow> string list \<Rightarrow> string + bool \<times> string" where
  "long_has_args opt longopts =
     (let poss = filter (\<lambda>s. startswith s opt) longopts
      in if poss = [] then Inl (''option --'' @ opt @ '' not recognized'')
         else if opt \<in> set poss then Inr (False, opt)
         else if opt @ ''='' \<in> set poss then Inr (True, opt)
         else if length poss > 1 then Inl (''option --'' @ opt @ '' not a unique prefix'')
         else let u = hd poss in
           if endswith u ''='' then Inr (True, butlast u) else Inr (False, u))"

text \<open>The option name and the argument after the first equals sign.\<close>

definition split_eq :: "string \<Rightarrow> string \<times> string option" where
  "split_eq opt =
     (case find_pos ''='' opt of None \<Rightarrow> (opt, None)
      | Some i \<Rightarrow> (take i opt, Some (drop (Suc i) opt)))"

definition do_longs ::
  "string list \<Rightarrow> string \<Rightarrow> string list \<Rightarrow> string + (string \<times> string) \<times> string list" where
  "do_longs longopts opt args =
     (case split_eq opt of (name, optarg) \<Rightarrow>
      case long_has_args name longopts of
        Inl e \<Rightarrow> Inl e
      | Inr (True, u) \<Rightarrow>
          (case optarg of Some a \<Rightarrow> Inr ((''--'' @ u, a), args)
           | None \<Rightarrow> (case args of [] \<Rightarrow> Inl (''option --'' @ u @ '' requires argument'')
                      | a # rest \<Rightarrow> Inr ((''--'' @ u, a), rest)))
      | Inr (False, u) \<Rightarrow>
          (case optarg of Some a \<Rightarrow> Inl (''option --'' @ u @ '' must not have an argument'')
           | None \<Rightarrow> Inr ((''--'' @ u, []), args)))"

text \<open>There are no short options. The fuel of the recursion is the number of words left.\<close>

fun getopt_loop ::
  "nat \<Rightarrow> string list \<Rightarrow> string list \<Rightarrow> string + (string \<times> string) list \<times> string list" where
  "getopt_loop 0 longopts args = Inr ([], args)"
| "getopt_loop (Suc n) longopts args =
     (case args of
        [] \<Rightarrow> Inr ([], [])
      | a # rest \<Rightarrow>
          if \<not> startswith a ''-'' \<or> a = ''-'' then Inr ([], args)
          else if a = ''--'' then Inr ([], rest)
          else if startswith a ''--'' then
            (case do_longs longopts (drop 2 a) rest of
               Inl e \<Rightarrow> Inl e
             | Inr (p, rest') \<Rightarrow>
                 (case getopt_loop n longopts rest' of
                    Inl e \<Rightarrow> Inl e
                  | Inr (ps, rest'') \<Rightarrow> Inr (p # ps, rest'')))
          else Inl (''option -'' @ take 1 (drop 1 a) @ '' not recognized''))"

definition getopt ::
  "string list \<Rightarrow> string list \<Rightarrow> string + (string \<times> string) list \<times> string list" where
  "getopt args longopts = getopt_loop (length args) longopts args"

section \<open>The effect of the options\<close>

text \<open>Options that only set a flag to a constant.\<close>

definition flag_updates :: "(string \<times> (options \<Rightarrow> options)) list" where
  "flag_updates =
     [(''--gen-ll'', generate_ll_update (\<lambda>_. True)),
      (''--gen-c'', generate_c_update (\<lambda>_. True)),
      (''--cc'', \<lambda>s. s\<lparr>tool_name := ''cc'', cc_mode := True\<rparr>),
      (''--no-slice'', noslice_update (\<lambda>_. True)),
      (''--executable-witness'', executable_witness_update (\<lambda>_. True)),
      (''--explicit-symbolic'', explicit_symbolic_update (\<lambda>_. True)),
      (''--undefined-retval-nosym'', undef_retval_nosym_update (\<lambda>_. True)),
      (''--no-link-undefined'', nolinkundef_update (\<lambda>_. True)),
      (''--malloc-never-fails'', malloc_never_fails_update (\<lambda>_. True)),
      (''--undefined-are-pure'', undefined_are_pure_update (\<lambda>_. True)),
      (''--no-verification'', no_verification_update (\<lambda>_. True)),
      (''--overflow-with-clang'', overflow_with_clang_update (\<lambda>_. True)),
      (''--32'', is32bit_update (\<lambda>_. True)),
      (''--64'', is32bit_update (\<lambda>_. False)),
      (''--no-optimize'', \<lambda>s. s\<lparr>no_optimize := True, optlevel := []\<rparr>),
      (''--no-instrument'', no_instrument_update (\<lambda>_. True)),
      (''--no-witness'', nowitness_update (\<lambda>_. True)),
      (''--bc'', source_is_bc_update (\<lambda>_. True)),
      (''--require-slicer'', require_slicer_update (\<lambda>_. True)),
      (''--guide-only'', guide_only_update (\<lambda>_. True)),
      (''--check-all-locations'', check_all_locations_update (\<lambda>_. True)),
      (''--save-files'', \<lambda>s. s\<lparr>save_files := True, generate_ll := True\<rparr>),
      (''--exit-on-error'', exit_on_error_update (\<lambda>_. True)),
      (''--statistics'', stats_update (\<lambda>_. True)),
      (''--dump-env'', dump_env_only_update (\<lambda>_. True)),
      (''--replay-error'', replay_error_update (\<lambda>_. True)),
      (''--no-replay-error'', replay_error_update (\<lambda>_. False)),
      (''--dump-env-cmd'', \<lambda>s. s\<lparr>dump_env_only := True, dump_env_cmd := True\<rparr>),
      (''--search-include-paths'', search_include_paths_update (\<lambda>_. True)),
      (''--no-integrity-check'', no_integrity_check_update (\<lambda>_. True)),
      (''--full-instrumentation'', full_instrumentation_update (\<lambda>_. True)),
      (''--test-comp'', set_testcomp)]"

definition lower_char :: "char \<Rightarrow> char" where
  "lower_char c =
     (let n = of_char c :: nat in if 65 \<le> n \<and> n \<le> 90 then char_of (n + 32) else c)"

definition lower :: "string \<Rightarrow> string" where
  "lower = map lower_char"

definition set_optimize :: "string \<Rightarrow> options \<Rightarrow> options" where
  "set_optimize arg o' =
     (let levels = split_on (CHR '','') arg
      in if ''none'' \<in> set (map strip levels) then o'\<lparr>no_optimize := True, optlevel := []\<rparr>
         else o'\<lparr>optlevel := levels\<rparr>)"

definition set_prp :: "string \<Rightarrow> options \<Rightarrow> options" where
  "set_prp arg o' = o'\<lparr>propertystr :=
     Some (if arg \<in> {''valid-free'', ''valid-deref'', ''valid-memtrack''}
           then ''memsafety'' else arg)\<rparr>"

text \<open>Options whose argument replaces or extends a setting.\<close>

definition value_updates :: "os_env \<Rightarrow> (string \<times> (string \<Rightarrow> options \<Rightarrow> options)) list" where
  "value_updates env =
     [(''--debug'', \<lambda>arg s. s),
      (''--report'', \<lambda>arg s. s\<lparr>report_type := split_on (CHR '','') arg\<rparr>),
      (''--verifier'', \<lambda>arg s. s\<lparr>tool_name := lower arg\<rparr>),
      (''--target'', \<lambda>arg s. s\<lparr>tool_name := lower arg\<rparr>),
      (''--argv'', \<lambda>arg s. s\<lparr>argv := split_on (CHR '','') arg\<rparr>),
      (''--sv-comp'', \<lambda>arg s. set_svcomp env s),
      (''--no-link'', \<lambda>arg s. fold remove_linkundef (split_on (CHR '','') arg) s),
      (''--optimize'', set_optimize),
      (''--prp'', set_prp),
      (''--output'', \<lambda>arg s. s\<lparr>final_output := Some (os_abspath env arg)\<rparr>),
      (''--witness'', \<lambda>arg s. s\<lparr>nowitness := False,
         witness_output := Some (os_abspath env (os_expanduser env arg))\<rparr>),
      (''--graphml-witness'', \<lambda>arg s. s\<lparr>nowitness := False,
         graphml_witness_output := Some (os_abspath env (os_expanduser env arg))\<rparr>),
      (''--cflags'', \<lambda>arg s. s\<lparr>CFLAGS := translate_flags env (CFLAGS s) (words arg)\<rparr>),
      (''--cppflags'', \<lambda>arg s. s\<lparr>CPPFLAGS := translate_flags env (CPPFLAGS s) (words arg)\<rparr>),
      (''--slicer-params'', \<lambda>arg s. s\<lparr>slicer_params := words arg\<rparr>),
      (''--slicer-cmd'', \<lambda>arg s. s\<lparr>slicer_cmd := words arg\<rparr>),
      (''--verifier-params'', \<lambda>arg s. s\<lparr>tool_params := words arg\<rparr>),
      (''--target-settings'', \<lambda>arg s. s\<lparr>target_settings := words arg\<rparr>),
      (''--witness-check'', \<lambda>arg s. set_witness_check
         (s\<lparr>witness_check_file := Some (os_abspath env (os_expanduser env arg))\<rparr>)),
      (''--link'', \<lambda>arg s. s\<lparr>link_files := link_files s @ split_on (CHR '','') arg\<rparr>),
      (''--memsafety-config-file'', \<lambda>arg s. s\<lparr>memsafety_config_file := Some arg\<rparr>),
      (''--overflow-config-file'', \<lambda>arg s. s\<lparr>overflow_config_file := Some arg\<rparr>),
      (''--test-suite'', \<lambda>arg s. s\<lparr>testsuite_output := os_abspath env arg\<rparr>)]"

text \<open>Options whose argument is checked. 
  The output of \<open>--help\<close> and of the versions is left out; \<open>print_shortest_vers\<close> looks up the
  version of \<open>symbiotic\<close>, which \<open>os_has_version\<close> says to be there.\<close>

definition bad_timeout :: "string \<Rightarrow> exn + 'a" where
  "bad_timeout arg = err (''Invalid numerical argument for timeout: '' @ arg)"

definition apply_checked :: "os_env \<Rightarrow> string \<Rightarrow> string \<Rightarrow> options \<Rightarrow> exn + options" where
  "apply_checked env opt arg o' =
     (if opt = ''--help'' \<or> opt = ''--version'' then Inl (SystemExit [])
      else if opt = ''--version-short'' then
        Inl (if os_has_version env then SystemExit [] else KeyError)
      else if opt = ''--pta'' then
        (if arg \<notin> {''fs'', ''fi'', ''inv''}
         then err ''Points-to analysis can be one of: fs, fi, inv''
         else Inr (o'\<lparr>slicer_pta := arg\<rparr>))
      else if opt = ''--repeat-slicing'' then
        (case py_int arg of None \<Rightarrow> err ''Invalid argument for --repeat-slicing''
         | Some n \<Rightarrow> Inr (o'\<lparr>repeat_slicing := n\<rparr>))
      else if opt = ''--timeout'' then
        (case py_int arg of None \<Rightarrow> bad_timeout arg | Some n \<Rightarrow> Inr (o'\<lparr>timeout := n\<rparr>))
      else if opt = ''--slicer-timeout'' then
        (case py_int arg of None \<Rightarrow> bad_timeout arg | Some n \<Rightarrow> Inr (o'\<lparr>slicer_timeout := n\<rparr>))
      else if opt = ''--instrumentation-timeout'' then
        (case py_int arg of None \<Rightarrow> bad_timeout arg
         | Some n \<Rightarrow> Inr (o'\<lparr>instrumentation_timeout := n\<rparr>))
      else if opt = ''--working-dir-prefix'' then
        (let wdr = os_abspath env arg
         in if \<not> os_isdir env wdr
            then err ([CHR 0x27] @ arg @ [CHR 0x27] @ '' is not valid prefix for working directory'')
            else Inr (o'\<lparr>working_dir_prefix := wdr\<rparr>))
      else if opt = ''--unroll'' then
        (case py_int arg of None \<Rightarrow> Inl ValueError | Some n \<Rightarrow> Inr (o'\<lparr>unroll_count := n\<rparr>))
      else Inr o')"

text \<open>The chain of \<open>elif\<close> branches; the names of the three tables are disjoint.\<close>

definition apply_option :: "os_env \<Rightarrow> string \<times> string \<Rightarrow> options \<Rightarrow> exn + options" where
  "apply_option env p o' =
     (case p of (opt, arg) \<Rightarrow>
      case map_of flag_updates opt of Some f \<Rightarrow> Inr (f o')
      | None \<Rightarrow>
         (case map_of (value_updates env) opt of Some f \<Rightarrow> Inr (f arg o')
          | None \<Rightarrow> apply_checked env opt arg o'))"

definition check_conflicts :: "options \<Rightarrow> exn + unit" where
  "check_conflicts o' =
     (if require_slicer o' \<and> noslice o'
      then err ''Slicing is forbidden but required at the same time''
      else if \<not> nowitness o' \<and> \<not> (exit_on_error o' \<or> witness_check o')
      then err ''Witness generation is only supported with --exit-on-error''
      else Inr ())"

definition parse_command_line ::
  "os_env \<Rightarrow> string list \<Rightarrow> exn + options \<times> string list" where
  "parse_command_line env args =
     (case getopt args long_options of
        Inl e \<Rightarrow> err e
      | Inr (opts, rest) \<Rightarrow>
          bindE (foldE (apply_option env) opts (SymbioticOptions env)) (\<lambda>o'.
          bindE (check_conflicts o') (\<lambda>_. Inr (o', rest))))"

section \<open>The invariant of the settings\<close>

definition options_ok :: "options \<Rightarrow> bool" where
  "options_ok s \<longleftrightarrow> slicer_pta s \<in> {''fs'', ''fi'', ''inv''} \<and>
     (dump_env_cmd s \<longrightarrow> dump_env_only s) \<and> (save_files s \<longrightarrow> generate_ll s) \<and>
     (witness_check s \<longrightarrow> sv_comp s \<and> noslice s \<and> no_instrument s \<and> no_optimize s) \<and>
     (sv_comp s \<or> test_comp s \<longrightarrow> explicit_symbolic s \<and> no_integrity_check s)"

lemma options_ok_init: "options_ok (SymbioticOptions env)"
  by (simp add: options_ok_def SymbioticOptions_def)

text \<open>Settings the invariant does not mention.\<close>

lemma options_ok_neutral:
  "options_ok (s\<lparr>report_type := x_report_type\<rparr>) = options_ok s"
  "options_ok (s\<lparr>tool_name := x_tool_name\<rparr>) = options_ok s"
  "options_ok (s\<lparr>argv := x_argv\<rparr>) = options_ok s"
  "options_ok (s\<lparr>linkundef := x_linkundef\<rparr>) = options_ok s"
  "options_ok (s\<lparr>final_output := x_final_output\<rparr>) = options_ok s"
  "options_ok (s\<lparr>witness_output := x_witness_output\<rparr>) = options_ok s"
  "options_ok (s\<lparr>graphml_witness_output := x_graphml_witness_output\<rparr>) = options_ok s"
  "options_ok (s\<lparr>testsuite_output := x_testsuite_output\<rparr>) = options_ok s"
  "options_ok (s\<lparr>CFLAGS := x_CFLAGS\<rparr>) = options_ok s"
  "options_ok (s\<lparr>CPPFLAGS := x_CPPFLAGS\<rparr>) = options_ok s"
  "options_ok (s\<lparr>slicer_params := x_slicer_params\<rparr>) = options_ok s"
  "options_ok (s\<lparr>slicer_cmd := x_slicer_cmd\<rparr>) = options_ok s"
  "options_ok (s\<lparr>tool_params := x_tool_params\<rparr>) = options_ok s"
  "options_ok (s\<lparr>target_settings := x_target_settings\<rparr>) = options_ok s"
  "options_ok (s\<lparr>link_files := x_link_files\<rparr>) = options_ok s"
  "options_ok (s\<lparr>memsafety_config_file := x_memsafety_config_file\<rparr>) = options_ok s"
  "options_ok (s\<lparr>overflow_config_file := x_overflow_config_file\<rparr>) = options_ok s"
  "options_ok (s\<lparr>witness_check_file := x_witness_check_file\<rparr>) = options_ok s"
  "options_ok (s\<lparr>nowitness := x_nowitness\<rparr>) = options_ok s"
  "options_ok (s\<lparr>optlevel := x_optlevel\<rparr>) = options_ok s"
  "options_ok (s\<lparr>propertystr := x_propertystr\<rparr>) = options_ok s"
  "options_ok (s\<lparr>repeat_slicing := x_repeat_slicing\<rparr>) = options_ok s"
  "options_ok (s\<lparr>timeout := x_timeout\<rparr>) = options_ok s"
  "options_ok (s\<lparr>slicer_timeout := x_slicer_timeout\<rparr>) = options_ok s"
  "options_ok (s\<lparr>instrumentation_timeout := x_instrumentation_timeout\<rparr>) = options_ok s"
  "options_ok (s\<lparr>working_dir_prefix := x_working_dir_prefix\<rparr>) = options_ok s"
  "options_ok (s\<lparr>unroll_count := x_unroll_count\<rparr>) = options_ok s"
  "options_ok (s\<lparr>generate_c := x_generate_c\<rparr>) = options_ok s"
  "options_ok (s\<lparr>cc_mode := x_cc_mode\<rparr>) = options_ok s"
  "options_ok (s\<lparr>executable_witness := x_executable_witness\<rparr>) = options_ok s"
  "options_ok (s\<lparr>undef_retval_nosym := x_undef_retval_nosym\<rparr>) = options_ok s"
  "options_ok (s\<lparr>nolinkundef := x_nolinkundef\<rparr>) = options_ok s"
  "options_ok (s\<lparr>malloc_never_fails := x_malloc_never_fails\<rparr>) = options_ok s"
  "options_ok (s\<lparr>undefined_are_pure := x_undefined_are_pure\<rparr>) = options_ok s"
  "options_ok (s\<lparr>no_verification := x_no_verification\<rparr>) = options_ok s"
  "options_ok (s\<lparr>overflow_with_clang := x_overflow_with_clang\<rparr>) = options_ok s"
  "options_ok (s\<lparr>is32bit := x_is32bit\<rparr>) = options_ok s"
  "options_ok (s\<lparr>source_is_bc := x_source_is_bc\<rparr>) = options_ok s"
  "options_ok (s\<lparr>require_slicer := x_require_slicer\<rparr>) = options_ok s"
  "options_ok (s\<lparr>guide_only := x_guide_only\<rparr>) = options_ok s"
  "options_ok (s\<lparr>check_all_locations := x_check_all_locations\<rparr>) = options_ok s"
  "options_ok (s\<lparr>exit_on_error := x_exit_on_error\<rparr>) = options_ok s"
  "options_ok (s\<lparr>stats := x_stats\<rparr>) = options_ok s"
  "options_ok (s\<lparr>replay_error := x_replay_error\<rparr>) = options_ok s"
  "options_ok (s\<lparr>search_include_paths := x_search_include_paths\<rparr>) = options_ok s"
  "options_ok (s\<lparr>full_instrumentation := x_full_instrumentation\<rparr>) = options_ok s"
  by (simp_all add: options_ok_def)

text \<open>The flags: those the invariant mentions keep it one by one.\<close>

lemma options_ok_mentioned:
  "options_ok s \<Longrightarrow> options_ok (generate_ll_update (\<lambda>_. True) s)"
  "options_ok s \<Longrightarrow> options_ok (noslice_update (\<lambda>_. True) s)"
  "options_ok s \<Longrightarrow> options_ok (explicit_symbolic_update (\<lambda>_. True) s)"
  "options_ok s \<Longrightarrow> options_ok (s\<lparr>no_optimize := True\<rparr>)"
  "options_ok s \<Longrightarrow> options_ok (no_instrument_update (\<lambda>_. True) s)"
  "options_ok s \<Longrightarrow> options_ok (s\<lparr>save_files := True, generate_ll := True\<rparr>)"
  "options_ok s \<Longrightarrow> options_ok (dump_env_only_update (\<lambda>_. True) s)"
  "options_ok s \<Longrightarrow> options_ok (s\<lparr>dump_env_only := True, dump_env_cmd := True\<rparr>)"
  "options_ok s \<Longrightarrow> options_ok (no_integrity_check_update (\<lambda>_. True) s)"
  "options_ok s \<Longrightarrow> options_ok (set_testcomp s)"
  by (simp_all add: options_ok_def set_testcomp_def)

lemma options_ok_flags:
  assumes "(n, f) \<in> set flag_updates" and "options_ok s"
  shows "options_ok (f s)"
proof -
  have "list_all (\<lambda>(n, f). \<forall>s. options_ok s \<longrightarrow> options_ok (f s)) flag_updates"
    by (simp add: flag_updates_def options_ok_neutral options_ok_mentioned)
  with assms show ?thesis by (auto simp: list_all_iff)
qed

lemma fold_remove_linkundef:
  "fold remove_linkundef xs s = s\<lparr>linkundef := fold remove1 xs (linkundef s)\<rparr>"
  by (induction xs arbitrary: s) (simp_all add: remove_linkundef_def)

lemma options_ok_shortcuts:
  "options_ok s \<Longrightarrow> options_ok (set_svcomp env s)"
  "options_ok s \<Longrightarrow> options_ok (set_witness_check s)"
  "options_ok s \<Longrightarrow> options_ok (set_optimize arg s)"
  "options_ok s \<Longrightarrow> options_ok (set_prp arg s)"
  by (simp_all add: options_ok_def set_svcomp_def set_witness_check_def set_optimize_def
      set_prp_def Let_def)

lemma options_ok_values:
  assumes "(n, f) \<in> set (value_updates env)" and "options_ok s"
  shows "options_ok (f arg s)"
proof -
  have "list_all (\<lambda>(n, f). \<forall>arg s. options_ok s \<longrightarrow> options_ok (f arg s)) (value_updates env)"
    by (simp add: value_updates_def options_ok_neutral fold_remove_linkundef options_ok_shortcuts)
  with assms show ?thesis by (auto simp: list_all_iff)
qed

lemma options_ok_checked:
  assumes "options_ok s"
  shows "case apply_checked env opt arg s of Inl _ \<Rightarrow> True | Inr s' \<Rightarrow> options_ok s'"
proof -
  have "arg \<in> {''fs'', ''fi'', ''inv''} \<Longrightarrow> options_ok (s\<lparr>slicer_pta := arg\<rparr>)"
    using assms by (simp add: options_ok_def)
  with assms show ?thesis
    by (simp add: apply_checked_def err_def bad_timeout_def Let_def options_ok_neutral
        split: option.split)
qed

lemma options_ok_apply:
  assumes "apply_option env p s = Inr s'" and "options_ok s"
  shows "options_ok s'"
proof -
  obtain opt arg where p: "p = (opt, arg)" by (cases p)
  show ?thesis
  proof (cases "map_of flag_updates opt")
    case (Some f)
    with assms p options_ok_flags [OF map_of_SomeD [OF Some]] show ?thesis
      by (auto simp: apply_option_def)
  next
    case None
    show ?thesis
    proof (cases "map_of (value_updates env) opt")
      case (Some f)
      with assms p None options_ok_values [OF map_of_SomeD [OF Some]] show ?thesis
        by (auto simp: apply_option_def)
    next
      case none: None
      with assms p None options_ok_checked [of s env opt arg] show ?thesis
        by (simp add: apply_option_def)
    qed
  qed
qed

text \<open>C10: Whatever the command line is, the settings with which the program runs have no
  conflict: slicing is not forbidden and required at once; a witness is only written when the
  first error ends the run or a witness is checked; the points-to analysis is a known one; and
  the modes imply the settings they rest on.\<close>

theorem parse_command_line_consistent:
  "case parse_command_line env args of Inl e \<Rightarrow> True | Inr (s, rest) \<Rightarrow>
     \<not> (require_slicer s \<and> noslice s) \<and> (nowitness s \<or> exit_on_error s \<or> witness_check s) \<and>
     slicer_pta s \<in> {''fs'', ''fi'', ''inv''} \<and> (dump_env_cmd s \<longrightarrow> dump_env_only s) \<and>
     (save_files s \<longrightarrow> generate_ll s) \<and>
     (witness_check s \<longrightarrow> \<not> require_slicer s \<and> no_instrument s \<and> no_optimize s) \<and>
     (sv_comp s \<or> test_comp s \<or> witness_check s \<longrightarrow> explicit_symbolic s)"
proof (cases "parse_command_line env args")
  case (Inr r)
  then obtain opts rest s where r: "r = (s, rest)"
    and f: "foldE (apply_option env) opts (SymbioticOptions env) = Inr s"
    and c: "check_conflicts s = Inr ()"
    by (auto simp: parse_command_line_def bindE_eq_Inr err_def split: sum.splits)
  have "options_ok s"
    by (rule foldE_invariant [where I = options_ok, OF f options_ok_init]) (rule options_ok_apply)
  with c show ?thesis
    unfolding Inr r by (auto simp: check_conflicts_def options_ok_def err_def split: if_splits)
qed simp

theorem parse_command_line_consistent_witness:
  "\<exists>s. parse_command_line \<lparr>os_cwd = [], os_abspath = id, os_expanduser = id, os_isfile = \<lambda>_. False,
      os_isdir = \<lambda>_. True, os_has_version = True\<rparr> [''--require-slicer'', ''a.c''] = Inr (s, [''a.c'']) \<and>
    \<not> noslice s"
proof -
  let ?env = "\<lparr>os_cwd = [], os_abspath = id, os_expanduser = id, os_isfile = \<lambda>_. False,
      os_isdir = \<lambda>_. True, os_has_version = True\<rparr>"
  have "getopt [''--require-slicer'', ''a.c''] long_options =
      Inr ([(''--require-slicer'', [])], [''a.c''])"
    by (simp add: getopt_def numeral_2_eq_2 do_longs_def split_eq_def long_has_args_def
        long_options_def)
  then have "\<exists>s. parse_command_line ?env [''--require-slicer'', ''a.c''] = Inr (s, [''a.c'']) \<and>
      require_slicer s"
    by (simp add: parse_command_line_def apply_option_def flag_updates_def check_conflicts_def
        SymbioticOptions_def)
  then show ?thesis
    using parse_command_line_consistent [of ?env "[''--require-slicer'', ''a.c'']"] by auto
qed

section \<open>getopt\<close>

text \<open>The fuel, one unit per word, is enough: more of it changes nothing.\<close>

lemma do_longs_length: "do_longs lo opt args = Inr (p, rest) \<Longrightarrow> length rest \<le> length args"
  by (auto simp: do_longs_def split: prod.splits sum.splits bool.splits option.splits list.splits)

lemma getopt_fuel: "length args \<le> n \<Longrightarrow> getopt_loop n lo args = getopt_loop (length args) lo args"
proof (induction n arbitrary: args rule: less_induct)
  case (less n)
  show ?case
  proof (cases args)
    case Nil
    then show ?thesis by (cases n) simp_all
  next
    case (Cons a rest)
    then obtain m where n: "n = Suc m" using less.prems by (cases n) auto
    have "getopt_loop m lo rest' = getopt_loop (length rest) lo rest'" if "length rest' \<le> length rest" for rest'
    proof -
      have "getopt_loop m lo rest' = getopt_loop (length rest') lo rest'"
        using less.IH [of m rest'] that less.prems n Cons by simp
      also have "\<dots> = getopt_loop (length rest) lo rest'"
        using less.IH [of "length rest" rest'] that less.prems n Cons by simp
      finally show ?thesis .
    qed
    then show ?thesis
      using do_longs_length by (fastforce simp: n Cons split: sum.split prod.split)
  qed
qed

definition long_value :: "string list \<Rightarrow> string \<Rightarrow> bool" where
  "long_value lo name \<longleftrightarrow> name @ ''='' \<in> set lo \<and> name \<notin> set lo \<and> CHR ''='' \<notin> set name"

lemma do_longs_value:
  assumes "long_value lo name"
  shows "do_longs lo (name @ ''='' @ v) args = Inr ((''--'' @ name, v), args)"
    and "do_longs lo name (v # args) = Inr ((''--'' @ name, v), args)"
proof -
  define poss where "poss = filter (\<lambda>s. startswith s name) lo"
  have "name \<notin> set poss" and "name @ ''='' \<in> set poss"
    using assms by (auto simp: long_value_def poss_def)
  then have h: "long_has_args name lo = Inr (True, name)"
    unfolding long_has_args_def poss_def [symmetric] Let_def by auto
  have "find_pos ''='' (name @ ''='' @ v) = Some (length name)" "find_pos ''='' name = None"
    using assms find_pos_fresh [of "''=''" name v]
    by (auto simp: long_value_def find_pos_None_iff is_in_iff_sublist dest: set_mono_sublist)
  then show "do_longs lo (name @ ''='' @ v) args = Inr ((''--'' @ name, v), args)"
    and "do_longs lo name (v # args) = Inr ((''--'' @ name, v), args)"
    by (simp_all add: do_longs_def split_eq_def h)
qed

definition long_flag :: "string list \<Rightarrow> string \<Rightarrow> bool" where
  "long_flag lo name \<longleftrightarrow> name \<in> set lo \<and> CHR ''='' \<notin> set name"

lemma do_longs_flag:
  assumes "long_flag lo name"
  shows "do_longs lo name args = Inr ((''--'' @ name, []), args)"
proof -
  define poss where "poss = filter (\<lambda>s. startswith s name) lo"
  have "name \<in> set poss" using assms by (auto simp: long_flag_def poss_def)
  then have h: "long_has_args name lo = Inr (False, name)"
    unfolding long_has_args_def poss_def [symmetric] Let_def by auto
  have "find_pos ''='' name = None"
    using assms by (auto simp: long_flag_def find_pos_None_iff is_in_iff_sublist dest: set_mono_sublist)
  then show ?thesis by (simp add: do_longs_def split_eq_def h)
qed

section \<open>Command lines\<close>

text \<open>The options whose branch reads the argument, and the others.\<close>

definition argument_options :: "os_env \<Rightarrow> string list" where
  "argument_options env = remove1 ''--sv-comp'' (map fst (value_updates env)) @
     [''--pta'', ''--repeat-slicing'', ''--timeout'', ''--slicer-timeout'', ''--instrumentation-timeout'',
      ''--working-dir-prefix'', ''--unroll'']"

definition flag_options :: "string list" where
  "flag_options = map fst flag_updates @ [''--sv-comp'', ''--help'', ''--version'', ''--version-short'']"

text \<open>An option as it is written on the command line; \<open>joined\<close>: with its argument in one word.\<close>

fun option_words :: "os_env \<Rightarrow> bool \<times> string \<times> string \<Rightarrow> string list" where
  "option_words env (joined, opt, arg) =
     (if opt \<notin> set (argument_options env) then [opt] else if joined then [opt @ ''='' @ arg] else [opt, arg])"

lemma argument_options_listed:
  assumes "opt \<in> set (argument_options env)"
  obtains name where "opt = ''--'' @ name" and "name \<noteq> []" and "long_value long_options name"
proof -
  have names: "argument_options env =
    [''--debug'', ''--report'', ''--verifier'', ''--target'', ''--argv'', ''--no-link'', ''--optimize'', ''--prp'',
     ''--output'', ''--witness'', ''--graphml-witness'', ''--cflags'', ''--cppflags'', ''--slicer-params'',
     ''--slicer-cmd'', ''--verifier-params'', ''--target-settings'', ''--witness-check'', ''--link'',
     ''--memsafety-config-file'', ''--overflow-config-file'', ''--test-suite'', ''--pta'', ''--repeat-slicing'',
     ''--timeout'', ''--slicer-timeout'', ''--instrumentation-timeout'', ''--working-dir-prefix'', ''--unroll'']"
    by (simp add: argument_options_def value_updates_def)
  have "list_all (\<lambda>opt. take 2 opt = ''--'' \<and> drop 2 opt \<noteq> [] \<and> long_value long_options (drop 2 opt))
    (argument_options env)"
    unfolding names long_value_def by code_simp
  with assms have "take 2 opt = ''--''" "drop 2 opt \<noteq> []" "long_value long_options (drop 2 opt)"
    by (auto simp: list_all_iff)
  then show thesis using that [of "drop 2 opt"] append_take_drop_id [of 2 opt] by simp
qed

lemma flag_options_listed:
  assumes "opt \<in> set flag_options"
  obtains name where "opt = ''--'' @ name" and "name \<noteq> []" and "long_flag long_options name"
proof -
  have "list_all (\<lambda>opt. take 2 opt = ''--'' \<and> drop 2 opt \<noteq> [] \<and> long_flag long_options (drop 2 opt)) flag_options"
    unfolding flag_options_def flag_updates_def list.map fst_conv append.simps long_flag_def by code_simp
  with assms have "take 2 opt = ''--''" "drop 2 opt \<noteq> []" "long_flag long_options (drop 2 opt)"
    by (auto simp: list_all_iff)
  then show thesis using that [of "drop 2 opt"] append_take_drop_id [of 2 opt] by simp
qed

lemma getopt_loop_option:
  assumes "opt \<in> set (argument_options env) \<or> opt \<in> set flag_options \<and> arg = []"
    and "getopt_loop (length rest) long_options rest = Inr (ps, r)"
  shows "getopt_loop (length (option_words env (joined, opt, arg) @ rest)) long_options
      (option_words env (joined, opt, arg) @ rest) = Inr ((opt, arg) # ps, r)"
proof (cases "opt \<in> set (argument_options env)")
  case True
  then obtain name where name: "opt = ''--'' @ name" "name \<noteq> []" "long_value long_options name"
    by (rule argument_options_listed)
  have "getopt_loop (Suc (length rest)) long_options rest = Inr (ps, r)"
    using getopt_fuel [of rest "Suc (length rest)" long_options] assms(2) by simp
  then show ?thesis
    using do_longs_value [OF name(3)] name(1,2) assms(2) True by (cases joined) (simp_all add: numeral_2_eq_2)
next
  case False
  with assms(1) have "opt \<in> set flag_options" "arg = []" by simp_all
  moreover from this(1) obtain name where name: "opt = ''--'' @ name" "name \<noteq> []" "long_flag long_options name"
    by (rule flag_options_listed)
  ultimately show ?thesis
    using do_longs_flag [OF name(3)] name(1,2) assms(2) False by (simp add: numeral_2_eq_2)
qed

text \<open>C11: A command line has the effect of its options, one after the other: every option that
  \<open>parse_command_line\<close> has a branch for is known to \<open>getopt\<close>, those whose branch reads an argument with one,
  which may be in the same word after an equals sign or in the next word, and the others without; the
  branches are run on the default settings in the order of the command line, and the words from the first
  one that is not an option on are the sources.\<close>

theorem command_line_settings:
  assumes "\<forall>(joined, opt, arg) \<in> set settings.
      opt \<in> set (argument_options env) \<or> opt \<in> set flag_options \<and> arg = []"
    and "sources = [] \<or> \<not> startswith (hd sources) ''-''"
  shows "parse_command_line env (concat (map (option_words env) settings) @ sources) =
    bindE (foldE (apply_option env) (map snd settings) (SymbioticOptions env)) (\<lambda>s.
    bindE (check_conflicts s) (\<lambda>_. Inr (s, sources)))"
proof -
  have "getopt_loop (length (concat (map (option_words env) settings) @ sources)) long_options
      (concat (map (option_words env) settings) @ sources) = Inr (map snd settings, sources)"
    using assms(1)
  proof (induction settings)
    case Nil
    then show ?case using assms(2) by (cases sources) auto
  next
    case (Cons q qs)
    obtain joined opt arg where q: "q = (joined, opt, arg)" by (cases q)
    with Cons.prems have "opt \<in> set (argument_options env) \<or> opt \<in> set flag_options \<and> arg = []" by simp
    from getopt_loop_option [OF this, of "concat (map (option_words env) qs) @ sources" "map snd qs" sources joined] Cons
    show ?case by (simp add: q del: option_words.simps)
  qed
  then show ?thesis by (simp add: parse_command_line_def getopt_def)
qed

definition example_os :: os_env where
  "example_os = \<lparr>os_cwd = ''/tmp'', os_abspath = id, os_expanduser = id, os_isfile = \<lambda>_. False,
      os_isdir = \<lambda>_. True, os_has_version = True\<rparr>"

theorem command_line_settings_witness:
  "parse_command_line example_os [''--timeout=10'', ''--prp'', ''memsafety'', ''--no-slice'', ''a.c''] =
    Inr (SymbioticOptions example_os\<lparr>timeout := 10, propertystr := Some ''memsafety'', noslice := True\<rparr>, [''a.c''])"
proof -
  let ?settings = "[(True, ''--timeout'', ''10''), (False, ''--prp'', ''memsafety''), (False, ''--no-slice'', [])]"
  have ten: "py_int ''10'' = Some 10" by code_simp
  have args: "{''--timeout'', ''--prp''} \<subseteq> set (argument_options example_os)" "''--no-slice'' \<notin> set (argument_options example_os)"
    by (simp_all add: argument_options_def value_updates_def)
  have flag: "''--no-slice'' \<in> set flag_options" by (simp add: flag_options_def flag_updates_def)
  have run: "parse_command_line example_os (concat (map (option_words example_os) ?settings) @ [''a.c'']) =
      bindE (foldE (apply_option example_os) (map snd ?settings) (SymbioticOptions example_os)) (\<lambda>s.
      bindE (check_conflicts s) (\<lambda>_. Inr (s, [''a.c''])))"
    by (rule command_line_settings) (use args flag in auto)
  have line: "concat (map (option_words example_os) ?settings) @ [''a.c''] =
      [''--timeout=10'', ''--prp'', ''memsafety'', ''--no-slice'', ''a.c'']" using args by simp
  show ?thesis
    unfolding run [unfolded line]
    by (simp add: apply_option_def apply_checked_def flag_updates_def value_updates_def set_prp_def ten
        check_conflicts_def SymbioticOptions_def)
qed

end
