(* ===== verification/Process.thy ===== *)
theory Process
  imports Prelude
begin

text \<open>
  Running external programs: the watches that read the output of a process
  (\<open>utils/watch.py\<close> and the watch classes of \<open>transform.py\<close> and \<open>verifier.py\<close>) and
  \<open>ProcessRunner\<close> (\<open>utils/process.py\<close>) with its class attribute \<open>current_process\<close>. The
  programs themselves are not part of the repository: the argument \<open>world\<close> says what a command
  prints and returns after the commands run so far. The lemmas show what a bounded watch holds
  and that no process is left behind unless decoding its output fails.
\<close>

section \<open>Decoding\<close>

text \<open>Whether \<open>bytes.decode('utf-8')\<close> accepts the bytes.\<close>

definition cont_byte :: "nat \<Rightarrow> bool" where
  "cont_byte b \<longleftrightarrow> 128 \<le> b \<and> b \<le> 191"

fun utf8_ok :: "nat list \<Rightarrow> bool" where
  "utf8_ok [] = True"
| "utf8_ok [a] = (a < 128)"
| "utf8_ok [a, b] = (a < 128 \<and> b < 128 \<or> 194 \<le> a \<and> a \<le> 223 \<and> cont_byte b)"
| "utf8_ok [a, b, c] =
     (a < 128 \<and> utf8_ok [b, c] \<or>
      194 \<le> a \<and> a \<le> 223 \<and> cont_byte b \<and> c < 128 \<or>
      224 \<le> a \<and> a \<le> 239 \<and> cont_byte b \<and> cont_byte c \<and>
        (a = 224 \<longrightarrow> 160 \<le> b) \<and> (a = 237 \<longrightarrow> b \<le> 159))"
| "utf8_ok (a # b # c # d # r) =
     (a < 128 \<and> utf8_ok (b # c # d # r) \<or>
      194 \<le> a \<and> a \<le> 223 \<and> cont_byte b \<and> utf8_ok (c # d # r) \<or>
      224 \<le> a \<and> a \<le> 239 \<and> cont_byte b \<and> cont_byte c \<and>
        (a = 224 \<longrightarrow> 160 \<le> b) \<and> (a = 237 \<longrightarrow> b \<le> 159) \<and> utf8_ok (d # r) \<or>
      240 \<le> a \<and> a \<le> 244 \<and> cont_byte b \<and> cont_byte c \<and> cont_byte d \<and>
        (a = 240 \<longrightarrow> 144 \<le> b) \<and> (a = 244 \<longrightarrow> b \<le> 143) \<and> utf8_ok r)"

definition decodable :: "string \<Rightarrow> bool" where
  "decodable s = utf8_ok (map of_char s)"

text \<open>The text is represented by its bytes; \<open>UnicodeDecodeError\<close> is a \<open>ValueError\<close>.\<close>

definition decode :: "string \<Rightarrow> exn + string" where
  "decode s = (if decodable s then Inr s else Inl ValueError)"

text \<open>\<open>strip\<close> and \<open>lstrip\<close> of \<open>bytes\<close>, which know less white space than those of \<open>str\<close>.\<close>

definition is_byte_space :: "char \<Rightarrow> bool" where
  "is_byte_space c = (let n = of_char c :: nat in n = 32 \<or> 9 \<le> n \<and> n \<le> 13)"

definition lstrip_bytes :: "string \<Rightarrow> string" where
  "lstrip_bytes s = dropWhile is_byte_space s"

definition strip_bytes :: "string \<Rightarrow> string" where
  "strip_bytes s = rev (dropWhile is_byte_space (rev (lstrip_bytes s)))"

lemma utf8_ok_ascii: "\<forall>b \<in> set bs. b < 128 \<Longrightarrow> utf8_ok bs"
  by (induction bs rule: utf8_ok.induct) auto

section \<open>Watches\<close>

text \<open>The classes: the base class, \<open>GrepWatch\<close> with its pattern (the patterns the sources use
  are literal texts), and the classes that only pass lines on.\<close>

datatype watch_class =
    PlainWatch | GrepWatch string | DbgWatch | PrepareWatch | SlicerWatch
  | InstrumentationWatch | PrintWatch | CompileWatch bool | UnsuppWatch | ToolWatch

text \<open>\<open>w_maxlines\<close> is \<open>None\<close> for no limit and \<open>Some 0\<close> for a watch that does not buffer.\<close>

record watch =
  w_class :: watch_class
  w_maxlines :: "nat option"
  w_buff :: "string list"
  w_result :: "string list"
  w_ok :: bool

definition new_watch :: "watch_class \<Rightarrow> nat option \<Rightarrow> watch" where
  "new_watch cls limit =
     \<lparr>w_class = cls, w_maxlines = limit, w_buff = [], w_result = [], w_ok = True\<rparr>"

definition is_buffering :: "watch \<Rightarrow> bool" where
  "is_buffering w = (w_maxlines w \<noteq> Some 0)"

text \<open>\<open>deque(maxlen)\<close>: appending to a full buffer drops the oldest lines.\<close>

definition last_n :: "nat option \<Rightarrow> 'a list \<Rightarrow> 'a list" where
  "last_n limit xs = (case limit of None \<Rightarrow> xs | Some n \<Rightarrow> drop (length xs - n) xs)"

definition buff_append :: "string \<Rightarrow> watch \<Rightarrow> watch" where
  "buff_append line w =
     (if is_buffering w then w\<lparr>w_buff := last_n (w_maxlines w) (w_buff w @ [line])\<rparr> else w)"

text \<open>The pattern of \<open>UnsuppWatch\<close>, \<open>.*call to .* is unsupported.*\<close>\<close>

definition unsupported_call :: "string \<Rightarrow> bool" where
  "unsupported_call s =
     (case find_pos ''call to '' s of None \<Rightarrow> False
      | Some i \<Rightarrow> is_in '' is unsupported'' (drop (i + 8) s))"

text \<open>The methods \<open>parse\<close>; the messages they print are left out, the decoding is not.\<close>

definition watch_parse :: "string \<Rightarrow> watch \<Rightarrow> exn + watch" where
  "watch_parse line w =
     (case w_class w of
        PlainWatch \<Rightarrow> Inr w
      | GrepWatch pattern \<Rightarrow>
          bindE (decode line) (\<lambda>s.
          Inr (if is_in pattern s then w\<lparr>w_result := w_result w @ [line]\<rparr> else w))
      | DbgWatch \<Rightarrow> bindE (decode line) (\<lambda>_. Inr w)
      | PrepareWatch \<Rightarrow> bindE (decode line) (\<lambda>_. Inr w)
      | SlicerWatch \<Rightarrow> bindE (decode line) (\<lambda>_. Inr w)
      | InstrumentationWatch \<Rightarrow> bindE (decode line) (\<lambda>_. Inr w)
      | PrintWatch \<Rightarrow> bindE (decode line) (\<lambda>_. Inr w)
      | CompileWatch nodbg \<Rightarrow>
          if is_in ''error:'' line \<or> \<not> nodbg then bindE (decode line) (\<lambda>_. Inr w) else Inr w
      | UnsuppWatch \<Rightarrow>
          bindE (decode line) (\<lambda>uline. Inr (w\<lparr>w_ok := \<not> unsupported_call uline\<rparr>))
      | ToolWatch \<Rightarrow> Inr w)"

definition put_line :: "string \<Rightarrow> watch \<Rightarrow> exn + watch" where
  "put_line line w = watch_parse line (buff_append line w)"

definition get_lines :: "watch \<Rightarrow> string list" where
  "get_lines w =
     (case w_class w of
        GrepWatch _ \<Rightarrow> w_result w
      | _ \<Rightarrow> if is_buffering w then w_buff w else [])"

section \<open>ProcessRunner\<close>

text \<open>The time limit is an alarm whose handler raises \<open>Timeout\<close>; \<open>Interrupt\<close> is what a keyboard interrupt
  sends. Children run in process groups of their own, so signals reach the script only.\<close>

datatype signal = Alarm | Interrupt

fun signal_exn :: "signal \<Rightarrow> exn" where
  "signal_exn Alarm = Timeout"
| "signal_exn Interrupt = KeyboardInterrupt"

text \<open>What the environment does: the output lines and the exit status of a command, given the
  commands run before (\<open>None\<close> when it cannot be started), which files exist then, and a signal that
  arrives while the command runs, with the number of lines that were read by then.\<close>

record world =
  exec :: "string list list \<Rightarrow> string list \<Rightarrow> (string list \<times> int) option"
  isfile :: "string list list \<Rightarrow> string \<Rightarrow> bool"
  abspath :: "string \<Rightarrow> string"
  w_signal :: "string list list \<Rightarrow> string list \<Rightarrow> (nat \<times> signal) option"

text \<open>The global state: \<open>ProcessRunner.current_process\<close>, whether that program is alive, whether \<open>last_time\<close> of
  \<open>utils.py\<close> is set, and the commands that were run.\<close>

record sys =
  s_running :: bool
  s_alive :: bool
  s_timer :: bool
  s_log :: "string list list"

text \<open>The loop over the output of the process; the flag says that the watch stopped it.\<close>

fun feed :: "string list \<Rightarrow> watch \<Rightarrow> exn + watch \<times> bool" where
  "feed [] w = Inr (w, False)"
| "feed (line # ls) w =
     (if line = [] then Inr (w, False)
      else bindE (put_line line w) (\<lambda>w'. if w_ok w' then feed ls w' else Inr (w', True)))"

definition process_ended :: "('a sys_scheme, unit) cmd" where
  "process_ended = upd (\<lambda>s. s\<lparr>s_running := False, s_alive := False\<rparr>)"

definition run_process ::
  "world \<Rightarrow> string list \<Rightarrow> watch \<Rightarrow> ('a sys_scheme, int option \<times> watch) cmd" where
  "run_process W cmd w =
     with_state (\<lambda>s.
       sq (assertc (\<not> s_running s))
         (case exec W (s_log s) cmd of
            None \<Rightarrow> throw (SymbioticException (join '' '' cmd @ [CHR 0x0A]))
          | Some (lines, status) \<Rightarrow>
              sq (upd (\<lambda>s. s\<lparr>s_running := True, s_alive := True, s_log := s_log s @ [cmd]\<rparr>))
                (case w_signal W (s_log s) cmd of
                   None \<Rightarrow>
                     bnd (lift (feed lines w)) (\<lambda>(w', stopped).
                     sq process_ended (ret (if stopped then None else Some status, w')))
                 | Some (n, sg) \<Rightarrow>
                     bnd (lift (feed (take n lines) w)) (\<lambda>(w', stopped).
                     if stopped then sq process_ended (ret (None, w')) else throw (signal_exn sg)))))"

text \<open>\<open>terminate\<close>, \<open>kill\<close> and \<open>kill_wait\<close> of \<open>Symbiotic\<close>: the registered program gets a \<open>SIGTERM\<close> and then
  \<open>SIGKILL\<close>s until it has ended; it stays registered.\<close>

definition kill_running :: "('a sys_scheme, unit) cmd" where
  "kill_running = with_state (\<lambda>s. onlyif (s_running s) (upd (s_alive_update (\<lambda>_. False))))"

text \<open>\<open>for line in lines: print_stderr(line.decode('utf-8'))\<close>\<close>

definition print_lines :: "string list \<Rightarrow> ('a sys_scheme, unit) cmd" where
  "print_lines lines = bnd (lift (mapE decode lines)) (\<lambda>_. ret ())"

definition runcmd ::
  "world \<Rightarrow> string list \<Rightarrow> watch \<Rightarrow> string \<Rightarrow> ('a sys_scheme, watch) cmd" where
  "runcmd W cmd w err_msg =
     bnd (run_process W cmd w) (\<lambda>(status, w').
     if status \<noteq> Some 0 then sq (print_lines (get_lines w')) (throw (SymbioticException err_msg))
     else ret w')"

definition process_grep ::
  "world \<Rightarrow> string list \<Rightarrow> string \<Rightarrow> ('a sys_scheme, int option \<times> string list) cmd" where
  "process_grep W cmd pattern =
     bnd (run_process W cmd (new_watch (GrepWatch pattern) (Some 0))) (\<lambda>(status, w).
     ret (status, get_lines w))"

definition restart_counting_time :: "('a sys_scheme, unit) cmd" where
  "restart_counting_time = upd (s_timer_update (\<lambda>_. True))"

definition print_elapsed_time :: "('a sys_scheme, unit) cmd" where
  "print_elapsed_time = with_state (\<lambda>s. assertc (s_timer s))"

section \<open>The buffer of a watch\<close>

text \<open>A buffer with a limit: after any number of insertions it holds the newest items.\<close>

locale bounded_buffer =
  fixes put :: "'x \<Rightarrow> 'b \<Rightarrow> 'b" and items :: "'b \<Rightarrow> 'x list" and limit :: "'b \<Rightarrow> nat option"
  assumes items_put: "items (put x b) = last_n (limit b) (items b @ [x])"
    and limit_put: "limit (put x b) = limit b"
begin

lemma last_n_append: "last_n n (last_n n xs @ ys) = last_n n (xs @ ys)"
proof (cases n)
  case (Some k)
  then show ?thesis by (cases "k \<le> length xs") (simp_all add: last_n_def add.commute)
qed (simp add: last_n_def)

lemma limit_fold: "limit (fold put xs b) = limit b"
  by (induction xs arbitrary: b) (simp_all add: limit_put)

lemma items_fold:
  assumes "items b = last_n (limit b) (items b)"
  shows "items (fold put xs b) = last_n (limit b) (items b @ xs)"
  using assms
proof (induction xs arbitrary: b)
  case (Cons x xs)
  have "items (put x b) = last_n (limit (put x b)) (items (put x b))"
    using last_n_append [of "limit b" "items b @ [x]" "[]"] by (simp add: items_put limit_put)
  from Cons.IH [OF this] show ?case
    by (simp add: items_put limit_put last_n_append)
qed simp

end

definition buffered :: "watch \<Rightarrow> string list" where
  "buffered w = (if is_buffering w then w_buff w else [])"

interpretation watch_buffer: bounded_buffer buff_append buffered w_maxlines
  by unfold_locales (auto simp: buff_append_def buffered_def is_buffering_def last_n_def)

lemma watch_parse_keeps:
  assumes "watch_parse line w = Inr w'"
  shows "w_buff w' = w_buff w" and "w_maxlines w' = w_maxlines w" and "w_class w' = w_class w"
  using assms by (auto simp: watch_parse_def bindE_eq_Inr split: watch_class.splits if_splits)

lemma buff_append_keeps [simp]:
  "w_class (buff_append l w) = w_class w" "w_maxlines (buff_append l w) = w_maxlines w"
  "w_ok (buff_append l w) = w_ok w"
  by (simp_all add: buff_append_def)

lemma buff_append_cong:
  "w_buff v = w_buff w \<Longrightarrow> w_maxlines v = w_maxlines w \<Longrightarrow>
    w_buff (buff_append l v) = w_buff (buff_append l w)"
  by (simp add: buff_append_def is_buffering_def)

lemma fold_buff_cong:
  assumes "w_buff a = w_buff b" and "w_maxlines a = w_maxlines b"
  shows "w_buff (fold buff_append ls a) = w_buff (fold buff_append ls b)"
  using assms
proof (induction ls arbitrary: a b)
  case (Cons l ls)
  have "w_maxlines (buff_append l a) = w_maxlines (buff_append l b)"
    using Cons.prems(2) by simp
  from Cons.IH [OF buff_append_cong [OF Cons.prems] this] show ?case by simp
qed simp

lemma feed_buffer:
  assumes "feed lines w = Inr (w', stopped)"
  shows "\<exists>read. prefix read lines \<and> (\<not> stopped \<and> [] \<notin> set lines \<longrightarrow> read = lines) \<and>
    w_buff w' = w_buff (fold buff_append read w) \<and> w_maxlines w' = w_maxlines w \<and>
    w_class w' = w_class w"
  using assms
proof (induction lines arbitrary: w)
  case Nil
  then show ?case by simp
next
  case (Cons l ls)
  show ?case
  proof (cases "l = []")
    case True
    with Cons.prems show ?thesis by (intro exI [of _ "[]"]) simp
  next
    case False
    with Cons.prems obtain w1 where w1: "put_line l w = Inr w1"
      and rest: "(if w_ok w1 then feed ls w1 else Inr (w1, True)) = Inr (w', stopped)"
      by (auto simp: bindE_eq_Inr)
    have k: "w_buff w1 = w_buff (buff_append l w)" "w_maxlines w1 = w_maxlines w"
      "w_class w1 = w_class w"
      using watch_parse_keeps [OF w1 [unfolded put_line_def]] by simp_all
    show ?thesis
    proof (cases "w_ok w1")
      case True
      with rest Cons.IH obtain read where r: "prefix read ls"
        "\<not> stopped \<and> [] \<notin> set ls \<longrightarrow> read = ls" "w_buff w' = w_buff (fold buff_append read w1)"
        "w_maxlines w' = w_maxlines w1" "w_class w' = w_class w1"
        by auto
      have "w_buff w' = w_buff (fold buff_append (l # read) w)"
        using r(3) fold_buff_cong [of w1 "buff_append l w" read] k by simp
      moreover have "prefix (l # read) (l # ls)" using r(1) by simp
      ultimately show ?thesis using r k by (intro exI [of _ "l # read"]) simp
    next
      case False
      with rest k show ?thesis by (intro exI [of _ "[l]"]) auto
    qed
  qed
qed

section \<open>No process is left behind\<close>

text \<open>The invariant of the global state between two commands.\<close>

definition idle :: "'a sys_scheme \<Rightarrow> bool" where
  "idle s \<longleftrightarrow> \<not> s_running s \<and> \<not> s_alive s"

text \<open>A world whose programs print text that can be decoded, and in which no signal arrives.\<close>

definition clean_world :: "world \<Rightarrow> bool" where
  "clean_world W \<longleftrightarrow> (\<forall>log cmd lines status.
     w_signal W log cmd = None \<and>
     (exec W log cmd = Some (lines, status) \<longrightarrow> (\<forall>l \<in> set lines. decodable l)))"

lemma put_line_clean: "decodable l \<Longrightarrow> \<exists>w'. put_line l w = Inr w'"
  by (auto simp: put_line_def watch_parse_def decode_def split: watch_class.split)

lemma feed_clean: "\<forall>l \<in> set lines. decodable l \<Longrightarrow> \<exists>r. feed lines w = Inr r"
proof (induction lines arbitrary: w)
  case (Cons l ls)
  then show ?case using put_line_clean [of l w] by fastforce
qed (use feed.simps(1) in blast)

text \<open>The lines that are read.\<close>

definition read_lines :: "world \<Rightarrow> string list list \<Rightarrow> string list \<Rightarrow> string list \<Rightarrow> string list" where
  "read_lines W log cmd lines = (case w_signal W log cmd of None \<Rightarrow> lines | Some (n, sg) \<Rightarrow> take n lines)"

lemma read_lines_subset: "set (read_lines W log cmd lines) \<subseteq> set lines"
  by (auto simp: read_lines_def split: option.split dest: in_set_takeD)

lemma run_process_cases:
  obtains (busy) "s_running s" and "run_process W cmd w s = (Inl AssertionError, s)"
  | (no_start) "exec W (s_log s) cmd = None"
      and "run_process W cmd w s = (Inl (SymbioticException (join '' '' cmd @ [CHR 0x0A])), s)"
  | (failed) lines status e where "\<not> s_running s" "exec W (s_log s) cmd = Some (lines, status)"
      and "feed (read_lines W (s_log s) cmd lines) w = Inl e \<or>
        (\<exists>n sg. w_signal W (s_log s) cmd = Some (n, sg) \<and> e = signal_exn sg)"
      and "run_process W cmd w s = (Inl e, s\<lparr>s_running := True, s_alive := True, s_log := s_log s @ [cmd]\<rparr>)"
  | (ran) lines status w' stopped where "\<not> s_running s"
      and "exec W (s_log s) cmd = Some (lines, status)"
      and "feed (read_lines W (s_log s) cmd lines) w = Inr (w', stopped)"
      and "w_signal W (s_log s) cmd = None \<or> stopped"
      and "run_process W cmd w s =
        (Inr (if stopped then None else Some status, w'),
         s\<lparr>s_running := False, s_alive := False, s_log := s_log s @ [cmd]\<rparr>)"
proof (cases "s_running s")
  case True
  then show ?thesis by (intro busy) (simp_all add: run_process_def cmd_simps)
next
  case False
  note defs = run_process_def process_ended_def read_lines_def cmd_simps sq_run bnd_def
  show ?thesis
  proof (cases "exec W (s_log s) cmd")
    case None
    then show ?thesis using False by (intro no_start) (simp_all add: run_process_def cmd_simps)
  next
    case (Some r)
    obtain lines status where r: "r = (lines, status)" by (cases r)
    show ?thesis
    proof (cases "feed (read_lines W (s_log s) cmd lines) w")
      case (Inl e)
      then show ?thesis using False Some r
        by (intro failed [of lines status e]) (auto simp: defs split: option.splits)
    next
      case (Inr x)
      obtain w' stopped where x: "x = (w', stopped)" by (cases x)
      show ?thesis
      proof (cases "w_signal W (s_log s) cmd = None \<or> stopped")
        case True
        then show ?thesis using False Some r Inr x
          by (intro ran [of lines status w' stopped]) (auto simp: defs split: option.splits)
      next
        case signal: False
        then obtain n sg where "w_signal W (s_log s) cmd = Some (n, sg)" by auto
        then show ?thesis using False Some r Inr x signal
          by (intro failed [of lines status "signal_exn sg"]) (auto simp: defs)
      qed
    qed
  qed
qed

lemma keeps_run_process [inv_intros]: "clean_world W \<Longrightarrow> keeps idle (run_process W cmd w)"
proof (rule keepsI)
  fix s :: "'a sys_scheme" assume c: "clean_world W" and i: "idle s"
  show "idle (snd (run_process W cmd w s))"
  proof (cases rule: run_process_cases [of s W cmd w])
    case (failed lines status e)
    have none: "w_signal W (s_log s) cmd = None" "\<forall>l \<in> set lines. decodable l"
      using c failed(2) unfolding clean_world_def by blast+
    then obtain r where "feed lines w = Inr r" using feed_clean by blast
    with failed none show ?thesis by (simp add: read_lines_def)
  next
    case busy
    with i show ?thesis by (simp add: idle_def)
  next
    case no_start
    with i show ?thesis by simp
  next
    case (ran lines status w' stopped)
    then show ?thesis by (simp add: idle_def)
  qed
qed

lemma keeps_print_lines [inv_intros]: "keeps I (print_lines ls)"
  unfolding print_lines_def by (intro inv_intros)

lemma keeps_runcmd [inv_intros]: "clean_world W \<Longrightarrow> keeps idle (runcmd W cmd w msg)"
  unfolding runcmd_def by (auto intro!: inv_intros split: prod.split)

lemma keeps_process_grep [inv_intros]: "clean_world W \<Longrightarrow> keeps idle (process_grep W cmd p)"
  unfolding process_grep_def by (auto intro!: inv_intros split: prod.split)

lemma keeps_restart [inv_intros]: "keeps idle restart_counting_time"
  unfolding restart_counting_time_def by (intro inv_intros) (simp add: idle_def)

lemma keeps_elapsed [inv_intros]: "keeps I print_elapsed_time"
  unfolding print_elapsed_time_def by (intro inv_intros)

section \<open>Properties\<close>

text \<open>C12: A buffering watch that read the whole output of a process holds its newest lines,
  as many as its limit allows and in order; this is what the messages about failed commands
  show.\<close>

theorem watch_holds_last_lines:
  assumes "feed lines (new_watch cls limit) = Inr (w', False)" and "[] \<notin> set lines"
    and "limit \<noteq> Some 0" and "\<And>p. cls \<noteq> GrepWatch p"
  shows "get_lines w' = last_n limit lines"
proof -
  let ?w = "new_watch cls limit"
  from feed_buffer [OF assms(1)] assms(2)
  have b: "w_buff w' = w_buff (fold buff_append lines ?w)" "w_maxlines w' = limit" "w_class w' = cls"
    by (auto simp: new_watch_def)
  have "buffered (fold buff_append lines ?w) = last_n limit lines"
    using watch_buffer.items_fold [of ?w lines] assms(3)
    by (simp add: buffered_def new_watch_def is_buffering_def last_n_def split: option.splits)
  moreover have "is_buffering (fold buff_append lines ?w)"
    using watch_buffer.limit_fold [of lines ?w] assms(3) by (simp add: is_buffering_def new_watch_def)
  ultimately show ?thesis
    using b assms(3,4) by (simp add: get_lines_def buffered_def is_buffering_def split: watch_class.split)
qed

theorem watch_holds_last_lines_witness:
  "\<exists>w'. feed [''a'', ''b'', ''c''] (new_watch SlicerWatch (Some 2)) = Inr (w', False) \<and>
    get_lines w' = [''b'', ''c'']"
proof -
  obtain w' where f: "feed [''a'', ''b'', ''c''] (new_watch SlicerWatch (Some 2)) = Inr (w', False)"
    by (simp add: put_line_def watch_parse_def decode_def decodable_def new_watch_def
        buff_append_def is_buffering_def last_n_def)
  then show ?thesis using watch_holds_last_lines [OF f] by (simp add: last_n_def)
qed

text \<open>\<open>ProcessRunner.run\<close> started without a running process: it never finds one (its
  assertion holds); it leaves none behind when it returns and when the program cannot be
  started; a watch whose parser fails and a signal are the only cases in which the process stays
  registered, and alive.\<close>

lemma run_process_current:
  assumes "\<not> s_running s"
  shows "case run_process W cmd w s of
      (Inr (status, w'), s') \<Rightarrow> idle s' \<and> s_log s' = s_log s @ [cmd] \<and>
        (\<exists>lines st stopped. exec W (s_log s) cmd = Some (lines, st) \<and>
          feed (read_lines W (s_log s) cmd lines) w = Inr (w', stopped) \<and>
          status = (if stopped then None else Some st))
    | (Inl e, s') \<Rightarrow> (exec W (s_log s) cmd = None \<and> s' = s) \<or>
        (\<exists>lines st. exec W (s_log s) cmd = Some (lines, st) \<and> s_running s' \<and> s_alive s' \<and>
          (feed (read_lines W (s_log s) cmd lines) w = Inl e \<or>
           (\<exists>n sg. w_signal W (s_log s) cmd = Some (n, sg) \<and> e = signal_exn sg)))"
  using assms by (cases rule: run_process_cases [of s W cmd w]) (auto simp: idle_def)

end
