(* ===== verification/Tools.thy ===== *)
theory Tools
  imports Options Property
begin

text \<open>
  The tools that the verification phase runs (\<open>targets/\<close>): the defaults of
  \<open>SymbioticBaseTool\<close> (\<open>tool.py\<close>), KLEE with and without full instrumentation
  (\<open>kleebase.py\<close>, \<open>klee.py\<close>), Witch-KLEE (\<open>witchklee.py\<close>), slowbeast, and the tool info objects
  of the competition modes (\<open>svcomp.py\<close>, \<open>testcomp.py\<close>). A method is a function of the settings
  \<open>s\<close> and the property \<open>p\<close> (\<open>self._options\<close> and \<open>self._options.property\<close>). What the compiler
  phase and the verifier use of a tool is the record \<open>tool\<close>; optional methods (the ones tested
  with \<open>hasattr\<close>) are options, or flags for those that only write files. The regular expressions of the sources are sequences of literal
  texts separated by \<open>.*\<close>.
\<close>

section \<open>Results (\<open>benchexec/result.py\<close>)\<close>

definition RESULT_DONE :: string where "RESULT_DONE = ''done''"
definition RESULT_UNKNOWN :: string where "RESULT_UNKNOWN = ''unknown''"
definition RESULT_ERROR :: string where "RESULT_ERROR = ''ERROR''"
definition RESULT_TRUE_PROP :: string where "RESULT_TRUE_PROP = ''true''"
definition RESULT_FALSE_REACH :: string where "RESULT_FALSE_REACH = ''false(unreach-call)''"
definition RESULT_FALSE_TERMINATION :: string where
  "RESULT_FALSE_TERMINATION = ''false(termination)''"
definition RESULT_FALSE_OVERFLOW :: string where "RESULT_FALSE_OVERFLOW = ''false(no-overflow)''"
definition RESULT_FALSE_DEREF :: string where "RESULT_FALSE_DEREF = ''false(valid-deref)''"
definition RESULT_FALSE_FREE :: string where "RESULT_FALSE_FREE = ''false(valid-free)''"
definition RESULT_FALSE_MEMTRACK :: string where
  "RESULT_FALSE_MEMTRACK = ''false(valid-memtrack)''"
definition RESULT_FALSE_MEMCLEANUP :: string where
  "RESULT_FALSE_MEMCLEANUP = ''false(valid-memcleanup)''"

lemmas result_defs = RESULT_DONE_def RESULT_UNKNOWN_def RESULT_ERROR_def RESULT_TRUE_PROP_def
  RESULT_FALSE_REACH_def RESULT_FALSE_TERMINATION_def RESULT_FALSE_OVERFLOW_def
  RESULT_FALSE_DEREF_def RESULT_FALSE_FREE_def RESULT_FALSE_MEMTRACK_def
  RESULT_FALSE_MEMCLEANUP_def

section \<open>Patterns\<close>

text \<open>\<open>Search [a, b]\<close> is the regular expression \<open>.*a.*b.*\<close>, \<open>AnyThen [a, b]\<close> is \<open>.a.*b.*\<close>.
  The texts of a \<open>Search\<close> are found from left to right.\<close>

datatype pattern = Search "string list" | AnyThen "string list"

fun chunks_in :: "string list \<Rightarrow> string \<Rightarrow> bool" where
  "chunks_in [] s = True"
| "chunks_in (c # cs) s =
     (case find_pos c s of None \<Rightarrow> False | Some i \<Rightarrow> chunks_in cs (drop (i + length c) s))"

definition pattern_match :: "pattern \<Rightarrow> string \<Rightarrow> bool" where
  "pattern_match pat s =
     (case pat of
        Search cs \<Rightarrow> chunks_in cs s
      | AnyThen [] \<Rightarrow> s \<noteq> []
      | AnyThen (c # cs) \<Rightarrow>
          s \<noteq> [] \<and> startswith (drop 1 s) c \<and> chunks_in cs (drop (Suc (length c)) s))"

text \<open>What \<open>.*a.*b.*\<close> means: the texts occur one after the other, without overlap.\<close>

fun chunks_spec :: "string list \<Rightarrow> string \<Rightarrow> bool" where
  "chunks_spec [] s \<longleftrightarrow> True"
| "chunks_spec (c # cs) s \<longleftrightarrow> (\<exists>u v. s = u @ c @ v \<and> chunks_spec cs v)"

lemma find_pos_Some:
  "find_pos p s = Some i \<Longrightarrow> s = take i s @ p @ drop (i + length p) s"
proof (induction s arbitrary: i)
  case Nil
  then show ?case by (cases p) (auto split: if_splits)
next
  case (Cons x xs)
  show ?case
  proof (cases "prefix p (x # xs)")
    case True
    with Cons.prems have "i = 0" by simp
    with True show ?thesis by (auto simp: prefix_def)
  next
    case False
    with Cons.prems obtain j where "find_pos p xs = Some j" "i = Suc j" by auto
    with Cons.IH show ?thesis by simp
  qed
qed

lemma find_pos_prefix: "prefix p s \<Longrightarrow> find_pos p s = Some 0"
  by (cases s) auto

lemma find_pos_least:
  "s = u @ p @ v \<Longrightarrow> \<exists>i. find_pos p s = Some i \<and> i \<le> length u"
proof (induction u arbitrary: s)
  case Nil
  then have "find_pos p s = Some 0" by (intro find_pos_prefix) simp
  then show ?case by simp
next
  case (Cons x u)
  then show ?case by (cases "prefix p s") auto
qed

lemma chunks_spec_drop:
  assumes "chunks_spec cs (drop n s)"
  shows "chunks_spec cs s"
proof (cases cs)
  case (Cons c r)
  with assms obtain u v where uv: "drop n s = u @ c @ v" "chunks_spec r v" by auto
  have "s = take n s @ drop n s" by simp
  with uv(1) have "s = (take n s @ u) @ c @ v" by simp
  with Cons uv(2) show ?thesis unfolding Cons chunks_spec.simps by blast
qed simp

lemma chunks_in_spec: "chunks_in cs s \<longleftrightarrow> chunks_spec cs s"
proof (induction cs arbitrary: s)
  case (Cons c cs)
  show ?case
  proof
    assume "chunks_in (c # cs) s"
    then obtain i where "find_pos c s = Some i" "chunks_in cs (drop (i + length c) s)"
      by (auto split: option.splits)
    with Cons find_pos_Some show "chunks_spec (c # cs) s" by fastforce
  next
    assume "chunks_spec (c # cs) s"
    then obtain u v where s: "s = u @ c @ v" and v: "chunks_spec cs v" by auto
    from find_pos_least [OF s] obtain i where i: "find_pos c s = Some i" "i \<le> length u" by blast
    have "v = drop (length u - i) (drop (i + length c) s)"
      using i(2) s by simp
    with v have "chunks_spec cs (drop (i + length c) s)" using chunks_spec_drop by metis
    with i(1) Cons show "chunks_in (c # cs) s" by simp
  qed
qed simp

text \<open>\<open>str(line)\<close> of a line of output, which is a \<open>bytes\<close> object.\<close>

definition hex_digit :: "nat \<Rightarrow> char" where
  "hex_digit n = char_of (if n < 10 then 48 + n else 87 + n)"

definition repr_byte :: "char \<Rightarrow> char \<Rightarrow> string" where
  "repr_byte quote c =
     (let n = of_char c :: nat in
      if c = quote \<or> n = 92 then [CHR 0x5C, c]
      else if n = 9 then [CHR 0x5C, CHR ''t'']
      else if n = 10 then [CHR 0x5C, CHR ''n'']
      else if n = 13 then [CHR 0x5C, CHR ''r'']
      else if n < 32 \<or> 127 \<le> n then [CHR 0x5C, CHR ''x'', hex_digit (n div 16), hex_digit (n mod 16)]
      else [c])"

definition bytes_repr :: "string \<Rightarrow> string" where
  "bytes_repr b =
     (let q = (if CHR 0x27 \<in> set b \<and> CHR 0x22 \<notin> set b then CHR 0x22 else CHR 0x27)
      in CHR ''b'' # q # concat (map (repr_byte q) b) @ [q])"

section \<open>The base class\<close>

text \<open>\<open>a or b\<close> for an optional string.\<close>

definition or_str :: "string option \<Rightarrow> string \<Rightarrow> string" where
  "or_str a b = (if str_set a then the a else b)"

record instr =
  i_dir :: "string option"
  i_config :: "string option"
  i_definitions :: "string option"
  i_link :: bool

definition no_instr :: instr where
  "no_instr = \<lparr>i_dir = None, i_config = None, i_definitions = None, i_link = False\<rparr>"

definition some_instr :: "string \<Rightarrow> string \<Rightarrow> string \<Rightarrow> bool \<Rightarrow> instr" where
  "some_instr d c f l = \<lparr>i_dir = Some d, i_config = Some c, i_definitions = Some f, i_link = l\<rparr>"

definition base_compilation_options :: "options \<Rightarrow> py_prop \<Rightarrow> string list" where
  "base_compilation_options s p =
     (if undefinedness p
      then [''-fsanitize=undefined'', ''-fno-sanitize=unsigned-integer-overflow'']
      else if signedoverflow p then [''-fsanitize=signed-integer-overflow'', ''-fsanitize=shift'']
      else [])"

definition base_instrumentation_options :: "options \<Rightarrow> py_prop \<Rightarrow> instr" where
  "base_instrumentation_options s p =
     (if signedoverflow p \<and> overflow_with_clang s then no_instr
      else if full_instrumentation s then
        (if memsafety p
         then some_instr ''memsafety'' (or_str (memsafety_config_file s) ''config.json'')
                ''memsafety.c'' True
         else if signedoverflow p
         then some_instr ''int_overflows'' (or_str (overflow_config_file s) ''config-no-assert.json'')
                ''overflows-no-assert.c'' True
         else if termination_prp p then some_instr ''termination'' ''config.json'' ''termination.c'' True
         else if memcleanup p
         then some_instr ''memsafety'' ''config-memcleanup.json'' ''memsafety.c'' True
         else no_instr)
      else if memsafety p
      then some_instr ''memsafety'' (or_str (memsafety_config_file s) ''config-marker.json'')
             ''marker.c'' False
      else if memcleanup p
      then some_instr ''memsafety'' ''config-marker-memcleanup.json'' ''marker.c'' False
      else if signedoverflow p
      then some_instr ''int_overflows'' (or_str (overflow_config_file s) ''config-no-assert.json'')
             ''overflows-no-assert.c'' True
      else if termination_prp p then some_instr ''termination'' ''config.json'' ''termination.c'' True
      else if nullderef p then some_instr ''null_deref'' ''config.json'' ''null_deref.c'' False
      else no_instr)"

definition base_slicer_options :: "options \<Rightarrow> py_prop \<Rightarrow> string list \<times> string list" where
  "base_slicer_options s p =
     (if full_instrumentation s then ([''__VERIFIER_error'', ''__assert_fail''], [])
      else if memsafety p \<or> memcleanup p
      then ([''__INSTR_mark_pointer'', ''__INSTR_mark_free'', ''__INSTR_mark_allocation'',
             ''__INSTR_mark_exit''], [''-memsafety''])
      else if termination_prp p
      then ([''__INSTR_fail'', ''__assert_fail'', ''__VERIFIER_silent_exit'', ''__VERIFIER_exit'',
             ''__INSTR_check_assume''], [''-cd-alg=ntscd-legacy''])
      else if nullderef p then ([''__INSTR_mark_pointer''], [''-criteria-are-next-instr''])
      else if unreachcall p then (p_calls p, [])
      else if errorcall p then (p_calls p, [])
      else if signedoverflow p \<or> undefinedness p then ([''__VERIFIER_error''], [])
      else ([], []))"

definition base_passes_before_slicing :: "options \<Rightarrow> py_prop \<Rightarrow> string list" where
  "base_passes_before_slicing s p =
     (if termination_prp p then [''-find-exits'', ''-use-exit'', ''-no-change-assumes''] else [])"

definition base_passes_after_slicing :: "options \<Rightarrow> py_prop \<Rightarrow> string list" where
  "base_passes_after_slicing s p =
     (if full_instrumentation s then []
      else if memsafety p \<or> memcleanup p \<or> nullderef p
      then [''-delete-calls'', ''-delete-call'', ''__INSTR_mark_pointer'', ''-delete-call'',
            ''__INSTR_mark_allocation'', ''-delete-call'', ''__INSTR_mark_free'',
            ''-delete-call'', ''__INSTR_mark_exit'', ''-delete-call'', ''__symbiotic_keep_ptr'']
      else if signedoverflow p then [''-delete-call'', ''__symbiotic_check_overflow'']
      else [])"

section \<open>The interface of a tool\<close>

text \<open>What the methods \<open>actions_*\<close> do with the compiler phase or the verifier: link undefined
  functions; link the given functions with \<open>linkundef\<close> set to the given types, which is then
  restored or emptied; run passes; convert the current file with a command (the file and the
  new file, which has the suffix, are its arguments).\<close>

datatype action =
    ActLink "string list option"
  | ActLinkFrom "string list" "string list" bool
  | ActPasses "string list"
  | ActConvert "string \<Rightarrow> string \<Rightarrow> string list" string

text \<open>What \<open>executable()\<close> answers: a name, or the program that \<open>find_executable\<close> finds, with a
  fallback.\<close>

datatype executable = Named string | Lookup string "string option"

record tool =
  tl_name :: string
  tl_llvm_version :: string
  tl_cc :: "string list option"
  tl_compilation_options :: "(options \<Rightarrow> py_prop \<Rightarrow> string list) option"
  tl_instrumentation_options :: "(options \<Rightarrow> py_prop \<Rightarrow> instr) option"
  tl_slicer_options :: "(options \<Rightarrow> py_prop \<Rightarrow> string list \<times> string list) option"
  tl_slicing_params :: "(options \<Rightarrow> py_prop \<Rightarrow> string list) option"
  tl_passes_after_compilation :: "(options \<Rightarrow> py_prop \<Rightarrow> string list) option"
  tl_passes_after_instrumentation :: "(options \<Rightarrow> py_prop \<Rightarrow> string list) option"
  tl_passes_before_slicing :: "(options \<Rightarrow> py_prop \<Rightarrow> string list) option"
  tl_passes_after_slicing :: "(options \<Rightarrow> py_prop \<Rightarrow> string list) option"
  tl_passes_before_verification :: "(options \<Rightarrow> py_prop \<Rightarrow> exn + string list) option"
  tl_actions_after_compilation :: "(options \<Rightarrow> py_prop \<Rightarrow> action list) option"
  tl_actions_before_slicing :: "(options \<Rightarrow> py_prop \<Rightarrow> action list) option"
  tl_actions_after_slicing :: "(options \<Rightarrow> py_prop \<Rightarrow> action list) option"
  tl_actions_before_verification :: "(options \<Rightarrow> py_prop \<Rightarrow> action list) option"
  tl_executable :: executable
  tl_cmdline :: "options \<Rightarrow> py_prop \<Rightarrow> string \<Rightarrow> string list \<Rightarrow> string list \<Rightarrow> exn + string list"
  tl_determine_result :: "options \<Rightarrow> py_prop \<Rightarrow> int option \<Rightarrow> string list \<Rightarrow> exn + string"
  tl_new_witness :: "string list \<Rightarrow> bool"
  tl_can_replay :: bool
  tl_describes_error :: bool
  tl_writes_exec_witness :: bool
  tl_writes_witness :: bool

definition base_tool :: "string \<Rightarrow> string \<Rightarrow> tool" where
  "base_tool name version =
     \<lparr>tl_name = name, tl_llvm_version = version, tl_cc = None,
      tl_compilation_options = Some base_compilation_options,
      tl_instrumentation_options = Some base_instrumentation_options,
      tl_slicer_options = Some base_slicer_options, tl_slicing_params = None,
      tl_passes_after_compilation = None, tl_passes_after_instrumentation = None,
      tl_passes_before_slicing = Some base_passes_before_slicing,
      tl_passes_after_slicing = Some base_passes_after_slicing,
      tl_passes_before_verification = None,
      tl_actions_after_compilation = None, tl_actions_before_slicing = None,
      tl_actions_after_slicing = None, tl_actions_before_verification = None,
      tl_executable = Named ''true'',
      tl_cmdline = (\<lambda>s p executable options tasks. Inr ([executable] @ options @ tasks)),
      tl_determine_result = (\<lambda>s p returncode output.
        Inr (if returncode \<noteq> Some 0 then ''error'' else ''done'')),
      tl_new_witness = (\<lambda>_. False), tl_can_replay = False,
      tl_describes_error = False, tl_writes_exec_witness = False, tl_writes_witness = False\<rparr>"

section \<open>KLEE\<close>

definition klee_arguments :: "string list" where
  "klee_arguments =
     [''-dump-states-on-halt=0'', ''--output-stats=0'', ''--use-call-paths=0'',
      ''--optimize=false'', ''-silent-klee-assume=1'', ''-istats-write-interval=60s'',
      ''-timer-interval=10'', ''-only-output-states-covering-new=1'', ''-use-forked-solver=0'',
      ''--libc=klee'', ''--lazy-init'', ''-external-calls=pure'', ''-max-memory=8000'']"

definition klee_passes_before_slicing :: "options \<Rightarrow> py_prop \<Rightarrow> string list" where
  "klee_passes_before_slicing s p = (if termination_prp p then [''-find-exits''] else [])"

definition kleebase_passes_after_slicing :: "options \<Rightarrow> py_prop \<Rightarrow> string list" where
  "kleebase_passes_after_slicing s p =
     base_passes_after_slicing s p @
     (if \<not> explicit_symbolic s then [''-initialize-uninitialized''] else []) @
     (if \<not> sv_comp s then [''-internalize-globals''] else []) @
     (if memsafety p then [''-remove-readonly-attr'']
      else if termination_prp p
      then [''-instrument-nontermination'', ''-instrument-nontermination-mark-header''] else [])"

subsection \<open>Full instrumentation\<close>

definition full_passes_after_slicing :: "options \<Rightarrow> py_prop \<Rightarrow> string list" where
  "full_passes_after_slicing s p =
     (if \<not> malloc_never_fails s then [''-instrument-alloc''] else []) @
     (if memsafety p then [''-remove-readonly-attr''] else []) @
     kleebase_passes_after_slicing s p"

definition full_actions_after_compilation :: "options \<Rightarrow> py_prop \<Rightarrow> action list" where
  "full_actions_after_compilation s p =
     (if memsafety p then [ActLink None] else []) @
     (if signedoverflow p \<and> \<not> overflow_with_clang s then [ActLink None] else [])"

definition full_cmdline :: "options \<Rightarrow> string \<Rightarrow> string list \<Rightarrow> string list \<Rightarrow> string list" where
  "full_cmdline s executable opts tasks =
     [executable] @ klee_arguments @ [''-max-time='' @ str_int (timeout s)] @
     (if exit_on_error s then [''-exit-on-error-type=Assert''] else []) @
     (if \<not> nowitness s then [''-write-witness''] else []) @
     (if executable_witness s then [''-write-harness''] else []) @ opts @ tasks @ argv s"

definition full_patterns :: "(string \<times> pattern) list" where
  "full_patterns =
     [(''EDOUBLEFREE'', Search [''ASSERTION FAIL: 0 && '' @ [CHR 0x22] @ ''double free'' @ [CHR 0x22]]),
      (''EINVALFREE'', Search [''ASSERTION FAIL: 0 && '' @ [CHR 0x22] @
         ''free on non-allocated memory'' @ [CHR 0x22]]),
      (''EMEMLEAK'', Search [''ASSERTION FAIL: 0 && '' @ [CHR 0x22] @
         ''memory leak detected'' @ [CHR 0x22]]),
      (''ASSERTIONFAILED'', Search [''ASSERTION FAIL:'']),
      (''ESTPTIMEOUT'', Search [''query timed out resolve'']),
      (''EKLEETIMEOUT'', Search [''HaltTimer invoked'']),
      (''EEXTENCALL'', Search [''failed external cal'']),
      (''ELOADSYM'', Search [''ERROR: unable to load symbol'']),
      (''EINVALINST'', Search [''LLVM ERROR: Code generator does not support'']),
      (''EKLEEASSERT'', Search [''klee: '', ''Assertion '', '' failed'']),
      (''EINITVALS'', Search [''unable to compute initial values'']),
      (''ESYMSOL'', Search [''unable to get symbolic solution'']),
      (''ESILENTLYCONCRETIZED'', Search [''silently concretizing'']),
      (''EEXTRAARGS'', Search [''calling '', '' with extra arguments'']),
      (''EPTRCMP'', Search [''WARNING'', '': comparison of two pointers'']),
      (''EMALLOC'', Search [''found huge malloc, returning 0'']),
      (''ESKIPFORK'', Search [''skipping fork'']),
      (''EKILLSTATE'', Search [''killing'', ''states (over memory cap)'']),
      (''EMEMALLOC'', Search [''KLEE: WARNING: Allocating memory failed'']),
      (''EROSYMB'', Search [''cannot make readonly object symbolic'']),
      (''ESTACKOVFLW'', Search [''WARNING: Maximum stack size reached'']),
      (''EMEMERROR'', Search [''memory error: out of bound pointer'']),
      (''EMEMERROR'', Search [''memory error: calling nullptr'']),
      (''EPTHREAD'', Search [''ERROR:'', ''Call to pthread_'']),
      (''EPTHREAD2'', Search [''ERROR:'', ''unsupported pthread API'']),
      (''EFUNMODEL'', Search ['': unsupported function model'']),
      (''EMAKESYMBOLIC'', Search [''memory error: invalid pointer: make_symbolic'']),
      (''EVECTORUNSUP'', Search [''XXX vector instructions unhandled'']),
      (''EFREE'', Search [''memory error: invalid pointer: free'']),
      (''EASM'', Search [''ERROR:'', ''inline assembly is unsupported'']),
      (''EGLOBLFREE'', Search [''ERROR:'', ''free of global'']),
      (''EUNREACH'', Search [''reached '' @ [CHR 0x22] @ ''unreachable'' @ [CHR 0x22] @ '' instruction'']),
      (''ECMP'', Search [''Comparison other than inequality is not implemented'']),
      (''ERESOLV'', Search [''Failed resolving'', ''segment'']),
      (''ERESOLV'', Search [''ERROR:'', ''Could not resolve''])]"

text \<open>The first pattern that matches decides; \<open>None\<close> when there is none.\<close>

definition first_match :: "(string \<times> pattern) list \<Rightarrow> string \<Rightarrow> string option" where
  "first_match pats line = map_option fst (find (\<lambda>kp. pattern_match (snd kp) line) pats)"

definition full_parse_line :: "py_prop \<Rightarrow> string \<Rightarrow> string option" where
  "full_parse_line p line =
     (case first_match full_patterns line of
        None \<Rightarrow> None
      | Some key \<Rightarrow> Some
          (if key = ''ASSERTIONFAILED'' then
             (if memsafety p then RESULT_FALSE_DEREF
              else if signedoverflow p then RESULT_FALSE_OVERFLOW
              else if termination_prp p then RESULT_FALSE_TERMINATION
              else if memcleanup p then RESULT_FALSE_MEMCLEANUP
              else RESULT_FALSE_REACH)
           else if memsafety p \<and> (key = ''EDOUBLEFREE'' \<or> key = ''EINVALFREE'') then RESULT_FALSE_FREE
           else if memsafety p \<and> key = ''EMEMLEAK'' then RESULT_FALSE_MEMTRACK
           else key))"

definition str_ret :: "int option \<Rightarrow> string" where
  "str_ret r = (case r of None \<Rightarrow> ''None'' | Some n \<Rightarrow> str_int n)"

definition klee_exited :: "int option \<Rightarrow> string" where
  "klee_exited r = RESULT_ERROR @ '' (KLEE exited with '' @ str_ret r @ '')''"

definition full_determine_result :: "py_prop \<Rightarrow> int option \<Rightarrow> string list \<Rightarrow> string" where
  "full_determine_result p returncode output =
     (let found = List.map_filter (\<lambda>line. full_parse_line p (bytes_repr line)) output
      in if found = [] then (if returncode \<noteq> Some 0 then klee_exited returncode else RESULT_TRUE_PROP)
         else if length found = 1 then hd found
         else case (if ''EINITVALS'' \<notin> set found then find (\<lambda>f. startswith f ''false'') found else None) of
                Some f \<Rightarrow> f
              | None \<Rightarrow> RESULT_UNKNOWN @ ''('' @ join '' '' found @ '')'')"

subsection \<open>The symbolic executor\<close>

definition klee_patterns :: "(string \<times> pattern) list" where
  "klee_patterns =
     [(''ASSERTIONFAILED'', Search [''ASSERTION FAIL:'']),
      (''ASSERTIONFAILED2'', AnyThen [''Assertion '', '' failed'']),
      (''ESTPTIMEOUT'', Search [''query timed out resolve'']),
      (''EKLEETIMEOUT'', Search [''HaltTimer invoked'']),
      (''EEXTENCALL'', Search [''failed external call'']),
      (''EEXTENCALLDIS'', Search [''external calls disallowed'']),
      (''ELOADSYM'', Search [''ERROR: unable to load symbol'']),
      (''EINVALINST'', Search [''LLVM ERROR: Code generator does not support'']),
      (''EINITVALS'', Search [''unable to compute initial values'']),
      (''ESYMSOL'', Search [''unable to get symbolic solution'']),
      (''ESILENTLYCONCRETIZED'', Search [''silently concretizing'']),
      (''EEXTRAARGS'', Search [''calling '', '' with extra arguments'']),
      (''EPTRCMP'', Search [''WARNING'', '': comparison of two pointers'']),
      (''EMALLOC'', Search [''found huge malloc, returning 0'']),
      (''ESKIPFORK'', Search [''skipping fork'']),
      (''EKILLSTATE'', Search [''killing'', ''states (over memory cap)'']),
      (''EPTHREAD'', Search [''ERROR:'', ''Call to pthread_'']),
      (''EPTHREAD2'', Search [''ERROR:'', ''unsupported pthread API'']),
      (''EMEMERROR'', Search [''memory error: out of bound pointer'']),
      (''EMEMERROR'', Search [''memory error: calling nullptr'']),
      (''EMAKESYMBOLIC'', Search [''memory error: invalid pointer: make_symbolic'']),
      (''EVECTORUNSUP'', Search [''XXX vector instructions unhandled'']),
      (''EFREE'', Search [''memory error: invalid pointer: free'']),
      (''EASM'', Search [''ERROR:'', ''inline assembly is unsupported'']),
      (''EGLOBLFREE'', Search [''ERROR:'', ''free of global'']),
      (''EMEMALLOC'', Search [''KLEE: WARNING: Allocating memory failed'']),
      (''ESTACKOVFLW'', Search [''WARNING: Maximum stack size reached'']),
      (''EROSYMB'', Search [''cannot make readonly object symbolic'']),
      (''EFUNMODEL'', Search ['': unsupported function model'']),
      (''EMEMLEAK'', Search [''memory error: memory leak detected'']),
      (''EMEMCLEANUP'', Search [''memory error: memory not cleaned up'']),
      (''EFREEALLOCA'', Search [''ERROR:'', ''free of alloca'']),
      (''EINVREALLOC'', Search [''memory error:'', ''invalid pointer:'', ''realloc'']),
      (''EROREALLOC'', Search [''memory error:'', ''realloc of read-only object'']),
      (''EROREALLOC'', Search [''memory error:'', ''realloc on local object'']),
      (''EROREALLOC'', Search [''memory error:'', ''realloc on global object'']),
      (''ERESOLVMEMCLN'', Search [''Failed resolving segment in memcleanup check'']),
      (''ERESOLVMEMCLN2'', Search [''Cannot resolve non-constant segment in memcleanup check'']),
      (''ECMP'', Search [''Comparison other than inequality is not implemented'']),
      (''ERESOLV'', Search [''Failed resolving'', ''segment'']),
      (''EUNREACH'', Search [''reached '' @ [CHR 0x22] @ ''unreachable'' @ [CHR 0x22] @ '' instruction'']),
      (''ERESOLV'', Search [''ERROR:'', ''Could not resolve''])]"

definition klee_key_result :: "py_prop \<Rightarrow> string \<Rightarrow> string" where
  "klee_key_result p key =
     (if startswith key ''ASSERTIONFAILED'' then
        (if signedoverflow p then RESULT_FALSE_OVERFLOW
         else if termination_prp p then RESULT_FALSE_TERMINATION
         else RESULT_FALSE_REACH)
      else if key = ''EFREE'' \<or> key = ''EFREEALLOCA'' \<or> key = ''EGLOBLFREE'' then RESULT_FALSE_FREE
      else if key \<in> {''EMEMERROR'', ''EINVREALLOC'', ''EROREALLOC''} then RESULT_FALSE_DEREF
      else if key = ''EMEMLEAK'' then RESULT_FALSE_MEMTRACK
      else if key = ''EMEMCLEANUP'' then RESULT_FALSE_MEMCLEANUP
      else key)"

definition klee_parse_line :: "py_prop \<Rightarrow> string \<Rightarrow> string option" where
  "klee_parse_line p line = map_option (klee_key_result p) (first_match klee_patterns line)"

text \<open>The body of the last loop of \<open>determine_result\<close>: an error of the kind we look for.\<close>

definition sought_result :: "options \<Rightarrow> py_prop \<Rightarrow> string \<Rightarrow> string option" where
  "sought_result s p f =
     (if f = RESULT_FALSE_REACH \<and> unreachcall p then Some f
      else if f = RESULT_FALSE_REACH \<and> undefinedness p then Some ''false(def-behavior)''
      else if f = RESULT_FALSE_OVERFLOW \<and> signedoverflow p then Some f
      else if f \<in> {RESULT_FALSE_FREE, RESULT_FALSE_DEREF, RESULT_FALSE_MEMTRACK} \<and> memsafety p
      then Some f
      else if f = RESULT_FALSE_MEMCLEANUP \<and> (memcleanup p \<or> memsafety p \<and> \<not> sv_comp s) then Some f
      else if f = RESULT_FALSE_TERMINATION \<and> termination_prp p then Some f
      else if f = RESULT_FALSE_DEREF \<and> nullderef p then Some f
      else None)"

definition klee_found :: "py_prop \<Rightarrow> string list \<Rightarrow> string list" where
  "klee_found p output = List.map_filter (\<lambda>line. klee_parse_line p (bytes_repr line)) output"

fun first_some :: "('a \<Rightarrow> 'b option) \<Rightarrow> 'a list \<Rightarrow> 'b option" where
  "first_some f [] = None"
| "first_some f (x # xs) = (case f x of Some y \<Rightarrow> Some y | None \<Rightarrow> first_some f xs)"

definition klee_determine_result ::
  "options \<Rightarrow> py_prop \<Rightarrow> int option \<Rightarrow> string list \<Rightarrow> string" where
  "klee_determine_result s p returncode output =
     (let found = klee_found p output in
      if test_comp s then
        (if errorcall p
         then (if RESULT_FALSE_REACH \<in> set found then RESULT_DONE else RESULT_UNKNOWN)
         else RESULT_DONE)
      else if full_instrumentation s then full_determine_result p returncode output
      else if found = [] then
        (if returncode \<noteq> Some 0 then klee_exited returncode else RESULT_TRUE_PROP)
      else if ''EINITVALS'' \<in> set found then RESULT_UNKNOWN @ ''('' @ join '' '' found @ '')''
      else case first_some (sought_result s p) found of
             Some f \<Rightarrow> f
           | None \<Rightarrow> RESULT_UNKNOWN @ '' ('' @ join '' '' found @ '')'')"

definition nonstandard_calls :: "py_prop \<Rightarrow> string list" where
  "nonstandard_calls p = filter (\<lambda>x. x \<notin> {''__VERIFIER_error'', ''__assert_fail''}) (p_calls p)"

definition klee_testcomp_cmdline ::
  "options \<Rightarrow> py_prop \<Rightarrow> string \<Rightarrow> string list \<Rightarrow> string list \<Rightarrow> string list" where
  "klee_testcomp_cmdline s p executable opts tasks =
     [executable] @ klee_arguments @
     [''-output-dir='' @ testsuite_output s, ''-write-testcases'', ''-malloc-symbolic-contents''] @
     (if errorcall p then [''-exit-on-error-type=Assert'', ''-dump-states-on-halt=0'']
      else [''-only-output-states-covering-new=1'', ''-max-time=840'']) @
     (if \<not> nowitness s then [''-write-witness''] else []) @
     (if executable_witness s then [''-write-harness''] else []) @
     [''-output-source=false''] @ opts @ tasks"

definition error_fn_args :: "py_prop \<Rightarrow> exn + string list" where
  "error_fn_args p =
     (case nonstandard_calls p of
        [] \<Rightarrow> Inr []
      | [c] \<Rightarrow> Inr [''-error-fn='' @ c]
      | _ \<Rightarrow> Inl AssertionError)"

definition klee_cmdline ::
  "options \<Rightarrow> py_prop \<Rightarrow> string \<Rightarrow> string list \<Rightarrow> string list \<Rightarrow> exn + string list" where
  "klee_cmdline s p executable opts tasks =
     (if test_comp s then Inr (klee_testcomp_cmdline s p executable opts tasks)
      else if full_instrumentation s then Inr (full_cmdline s executable opts tasks)
      else
        bindE (if memsafety p then Inr [''-check-leaks'']
               else if memcleanup p then Inr [''-check-memcleanup'']
               else if unreachcall p then
                 bindE (error_fn_args p) (\<lambda>xs. Inr (xs @ [''-malloc-symbolic-contents'']))
               else if signedoverflow p then Inr [''-error-fn=__VERIFIER_error'']
               else Inr []) (\<lambda>prop_args.
        Inr ([executable] @ klee_arguments @ [''-max-time='' @ str_int (timeout s)] @ prop_args @
          (if exit_on_error s then
             (if memsafety p
              then [''-exit-on-error-type=Ptr'', ''-exit-on-error-type=Leak'',
                    ''-exit-on-error-type=ReadOnly'', ''-exit-on-error-type=Free'',
                    ''-exit-on-error-type=BadVectorAccess'']
              else if nullderef p then [''-exit-on-error-type=Ptr'']
              else if memcleanup p then [''-exit-on-error-type=Leak'']
              else [''-exit-on-error-type=Assert''])
           else []) @
          (if \<not> nowitness s
           then ''-write-witness'' # (if \<not> memcleanup p then [''-write-waypoints''] else [])
           else []) @
          (if executable_witness s then [''-write-harness''] else []) @
          [''-output-source=false''] @ opts @ tasks @ argv s)))"

definition klee_tool :: "string \<Rightarrow> options \<Rightarrow> tool" where
  "klee_tool version opts = (base_tool ''klee'' version)
     \<lparr>tl_passes_before_slicing := Some klee_passes_before_slicing,
      tl_passes_after_slicing := Some (\<lambda>s p.
        if full_instrumentation opts then full_passes_after_slicing s p else []),
      tl_actions_after_compilation := Some (\<lambda>s p.
        if full_instrumentation opts then full_actions_after_compilation s p else []),
      tl_executable := Lookup ''klee'' None, tl_cmdline := klee_cmdline,
      tl_determine_result := (\<lambda>s p r out. Inr (klee_determine_result s p r out)),
      tl_can_replay := True, tl_describes_error := True, tl_writes_exec_witness := True,
      tl_writes_witness := True\<rparr>"

section \<open>What a match means\<close>

text \<open>\<open>.*a.*b.*\<close> is the occurrence of the texts one after the other.\<close>

lemma pattern_match_Search: "pattern_match (Search cs) s \<longleftrightarrow> chunks_spec cs s"
  by (simp add: pattern_match_def chunks_in_spec)

lemma first_match_None:
  "first_match pats s = None \<longleftrightarrow> (\<forall>kp \<in> set pats. \<not> pattern_match (snd kp) s)"
  by (induction pats) (auto simp: first_match_def)

lemma first_match_Some:
  "first_match pats s = Some k \<Longrightarrow> \<exists>pat. (k, pat) \<in> set pats \<and> pattern_match pat s"
  by (induction pats) (fastforce simp: first_match_def split: if_splits)+

lemma first_some_eq_Some: "first_some f xs = Some y \<Longrightarrow> \<exists>x \<in> set xs. f x = Some y"
  by (induction xs) (auto split: option.splits)

lemma first_some_None: "first_some f xs = None \<longleftrightarrow> (\<forall>x \<in> set xs. f x = None)"
  by (induction xs) (auto split: option.splits)

lemma map_filter_Nil: "List.map_filter f xs = [] \<longleftrightarrow> (\<forall>x \<in> set xs. f x = None)"
  by (induction xs) (auto simp: List.map_filter_simps split: option.splits)

lemma in_map_filter: "y \<in> set (List.map_filter f xs) \<longleftrightarrow> (\<exists>x \<in> set xs. f x = Some y)"
  by (induction xs) (auto simp: List.map_filter_simps split: option.splits)

text \<open>The second character of \<open>str(line)\<close> is a quotation mark, so a pattern that expects a text
  there after one character of any kind is never found.\<close>

lemma anythen_never:
  assumes "cs \<noteq> []" and "hd cs \<noteq> []" and "hd (hd cs) \<noteq> CHR 0x27" and "hd (hd cs) \<noteq> CHR 0x22"
  shows "\<not> pattern_match (AnyThen cs) (bytes_repr line)"
  using assms by (cases cs; cases "hd cs") (auto simp: pattern_match_def bytes_repr_def Let_def)

theorem assertion_crash_never_seen:
  "\<not> pattern_match (AnyThen [''Assertion '', '' failed'']) (bytes_repr line)"
  by (rule anythen_never) simp_all

section \<open>Verdicts of KLEE\<close>

text \<open>The names of the patterns and what they are turned into are no verdict \<open>true\<close>.\<close>

lemma full_keys:
  "(k, pat) \<in> set full_patterns \<Longrightarrow> k \<noteq> RESULT_TRUE_PROP"
  by (simp add: full_patterns_def; elim disjE; simp add: result_defs)

lemma full_parse_line_not_true: "full_parse_line p line \<noteq> Some RESULT_TRUE_PROP"
proof (cases "first_match full_patterns line")
  case (Some k)
  then obtain pat where "(k, pat) \<in> set full_patterns" using first_match_Some by blast
  then have "k \<noteq> RESULT_TRUE_PROP" by (rule full_keys)
  with Some show ?thesis by (simp add: full_parse_line_def) (simp add: result_defs)
qed (simp add: full_parse_line_def)

lemma false_texts [simp]:
  "startswith RESULT_FALSE_REACH ''false''" "startswith RESULT_FALSE_TERMINATION ''false''"
  "startswith RESULT_FALSE_OVERFLOW ''false''" "startswith RESULT_FALSE_DEREF ''false''"
  "startswith RESULT_FALSE_FREE ''false''" "startswith RESULT_FALSE_MEMTRACK ''false''"
  "startswith RESULT_FALSE_MEMCLEANUP ''false''" "\<not> startswith RESULT_TRUE_PROP ''false''"
  by (simp_all add: result_defs)

lemma sought_false: "sought_result s p f = Some x \<Longrightarrow> startswith x ''false''"
  by (auto simp: sought_result_def split: if_splits)

lemma not_true_texts [simp]:
  "RESULT_UNKNOWN @ t \<noteq> RESULT_TRUE_PROP" "klee_exited r \<noteq> RESULT_TRUE_PROP"
  "RESULT_ERROR @ t \<noteq> RESULT_TRUE_PROP" "RESULT_DONE \<noteq> RESULT_TRUE_PROP"
  "RESULT_UNKNOWN \<noteq> RESULT_TRUE_PROP" "startswith x ''false'' \<Longrightarrow> x \<noteq> RESULT_TRUE_PROP"
  by (auto simp: result_defs klee_exited_def)

lemma full_true_iff:
  "full_determine_result p r out = RESULT_TRUE_PROP \<longleftrightarrow>
    r = Some 0 \<and> (\<forall>line \<in> set out. first_match full_patterns (bytes_repr line) = None)"
proof -
  let ?found = "List.map_filter (\<lambda>line. full_parse_line p (bytes_repr line)) out"
  have none: "?found = [] \<longleftrightarrow> (\<forall>line \<in> set out. first_match full_patterns (bytes_repr line) = None)"
    by (auto simp: map_filter_Nil full_parse_line_def split: option.splits)
  have "RESULT_TRUE_PROP \<notin> set ?found"
    using full_parse_line_not_true by (auto simp: in_map_filter)
  then have hd: "?found \<noteq> [] \<Longrightarrow> hd ?found \<noteq> RESULT_TRUE_PROP"
    using hd_in_set [of ?found] by metis
  have fs: "find (\<lambda>f. startswith f ''false'') xs = Some x \<Longrightarrow> x \<noteq> RESULT_TRUE_PROP" for xs x
    by (auto simp: find_Some_iff)
  show ?thesis
    using hd fs none by (auto simp: full_determine_result_def Let_def split: option.splits if_splits)
qed

text \<open>The patterns KLEE's output is searched for.\<close>

definition alarm_patterns :: "options \<Rightarrow> (string \<times> pattern) list" where
  "alarm_patterns s = (if full_instrumentation s then full_patterns else klee_patterns)"

text \<open>C13: KLEE's answer is \<open>true\<close> exactly outside of TEST-COMP, when it returned with status 0
  and no line of its output contains one of the patterns for errors and for behaviour that
  KLEE does not support; no text that a pattern stands for is ever taken for \<open>true\<close>.\<close>

theorem klee_true_iff:
  "klee_determine_result s p r out = RESULT_TRUE_PROP \<longleftrightarrow>
    \<not> test_comp s \<and> r = Some 0 \<and>
    \<not> (\<exists>line \<in> set out. \<exists>kp \<in> set (alarm_patterns s). pattern_match (snd kp) (bytes_repr line))"
proof -
  have none: "klee_found p out = [] \<longleftrightarrow>
      (\<forall>line \<in> set out. first_match klee_patterns (bytes_repr line) = None)"
    by (simp add: klee_found_def map_filter_Nil klee_parse_line_def)
  have "x \<noteq> RESULT_TRUE_PROP" if "first_some (sought_result s p) xs = Some x" for xs x
  proof -
    from first_some_eq_Some [OF that] obtain f where "sought_result s p f = Some x" by blast
    then show ?thesis using sought_false by auto
  qed
  then show ?thesis
    using full_true_iff [of p r out] none
    by (auto simp: klee_determine_result_def Let_def alarm_patterns_def first_match_None
        split: option.splits if_splits)
qed

section \<open>Verdicts about the property\<close>

text \<open>The violations of a property.\<close>

definition asked :: "options \<Rightarrow> py_prop \<Rightarrow> string set" where
  "asked s p =
     (if unreachcall p then {RESULT_FALSE_REACH} else {}) \<union>
     (if undefinedness p then {''false(def-behavior)''} else {}) \<union>
     (if signedoverflow p then {RESULT_FALSE_OVERFLOW} else {}) \<union>
     (if memsafety p then {RESULT_FALSE_FREE, RESULT_FALSE_DEREF, RESULT_FALSE_MEMTRACK} else {}) \<union>
     (if memcleanup p \<or> memsafety p \<and> \<not> sv_comp s then {RESULT_FALSE_MEMCLEANUP} else {}) \<union>
     (if termination_prp p then {RESULT_FALSE_TERMINATION} else {}) \<union>
     (if nullderef p then {RESULT_FALSE_DEREF} else {})"

lemma sought_asked: "sought_result s p f = Some x \<Longrightarrow> x \<in> asked s p"
  by (auto simp: sought_result_def asked_def split: if_splits)

lemma not_false_texts [simp]:
  "\<not> startswith (RESULT_UNKNOWN @ t) ''false''" "\<not> startswith (klee_exited r) ''false''"
  "\<not> startswith RESULT_DONE ''false''"
  "\<not> startswith RESULT_UNKNOWN ''false''"
  by (simp_all add: result_defs klee_exited_def)

text \<open>C14: Without full instrumentation, an answer of KLEE that starts with \<open>false\<close> names a
  violation of the property that was asked for, a line of the output reports it, and no line
  says that the initial values of a path could not be computed.\<close>

theorem klee_false_is_asked:
  assumes "startswith (klee_determine_result s p r out) ''false''" and "\<not> full_instrumentation s"
  shows "klee_determine_result s p r out \<in> asked s p \<and>
    (\<exists>line \<in> set out. \<exists>f. klee_parse_line p (bytes_repr line) = Some f \<and>
      sought_result s p f = Some (klee_determine_result s p r out)) \<and>
    (\<forall>line \<in> set out. klee_parse_line p (bytes_repr line) \<noteq> Some ''EINITVALS'')"
proof -
  let ?found = "klee_found p out"
  from assms obtain x where x: "first_some (sought_result s p) ?found = Some x"
    and e: "''EINITVALS'' \<notin> set ?found" and res: "klee_determine_result s p r out = x"
    by (auto simp: klee_determine_result_def Let_def split: if_splits option.splits)
  from first_some_eq_Some [OF x] obtain f where f: "f \<in> set ?found" "sought_result s p f = Some x"
    by blast
  have "klee_determine_result s p r out \<in> asked s p" using f res sought_asked by blast
  moreover have "\<exists>line \<in> set out. \<exists>f. klee_parse_line p (bytes_repr line) = Some f \<and>
      sought_result s p f = Some (klee_determine_result s p r out)"
    using f res by (auto simp: klee_found_def in_map_filter)
  moreover have "\<forall>line \<in> set out. klee_parse_line p (bytes_repr line) \<noteq> Some ''EINITVALS''"
    using e by (auto simp: klee_found_def in_map_filter)
  ultimately show ?thesis by blast
qed

text \<open>Settings and a line of output for the examples.\<close>

definition plain_options :: options where
  "plain_options = SymbioticOptions
     \<lparr>os_cwd = ''/'', os_abspath = id, os_expanduser = id, os_isfile = (\<lambda>_. False),
      os_isdir = (\<lambda>_. False), os_has_version = False\<rparr>"

lemma plain_options_simps [simp]:
  "test_comp plain_options = False" "full_instrumentation plain_options = False"
  "sv_comp plain_options = False" "noslice plain_options = False"
  "replay_error plain_options = False" "tool_params plain_options = []"
  "nowitness plain_options = True" "linkundef plain_options = [''verifier'', ''libc'', ''posix'', ''kernel'']"
  "no_optimize plain_options = False" "no_instrument plain_options = False"
  "generate_ll plain_options = False" "save_files plain_options = False" "stats plain_options = False"
  by (simp_all add: plain_options_def SymbioticOptions_def)

theorem klee_true_iff_witness:
  "klee_determine_result plain_options (make_prop MemSafety None) (Some 0) [''KLEE: done''] =
    RESULT_TRUE_PROP"
  unfolding klee_true_iff by (simp add: alarm_patterns_def) code_simp

theorem klee_false_is_asked_witness:
  "klee_determine_result plain_options (make_prop MemSafety None) (Some 0)
    [''KLEE: ERROR: memory error: out of bound pointer''] \<in>
    asked plain_options (make_prop MemSafety None)"
proof -
  have "startswith (klee_determine_result plain_options (make_prop MemSafety None) (Some 0)
    [''KLEE: ERROR: memory error: out of bound pointer'']) ''false''"
    by code_simp
  from klee_false_is_asked [OF this] show ?thesis by simp
qed

end
