(* ===== verification/CC.thy ===== *)
theory CC
  imports Process Tools Transformer
begin

text \<open>
  The compiler phase (\<open>SymbioticCC\<close> of \<open>transform.py\<close>): compiling the sources to LLVM bitcode,
  linking, instrumentation, optimization, slicing and the preprocessing of a witness. The
  state \<open>cc\<close> holds the fields of the object, the options and the property it shares with the
  tool and the verifier, what the tools keep between calls (the original file and the shift of
  a validated witness, whether threads were met, whether a new witness is due), the default value of the parameter \<open>disable\<close> of \<open>optimize\<close> (a list
  that the method extends), and the global state of the process runner. The external programs,
  the file system and clang's syntax trees are arguments (\<open>cc_env\<close>). Every method is a
  command; a command that is run is recorded in \<open>s_log\<close>. Messages that are only printed are
  left out.
\<close>

section \<open>State\<close>

text \<open>The files that describe a found error: for the file of the given name.\<close>

datatype report = DescribeError string | ExecWitness string | WitnessFile string string bool

record cc = sys +
  c_opts :: options
  c_prop :: py_prop
  c_sources :: "string list"
  c_curfile :: "string option"
  c_linked :: "string list"
  c_renames :: "(string \<times> string) list"
  c_nonsliced :: "string option"
  c_disable :: "string list"
  c_og_file :: "string option"
  c_shifted :: shift_map
  c_hit_threads :: bool
  c_new_witness :: bool
  c_reports :: "report list"

text \<open>The environment: the programs and files, the directories set up before
  (\<open>environment.py\<close>), what clang and the YAML parser make of the files of the program and the
  witness, whether a file can be moved, the interpreter's limit on nested calls, where
  the program of a tool is, the files of a directory, and the resolution of links.\<close>

record cc_env =
  e_world :: world
  e_symbiotic_dir :: string
  e_instr_files :: string
  e_clang :: "string \<Rightarrow> cursor \<times> string list"
  e_yaml :: "string \<Rightarrow> witness"
  e_move :: "string \<Rightarrow> string \<Rightarrow> string option"
  e_depth :: nat
  e_executable :: "string \<Rightarrow> string option \<Rightarrow> exn + string"
  e_listdir :: "string list list \<Rightarrow> string \<Rightarrow> string list"
  e_realpath :: "string \<Rightarrow> string"

definition init_cc :: "options \<Rightarrow> py_prop \<Rightarrow> string list \<Rightarrow> cc" where
  "init_cc opts prp src =
     \<lparr>s_running = False, s_alive = False, s_timer = False, s_log = [], c_opts = opts, c_prop = prp,
      c_sources = src, c_curfile = None, c_linked = [], c_renames = [], c_nonsliced = None,
      c_disable = [], c_og_file = None, c_shifted = [],
      c_hit_threads = False, c_new_witness = False, c_reports = []\<rparr>"

type_synonym 'a step = "(cc, 'a) cmd"

section \<open>Lists of optimizations\<close>

definition optimizations :: "(string \<times> string list) list" where
  "optimizations =
     [(''conservative'',
       [''-simplifycfg'', ''-constmerge'', ''-dce'', ''-ipconstprop'', ''-argpromotion'',
        ''-instcombine'', ''-deadargelim'', ''-simplifycfg'']),
      (''klee'',
       [''-simplifycfg'', ''-globalopt'', ''-globaldce'', ''-ipconstprop'', ''-deadargelim'',
        ''-instcombine'', ''-simplifycfg'', ''-prune-eh'', ''-functionattrs'',
        ''-inline-threshold=70'', ''-inline'', ''-argpromotion'', ''-instcombine'',
        ''-jump-threading'', ''-simplifycfg'', ''-gvn'', ''-scalarrepl'', ''-instcombine'',
        ''-tailcallelim'', ''-simplifycfg'', ''-reassociate'', ''-loop-rotate'', ''-licm'',
        ''-loop-unswitch'', ''-instcombine'', ''-indvars'', ''-loop-deletion'', ''-loop-unroll'',
        ''-instcombine'', ''-memcpyopt'', ''-sccp'', ''-instcombine'', ''-dse'', ''-adce'',
        ''-simplifycfg'', ''-strip-dead-prototypes'', ''-constmerge'', ''-ipsccp'',
        ''-deadargelim'', ''-die'', ''-instcombine'']),
      (''O3'', [''-O3'']),
      (''O2'', [''-O2''])]"

definition opt_passes :: "string \<Rightarrow> string list" where
  "opt_passes o' =
     (if startswith o' ''opt-'' then [drop 3 o']
      else (case map_of optimizations o' of None \<Rightarrow> [] | Some ps \<Rightarrow> ps))"

definition get_optlist_before :: "string list \<Rightarrow> string list" where
  "get_optlist_before lvl =
     concat (map (\<lambda>opt. if startswith opt ''before-'' then opt_passes (drop 7 opt) else []) lvl)"

definition get_optlist_after :: "string list \<Rightarrow> string list" where
  "get_optlist_after lvl =
     concat (map (\<lambda>opt. if startswith opt ''after-'' then opt_passes (drop 6 opt) else []) lvl)"

section \<open>Names of files\<close>

text \<open>\<open>name[:name.rfind('.')]\<close>: without a dot, this drops the last character.\<close>

definition stem :: "string \<Rightarrow> string" where
  "stem name = slice_to name (py_rfind name (CHR ''.''))"

definition quoted :: "string \<Rightarrow> string" where
  "quoted s = [CHR 0x27] @ s @ [CHR 0x27]"

text \<open>\<open>self.curfile\<close> where a string is needed.\<close>

definition curfile :: "string step" where
  "curfile = with_state (\<lambda>s. lift (of_opt AttributeError (c_curfile s)))"

definition set_curfile :: "string \<Rightarrow> unit step" where
  "set_curfile f = upd (c_curfile_update (\<lambda>_. Some f))"

text \<open>What a method of the tool returns for the current settings.\<close>

definition ask :: "(options \<Rightarrow> py_prop \<Rightarrow> 'a) \<Rightarrow> 'a step" where
  "ask f = reads (\<lambda>s. f (c_opts s) (c_prop s))"

definition ask_list :: "(options \<Rightarrow> py_prop \<Rightarrow> 'a list) option \<Rightarrow> 'a list step" where
  "ask_list f = (case f of None \<Rightarrow> ret [] | Some g \<Rightarrow> ask g)"

section \<open>Running the LLVM tools\<close>

definition default_cc :: "tool \<Rightarrow> string list" where
  "default_cc tt = (case tl_cc tt of None \<Rightarrow> [''clang''] | Some c \<Rightarrow> c)"

definition ascii :: "string \<Rightarrow> bool" where
  "ascii s = (\<forall>c \<in> set s. (of_char c :: nat) < 128)"

definition cc_has_lifetime_markers :: "cc_env \<Rightarrow> tool \<Rightarrow> bool step" where
  "cc_has_lifetime_markers E tt =
     bnd (process_grep (e_world E) (default_cc tt @ [''-cc1'', ''--help''])
            ''-fsanitize-address-use-after-scope'') (\<lambda>(status, out).
     if status = Some 0 \<and> length out = 1
     then (if ascii (lstrip_bytes (hd out))
           then ret (startswith (lstrip_bytes (hd out)) ''-fsanitize-address-use-after-scope'')
           else throw ValueError)
     else ret False)"

definition cc_disable_optimizations :: "string list" where
  "cc_disable_optimizations = [''-O0'', ''-disable-O0-optnone'', ''-disable-llvm-passes'']"

text \<open>A failed \<open>runcmd\<close> is a \<open>SymbioticException\<close>; the debugging features ignore it.\<close>

definition ignore_failure :: "unit step \<Rightarrow> unit step" where
  "ignore_failure m =
     handle m (\<lambda>e. case e of SymbioticException _ \<Rightarrow> ret () | _ \<Rightarrow> throw e)"

definition compile_watch :: watch where
  "compile_watch = new_watch (CompileWatch False) (Some 0)"

definition run_command :: "cc_env \<Rightarrow> string list \<Rightarrow> watch \<Rightarrow> string \<Rightarrow> unit step" where
  "run_command E cmd w msg = bnd (runcmd (e_world E) cmd w msg) (\<lambda>_. ret ())"

definition generate_ll_file :: "cc_env \<Rightarrow> string option \<Rightarrow> unit step" where
  "generate_ll_file E outf =
     with_state (\<lambda>s. onlyif (generate_ll (c_opts s))
       (bnd curfile (\<lambda>f.
        ignore_failure
          (run_command E
            ([''llvm-dis'', f] @ (case outf of None \<Rightarrow> [] | Some out \<Rightarrow> [''-o'', out]))
            compile_watch (''Generating .ll file from '' @ quoted f @ '' failed'')))))"

definition save_ll :: "cc_env \<Rightarrow> unit step" where
  "save_ll E = with_state (\<lambda>s. onlyif (save_files (c_opts s)) (generate_ll_file E None))"

definition cc_command :: "cc_env \<Rightarrow> string list \<Rightarrow> unit step" where
  "cc_command E cmd =
     run_command E cmd (new_watch DbgWatch (Some 0)) (''Failed running command: '' @ join '' '' cmd)"

definition compile_command ::
  "tool \<Rightarrow> options \<Rightarrow> string \<Rightarrow> string \<Rightarrow> bool \<Rightarrow> string list \<Rightarrow> string list" where
  "compile_command tt os source llvmfile with_g opts =
     default_cc tt @ [''-c'', ''-emit-llvm'', ''-fgnu89-inline'', ''-D__inline=''] @ opts @
     (if witness_check os then [''-includewitch.h''] else []) @
     (if with_g then [''-g''] else []) @ CFLAGS os @ CPPFLAGS os @
     (if is32bit os then [''-m32''] else []) @
     (if generate_ll os then [''-fno-discard-value-names''] else []) @
     [''-o'', llvmfile, source]"

definition compile_to_llvm ::
  "cc_env \<Rightarrow> tool \<Rightarrow> string \<Rightarrow> string option \<Rightarrow> bool \<Rightarrow> string list \<Rightarrow> string step" where
  "compile_to_llvm E tt source out with_g opts =
     with_state (\<lambda>s.
       let llvmfile = (case out of None \<Rightarrow> stem (basename_of source) @ ''.bc'' | Some f \<Rightarrow> f)
       in sq (run_command E (compile_command tt (c_opts s) source llvmfile with_g opts) compile_watch
                (''Compiling source '' @ quoted source @ '' failed''))
            (ret llvmfile))"

text \<open>\<open>_disable_new_pm\<close>: the argument it appends for the LLVM version of the tool.\<close>

definition new_pm_args :: "tool \<Rightarrow> exn + string list" where
  "new_pm_args tt =
     bindE (of_opt ValueError (py_int (hd (split_on (CHR ''.'') (tl_llvm_version tt))))) (\<lambda>major.
     Inr (if 13 \<le> major then [''-enable-new-pm=0''] else []))"

definition run_opt :: "cc_env \<Rightarrow> tool \<Rightarrow> string list \<Rightarrow> unit step" where
  "run_opt E tt passes =
     onlyif (passes \<noteq> [])
       (bnd curfile (\<lambda>f.
        let out = stem f @ ''-pr.bc'' in
        bnd (lift (new_pm_args tt)) (\<lambda>npm.
        steps
          [run_command E ([''opt'', ''-load'', ''LLVMsbt.so'', f, ''-o'', out] @ passes @ npm)
             (new_watch PrepareWatch (Some 100)) ''Running opt failed'',
           set_curfile out, save_ll E])))"

definition get_stats :: "cc_env \<Rightarrow> tool \<Rightarrow> unit step" where
  "get_stats E tt =
     with_state (\<lambda>s. onlyif (stats (c_opts s))
       (bnd curfile (\<lambda>f.
        bnd (lift (new_pm_args tt)) (\<lambda>npm.
        ignore_failure
          (run_command E
            ([''opt'', ''-load'', ''LLVMsbt.so'', ''-count-instr'', ''-o'', ''/dev/null'', f] @ npm)
            (new_watch PrintWatch (Some 0)) ''Failed running opt'')))))"

section \<open>Instrumentation\<close>

definition bin_dir :: "cc_env \<Rightarrow> tool \<Rightarrow> options \<Rightarrow> string" where
  "bin_dir E tt os =
     path_join (path_join (e_symbiotic_dir E) (''llvm-'' @ tl_llvm_version tt))
       (if is32bit os then ''lib32'' else ''lib'')"

text \<open>The module with the definitions of the instrumented functions: a precompiled one if there
  is one, otherwise it is compiled.\<close>

definition instr_definitions :: "cc_env \<Rightarrow> tool \<Rightarrow> string \<Rightarrow> string \<Rightarrow> string step" where
  "instr_definitions E tt dir defs =
     with_state (\<lambda>s.
       let precompiled = bin_dir E tt (c_opts s) @ ''/'' @ slice_to defs (- 2) @ ''.bc'';
           source = path_join (path_join (e_instr_files E) dir) defs
       in if isfile (e_world E) (s_log s) precompiled then ret precompiled
          else sq (assertc (isfile (e_world E) (s_log s) source))
            (bnd (compile_to_llvm E tt source
                    (Some (basename_of (slice_to source (- 2) @ ''.bc''))) False [''-O3'']) (\<lambda>f.
             ret (abspath (e_world E) f))))"

text \<open>What happens when the instrumentation returns a failure status: a verdict of Predator, or
  to go on without slicing and with no more optimizations, or to give up.\<close>

definition instrumentation_failed :: "int option \<Rightarrow> watch \<Rightarrow> unit step" where
  "instrumentation_failed status w =
     (if \<exists>line \<in> set (get_lines w). is_in ''PredatorPlugin: Predator found no errors'' line
      then throw (SymbioticExceptionalResult ''true'')
      else
        sq (print_lines (get_lines w))
        (sq (with_state (\<lambda>s.
           if \<not> full_instrumentation (c_opts s) \<and> (status = Some 124 \<or> sv_comp (c_opts s))
           then upd (c_opts_update (\<lambda>os. os\<lparr>noslice := True, no_optimize := False, optlevel := []\<rparr>))
           else throw (SymbioticException ''Instrumenting the code failed'')))
         print_elapsed_time))"

definition instr_command :: "options \<Rightarrow> string \<Rightarrow> string \<Rightarrow> string \<Rightarrow> string \<Rightarrow> bool \<Rightarrow> string list" where
  "instr_command os config f defsbc out shouldlink =
     (if 0 < instrumentation_timeout os
      then [''timeout'', str_int (instrumentation_timeout os)] else []) @
     [''sbt-instr'', config, f, defsbc, out] @ (if \<not> shouldlink then [''--no-linking''] else [])"

definition run_instrumentation ::
  "cc_env \<Rightarrow> tool \<Rightarrow> string \<Rightarrow> string \<Rightarrow> bool \<Rightarrow> unit step" where
  "run_instrumentation E tt config defsbc shouldlink =
     sq (get_stats E tt)
     (bnd curfile (\<lambda>f.
      let out = stem f @ ''-inst.bc'' in
      bnd (reads (\<lambda>s. instr_command (c_opts s) config f defsbc out shouldlink)) (\<lambda>cmd.
      sq restart_counting_time
      (bnd (run_process (e_world E) cmd (new_watch InstrumentationWatch (Some 100))) (\<lambda>(status, w).
       sq (if status \<noteq> Some 0 then instrumentation_failed status w
           else steps [print_elapsed_time, set_curfile out, save_ll E])
          (get_stats E tt))))))"

definition instr_config :: "instr \<Rightarrow> options \<Rightarrow> py_prop \<Rightarrow> string option" where
  "instr_config ins os p =
     (if memsafety p \<and> str_set (memsafety_config_file os) then memsafety_config_file os
      else i_config ins)"

definition instrument :: "cc_env \<Rightarrow> tool \<Rightarrow> unit step" where
  "instrument E tt =
     (case tl_instrumentation_options tt of None \<Rightarrow> ret () | Some io \<Rightarrow>
      bnd (ask io) (\<lambda>ins.
      bnd (ask (instr_config ins)) (\<lambda>cfg.
      case cfg of None \<Rightarrow> ret () | Some config_file \<Rightarrow>
      sq (assertc (str_set (i_definitions ins)))
      (bnd (lift (of_opt TypeError (i_dir ins))) (\<lambda>dir.
       let config = path_join (path_join (e_instr_files E) dir) config_file in
       with_state (\<lambda>s.
         if \<not> isfile (e_world E) (s_log s) config
         then throw (SymbioticException (''Not a valid config file: '' @ quoted config))
         else bnd (instr_definitions E tt dir (the (i_definitions ins))) (\<lambda>defsbc.
              sq (assertc (defsbc \<noteq> []))
                 (run_instrumentation E tt config defsbc (i_link ins)))))))))"

section \<open>Linking\<close>

definition link_files_into :: "cc_env \<Rightarrow> string list \<Rightarrow> string option \<Rightarrow> unit step" where
  "link_files_into E libs out =
     sq (assertc (libs \<noteq> []))
     (bnd (case out of Some f \<Rightarrow> ret f | None \<Rightarrow> bnd curfile (\<lambda>f. ret (stem f @ ''-ln.bc''))) (\<lambda>f.
      bnd (reads (\<lambda>s. [''llvm-link'', ''-o'', f] @ libs @
             (if str_set (c_curfile s) then [the (c_curfile s)] else []))) (\<lambda>cmd.
      steps
        [run_command E cmd (new_watch DbgWatch (Some 0)) ''Failed linking llvm file with libraries'',
         set_curfile f, save_ll E])))"

text \<open>Where the definition of an undefined function may be, in the order of preference: for
  every type of \<open>linkundef\<close> the tool's version before the generic one, bitcode before C.\<close>

definition definition_paths ::
  "cc_env \<Rightarrow> string \<Rightarrow> string \<Rightarrow> bool \<Rightarrow> string \<Rightarrow> string \<Rightarrow> string list" where
  "definition_paths E llvmver tool_dir is32 undef ty =
     (let d = e_symbiotic_dir E; lib = (if is32 then ''lib32'' else ''lib'');
          bin = d @ ''/llvm-'' @ llvmver @ ''/'' @ lib @ ''/'' @ ty; src = d @ ''/lib/'' @ ty
      in map (abspath (e_world E))
           [bin @ ''/'' @ tool_dir @ ''/'' @ undef @ ''.bc'', src @ ''/'' @ tool_dir @ ''/'' @ undef @ ''.c'',
            bin @ ''/'' @ undef @ ''.bc'', src @ ''/'' @ undef @ ''.c''])"

definition get_path :: "cc_env \<Rightarrow> tool \<Rightarrow> string \<Rightarrow> cc \<Rightarrow> string option" where
  "get_path E tt undef s =
     find (isfile (e_world E) (s_log s))
       (concat (map (definition_paths E (tl_llvm_version tt) (lower (tl_name tt))
                       (is32bit (c_opts s)) undef) (linkundef (c_opts s))))"

definition link_one :: "cc_env \<Rightarrow> tool \<Rightarrow> string \<Rightarrow> string option step" where
  "link_one E tt undef =
     bnd (reads (get_path E tt undef)) (\<lambda>path.
     case path of None \<Rightarrow> ret None | Some f \<Rightarrow>
       (let out = abspath (e_world E) (stem (basename_of f) @ ''.bc'') in
        bnd (compile_to_llvm E tt f (Some out) True []) (\<lambda>_.
        sq (upd (c_linked_update (\<lambda>l. l @ [undef]))) (ret (Some out)))))"

definition link_undefs :: "cc_env \<Rightarrow> tool \<Rightarrow> string list \<Rightarrow> bool step" where
  "link_undefs E tt undefs =
     bnd (mapm (link_one E tt) undefs) (\<lambda>outs.
     let tolink = List.map_filter (\<lambda>x. x) outs in
     if tolink \<noteq> [] then sq (link_files_into E tolink None) (ret True) else ret False)"

definition link_unconditional :: "cc_env \<Rightarrow> tool \<Rightarrow> unit step" where
  "link_unconditional E tt =
     bnd (reads (\<lambda>s. link_files (c_opts s))) (\<lambda>fs. bnd (link_undefs E tt fs) (\<lambda>_. ret ()))"

definition decode_ascii :: "string \<Rightarrow> exn + string" where
  "decode_ascii b = (if ascii b then Inr b else Inl ValueError)"

definition get_undefined :: "cc_env \<Rightarrow> string \<Rightarrow> string list option \<Rightarrow> string list step" where
  "get_undefined E bitcode only_func =
     bnd (runcmd (e_world E) [''llvm-nm'', ''--undefined-only'', ''-j'', bitcode]
            (new_watch PlainWatch None) ''Failed getting undefined symbols from bitcode'') (\<lambda>w.
     bnd (lift (mapE (\<lambda>line. decode_ascii (strip_bytes line)) (get_lines w))) (\<lambda>undefs.
     ret (case only_func of
            Some (f # fs) \<Rightarrow> filter (\<lambda>x. x \<in> set (f # fs)) undefs
          | _ \<Rightarrow> undefs)))"

text \<open>The recursion ends when nothing was linked; it is bounded by the interpreter.\<close>

fun rec_link_undefined :: "nat \<Rightarrow> cc_env \<Rightarrow> tool \<Rightarrow> string list option \<Rightarrow> unit step" where
  "rec_link_undefined 0 E tt only_func = throw RecursionError"
| "rec_link_undefined (Suc n) E tt only_func =
     bnd curfile (\<lambda>f.
     bnd (get_undefined E f only_func) (\<lambda>undefs.
     bnd (link_undefs E tt undefs) (\<lambda>linked.
     onlyif linked (rec_link_undefined n E tt None))))"

definition link_undefined :: "cc_env \<Rightarrow> tool \<Rightarrow> string list option \<Rightarrow> unit step" where
  "link_undefined E tt only_func =
     with_state (\<lambda>s. onlyif (linkundef (c_opts s) \<noteq> [])
       (sq (upd (c_linked_update (\<lambda>_. []))) (rec_link_undefined (e_depth E) E tt only_func)))"

section \<open>Slicing and optimizing\<close>

definition slicer_command ::
  "options \<Rightarrow> string list \<Rightarrow> string list \<Rightarrow> string list \<Rightarrow> string \<Rightarrow> string list" where
  "slicer_command os crit opts add_params f =
     (if 0 < slicer_timeout os then [''timeout'', str_int (slicer_timeout os)] else []) @
     slicer_cmd os @ [''-c'', join '','' crit] @ opts @
     (if slicer_pta os \<in> {''fi'', ''fs''} then [''-pta'', slicer_pta os] else []) @
     (if undefined_are_pure os then [''-undefined-are-pure''] else []) @
     slicer_params os @ add_params @ [f]"

definition slicer_failed :: "int option \<Rightarrow> watch \<Rightarrow> unit step" where
  "slicer_failed status w =
     sq (onlyif (status \<noteq> Some 124) (print_lines (get_lines w)))
     (with_state (\<lambda>s.
        if require_slicer (c_opts s)
        then throw (SymbioticException ''Slicing failed (and is required)'')
        else upd (c_opts_update (\<lambda>os. os\<lparr>noslice := True\<rparr>))))"

definition slicer :: "cc_env \<Rightarrow> tool \<Rightarrow> string list \<Rightarrow> unit step" where
  "slicer E tt add_params =
     bnd (case tl_slicer_options tt of
            Some so \<Rightarrow> ask so | None \<Rightarrow> ret ([''__assert_fail,__VERIFIER_error''], [])) (\<lambda>(crit, opts).
     sq (assertc (crit \<noteq> []))
     (bnd curfile (\<lambda>f.
      let out = stem f @ ''.sliced'' in
      bnd (reads (\<lambda>s. slicer_command (c_opts s) crit opts add_params f)) (\<lambda>cmd.
      bnd (run_process (e_world E) cmd (new_watch SlicerWatch (Some 100))) (\<lambda>(status, w).
      if status \<noteq> Some 0 then slicer_failed status w
      else steps [set_curfile out, save_ll E])))))"

text \<open>\<open>disable += disabled_optimizations\<close> extends the default value of the parameter, which
  the next call sees. The lists of passes are \<open>filter\<close> and \<open>map\<close> objects, so the test for
  an empty list after them does nothing; it only prints anyway.\<close>

definition renamed :: "(string \<times> string) list \<Rightarrow> string \<Rightarrow> string" where
  "renamed rs x = (case map_of rs x of None \<Rightarrow> x | Some y \<Rightarrow> y)"

definition optimize_passes :: "string list \<Rightarrow> (string \<times> string) list \<Rightarrow> string list \<Rightarrow> string list" where
  "optimize_passes disable renames passes =
     map (renamed renames) (filter (\<lambda>x. x \<notin> set disable) passes)"

definition optimize :: "cc_env \<Rightarrow> tool \<Rightarrow> string list \<Rightarrow> bool \<Rightarrow> unit step" where
  "optimize E tt passes load_sbt =
     with_state (\<lambda>s. onlyif (passes \<noteq> [] \<and> \<not> no_optimize (c_opts s))
       (sq (upd (\<lambda>s. s\<lparr>c_disable := c_disable s @ disabled_optimizations (c_opts s)\<rparr>))
        (bnd (reads (\<lambda>s. optimize_passes (c_disable s) (c_renames s) passes)) (\<lambda>ps.
         bnd curfile (\<lambda>f.
         let out = stem f @ ''-opt.bc'' in
         bnd (lift (new_pm_args tt)) (\<lambda>npm.
         steps
           [restart_counting_time,
            run_command E
              ([''opt''] @ (if load_sbt then [''-load'', ''LLVMsbt.so''] else []) @ npm @
               [''-o'', out, f] @ ps)
              compile_watch ''Optimizing the code failed'',
            print_elapsed_time, set_curfile out, save_ll E]))))))"

section \<open>The phases\<close>

definition compile_one :: "cc_env \<Rightarrow> tool \<Rightarrow> string list \<Rightarrow> string \<Rightarrow> string step" where
  "compile_one E tt opts source =
     with_state (\<lambda>s.
       if source_is_bc (c_opts s) \<or> endswith source ''.bc'' \<or> endswith source ''.ll'' then ret source
       else compile_to_llvm E tt source None True opts)"

definition compile_sources :: "cc_env \<Rightarrow> tool \<Rightarrow> unit step" where
  "compile_sources E tt =
     bnd (reads (\<lambda>s. memsafety (c_prop s))) (\<lambda>mem.
     bnd (if mem then cc_has_lifetime_markers E tt else ret False) (\<lambda>markers.
     bnd (ask_list (tl_compilation_options tt)) (\<lambda>copts.
     let opts = [''-Wno-unused-parameter'', ''-Wno-unknown-attributes'', ''-Wno-unused-label'',
                 ''-Wno-unknown-pragmas'', ''-Wno-unused-command-line-argument''] @
                (if markers then [''-Xclang'', ''-fsanitize-address-use-after-scope''] else []) @
                copts @ cc_disable_optimizations
     in bnd (reads c_sources) (\<lambda>sources.
        bnd (mapm (compile_one E tt opts) sources) (\<lambda>llvmsrc.
        link_files_into E llvmsrc (Some ''code.bc''))))))"

definition perform_slicing :: "cc_env \<Rightarrow> tool \<Rightarrow> unit step" where
  "perform_slicing E tt =
     sq (get_stats E tt)
     (bnd (ask_list (tl_slicing_params tt)) (\<lambda>add_params.
      sq restart_counting_time
      (bnd (reads (\<lambda>s. repeat_slicing (c_opts s))) (\<lambda>repeats.
       steps
         [each (\<lambda>n.
            sq (slicer E tt add_params)
               (with_state (\<lambda>s. onlyif (1 < repeat_slicing (c_opts s))
                 (optimize E tt
                   (get_optlist_after (optlevel (c_opts s)) @ [''-remove-infinite-loops'']) True))))
            [0..<nat repeats],
          print_elapsed_time, get_stats E tt]))))"

definition cc_action :: "cc_env \<Rightarrow> tool \<Rightarrow> action \<Rightarrow> unit step" where
  "cc_action E tt a =
     (case a of
        ActLink only \<Rightarrow> link_undefined E tt only
      | ActLinkFrom types funs restore \<Rightarrow>
          with_state (\<lambda>s.
            steps
              [upd (c_opts_update (\<lambda>os. os\<lparr>linkundef := types\<rparr>)),
               link_undefined E tt (Some funs),
               upd (c_opts_update (\<lambda>os. os\<lparr>linkundef :=
                 (if restore then linkundef (c_opts s) else [])\<rparr>))])
      | ActPasses passes \<Rightarrow> run_opt E tt passes
      | ActConvert cmd sfx \<Rightarrow>
          bnd curfile (\<lambda>f.
          steps
            [run_command E (cmd f (f @ sfx)) (new_watch DbgWatch (Some 0)) [],
             set_curfile (f @ sfx)]))"

definition run_actions ::
  "cc_env \<Rightarrow> tool \<Rightarrow> (options \<Rightarrow> py_prop \<Rightarrow> action list) option \<Rightarrow> unit step" where
  "run_actions E tt f = bnd (ask_list f) (each (cc_action E tt))"

definition process_after_slicing :: "cc_env \<Rightarrow> tool \<Rightarrow> unit step" where
  "process_after_slicing E tt =
     sq (run_actions E tt (tl_actions_after_slicing tt))
     (bnd (ask_list (tl_passes_after_slicing tt)) (\<lambda>tool_passes.
      bnd (reads (\<lambda>s.
             (if \<not> termination_prp (c_prop s) then [''-remove-infinite-loops''] else []) @
             (if memsafety (c_prop s) then [''-remove-readonly-attr'', ''-dummy-marker''] else []) @
             tool_passes)) (\<lambda>passes.
      steps
        [run_opt E tt passes, link_undefined E tt None,
         with_state (\<lambda>s. optimize E tt (get_optlist_after (optlevel (c_opts s))) False),
         print_elapsed_time])))"

definition prepare_unsliced_file :: "cc_env \<Rightarrow> tool \<Rightarrow> string step" where
  "prepare_unsliced_file E tt =
     bnd (reads c_nonsliced) (\<lambda>ns.
     bnd (lift (of_opt AttributeError ns)) (\<lambda>file.
     bnd (reads c_curfile) (\<lambda>tmp.
     sq (set_curfile file)
     (sq (process_after_slicing E tt)
     (bnd curfile (\<lambda>llvmfile.
      sq (upd (c_curfile_update (\<lambda>_. tmp))) (ret llvmfile)))))))"

text \<open>The version is three numbers; anything else is a \<open>ValueError\<close>.\<close>

definition llvm_numbers :: "tool \<Rightarrow> exn + int \<times> int" where
  "llvm_numbers tt =
     bindE (mapE (\<lambda>x. of_opt ValueError (py_int x)) (split_on (CHR ''.'') (tl_llvm_version tt))) (\<lambda>ns.
     case ns of [major, minor, micro] \<Rightarrow> Inr (major, minor) | _ \<Rightarrow> Inl ValueError)"

definition disabled_for :: "py_prop \<Rightarrow> int \<Rightarrow> int \<Rightarrow> string list" where
  "disabled_for p major minor =
     (if termination_prp p then [''-functionattrs'', ''-instcombine''] else []) @
     (if signedoverflow p then [''-instcombine''] else []) @
     (if memsafety p then [''-licm'', ''-gvn'', ''-early-cse''] else []) @
     (if major = 3 \<and> minor \<le> 7
      then [''-aa'', ''-demanded-bits'', ''-globals-aa'', ''-forceattrs'', ''-inferattrs'',
            ''-rpo-functionattrs''] else []) @
     (if major = 3 \<and> minor \<le> 6
      then [''-tti'', ''-bdce'', ''-elim-avail-extern'', ''-float2int'', ''-loop-accesses''] else [])"

definition renames_for :: "int \<Rightarrow> (string \<times> string) list" where
  "renames_for major =
     (if 11 \<le> major then [(''-basicaa'', ''-basic-aa'')] else []) @
     (if 12 \<le> major
      then [(''-functionattrs'', ''-function-attrs''),
            (''-rpo-functionattrs'', ''-rpo-function-attrs''),
            (''-scoped-noalias'', ''-scoped-noalias-aa'')] else [])"

definition disable_and_rename_optimizations :: "tool \<Rightarrow> unit step" where
  "disable_and_rename_optimizations tt =
     bnd (lift (llvm_numbers tt)) (\<lambda>(major, minor).
     upd (\<lambda>s. s\<lparr>c_opts := (c_opts s)\<lparr>disabled_optimizations := disabled_for (c_prop s) major minor\<rparr>,
                c_renames := renames_for major\<rparr>))"

text \<open>Checking a witness against the program: both are rewritten by the transformer, and the
  rewritten files, in the working directory, are used from then on.\<close>

definition validation_preprocessing :: "cc_env \<Rightarrow> unit step" where
  "validation_preprocessing E =
     with_state (\<lambda>s.
       bnd (lift (of_opt IndexError (py_nth (c_sources s) 0))) (\<lambda>source.
       bnd (lift (of_opt TypeError (witness_check_file (c_opts s)))) (\<lambda>wfile.
       if \<not> isfile (e_world E) (s_log s) source
       then lift (err (''Program file '' @ source @ '' missing!''))
       else if \<not> isfile (e_world E) (s_log s) wfile
       then lift (err (''Witness file '' @ wfile @ '' missing!''))
       else
         sq (upd (c_og_file_update (\<lambda>_. Some source)))
         (sq (assertc (length (c_sources s) = 1))
         (bnd (lift (init_transformer source (snd (e_clang E source)) (e_yaml E wfile))) (\<lambda>st.
          bnd (lift (transform (fst (e_clang E source)) (the (e_content (hd (e_yaml E wfile))))
                 (st\<lparr>t_check_all := check_all_locations (c_opts s)\<rparr>))) (\<lambda>(content, st').
          steps
            [onlyif (guide_only (c_opts s)) (upd (c_shifted_update (\<lambda>_. t_shift st'))),
             upd (\<lambda>s. s\<lparr>c_opts := (c_opts s)\<lparr>witness_check_file := Some (basename_of wfile)\<rparr>,
                        c_sources := [basename_of source]\<rparr>)])))))))"

section \<open>The whole compiler phase\<close>

definition preprocessing_passes :: "options \<Rightarrow> py_prop \<Rightarrow> string list" where
  "preprocessing_passes os p =
     (if memsafety p \<or> undefinedness p \<or> signedoverflow p \<or> termination_prp p \<or> memcleanup p
      then [''-remove-error-calls''] else []) @
     (if memcleanup p \<or> termination_prp p then [''-remove-error-calls-use-exit''] else []) @
     (if \<not> termination_prp p then [''-remove-infinite-loops''] else []) @
     (if (undefinedness p \<or> signedoverflow p) \<and> \<not> witness_check os
      then [''-replace-ubsan''] else []) @
     (if signedoverflow p \<and> \<not> overflow_with_clang os
      then (if \<not> witness_check os
            then [''-replace-ubsan-just-remove'', ''-replace-ubsan-keep-shifts'', ''-prepare-overflows'']
            else []) @ [''-mem2reg'', ''-break-crit-edges'']
      else [])"

definition slicing_passes :: "options \<Rightarrow> py_prop \<Rightarrow> string list" where
  "slicing_passes os p =
     get_optlist_before (optlevel os) @
     (if \<not> noslice os \<and> ''before-O3'' \<in> set (optlevel os)
      then (if termination_prp p then [''-reg2mem'', ''-break-infinite-loops''] else []) @
           [''-remove-infinite-loops'', ''-mem2reg'', ''-break-crit-loops'', ''-lowerswitch'']
      else [])"

definition run_compilation :: "cc_env \<Rightarrow> tool \<Rightarrow> unit step" where
  "run_compilation E tt =
     steps
       [restart_counting_time,
        disable_and_rename_optimizations tt,
        with_state (\<lambda>s. onlyif (witness_check (c_opts s)) (validation_preprocessing E)),
        compile_sources E tt,
        bnd curfile (\<lambda>f. set_curfile (abspath (e_world E) f)),
        save_ll E,
        get_stats E tt,
        bnd (ask_list (tl_passes_after_compilation tt)) (run_opt E tt),
        run_actions E tt (tl_actions_after_compilation tt),
        with_state (\<lambda>s. onlyif (unroll_count (c_opts s) \<noteq> 0)
          (run_opt E tt [''-reg2mem'', ''-sbt-loop-unroll'', ''-sbt-loop-unroll-count'',
             str_int (unroll_count (c_opts s)), ''-sbt-loop-unroll-terminate'']))]"

definition run_instrument :: "cc_env \<Rightarrow> tool \<Rightarrow> unit step" where
  "run_instrument E tt =
     steps
       [link_unconditional E tt,
        bnd (ask preprocessing_passes) (run_opt E tt),
        with_state (\<lambda>s. onlyif (\<not> no_instrument (c_opts s)) (instrument E tt)),
        bnd (ask_list (tl_passes_after_instrumentation tt)) (\<lambda>passes.
        with_state (\<lambda>s.
          run_opt E tt (passes @
            (if memsafety (c_prop s) then [''-replace-lifetime-markers'', ''-mark-volatile''] else []))))]"

definition run_slicing :: "cc_env \<Rightarrow> tool \<Rightarrow> unit step" where
  "run_slicing E tt =
     steps
       [bnd (ask slicing_passes) (\<lambda>passes. optimize E tt passes True),
        run_actions E tt (tl_actions_before_slicing tt),
        with_state (\<lambda>s. onlyif (link_files_before_slicing (c_opts s) \<noteq> [])
          (link_undefined E tt (Some (link_files_before_slicing (c_opts s))))),
        upd (\<lambda>s. s\<lparr>c_nonsliced := c_curfile s\<rparr>),
        bnd (ask_list (tl_passes_before_slicing tt)) (run_opt E tt),
        link_undefined E tt (Some [''atexit'', ''qsort'']),
        run_opt E tt [''-explicit-consdes''],
        with_state (\<lambda>s.
          if \<not> noslice (c_opts s) then perform_slicing E tt
          else onlyif (require_slicer (c_opts s))
            (throw (SymbioticException ''Slicing required but forbiden...''))),
        restart_counting_time,
        process_after_slicing E tt,
        get_stats E tt]"

definition write_final_output :: "cc_env \<Rightarrow> unit step" where
  "write_final_output E =
     with_state (\<lambda>s.
       case final_output (c_opts s) of None \<Rightarrow> ret () | Some out \<Rightarrow>
       if generate_ll (c_opts s) \<and> endswith out ''.ll'' then generate_ll_file E (Some out)
       else bnd curfile (\<lambda>f.
            case e_move E f out of
              Some msg \<Rightarrow> throw (SymbioticException (''Cannot create '' @ out @ '': '' @ msg))
            | None \<Rightarrow> sq (set_curfile out) (generate_ll_file E None)))"

definition cc_run :: "cc_env \<Rightarrow> tool \<Rightarrow> string step" where
  "cc_run E tt =
     sq (run_compilation E tt)
     (sq (run_instrument E tt)
     (sq (run_slicing E tt)
     (sq (write_final_output E) curfile)))"

end
