(* ===== verification/Phases.thy ===== *)
theory Phases
  imports CC
begin

text \<open>
  What the compiler phase keeps. The locale \<open>command_invariant\<close> is the contract between the
  phases and a predicate on their state: it holds for the commands that are run, for the
  updates the methods make, and then every method keeps it, on its exceptional paths too. Its
  interpretations give: no external program is left running, no slicer is run when slicing is
  off, and the list that \<open>optimize\<close> extends never disables more than the property asks for.
\<close>

lemma bnd_reads: "bnd (reads f) k = with_state (\<lambda>s. k (f s))"
  by (simp add: bnd_def reads_def with_state_def fun_eq_iff)

lemma keeps_case_option [inv_intros]:
  "(x = None \<Longrightarrow> keeps I m) \<Longrightarrow> (\<And>y. x = Some y \<Longrightarrow> keeps I (k y)) \<Longrightarrow>
    keeps I (case x of None \<Rightarrow> m | Some y \<Rightarrow> k y)"
  by (cases x) auto

lemma keeps_case_prod [inv_intros]:
  "(\<And>a b. x = (a, b) \<Longrightarrow> keeps I (k a b)) \<Longrightarrow> keeps I (case x of (a, b) \<Rightarrow> k a b)"
  by (cases x) auto

lemmas run_defs = Let_def ask_def ask_list_def bnd_reads steps.simps

locale command_invariant =
  fixes E :: cc_env and tt :: tool and I :: "cc \<Rightarrow> bool" and P :: "string list \<Rightarrow> bool"
  assumes run: "P cmd \<Longrightarrow> keeps I (run_process (e_world E) cmd w)"
    and timer: "I s \<Longrightarrow> I (s\<lparr>s_timer := b\<rparr>)"
    and curf: "I s \<Longrightarrow> I (s\<lparr>c_curfile := f\<rparr>)"
    and linked: "I s \<Longrightarrow> I (s\<lparr>c_linked := l\<rparr>)"
    and nonsliced: "I s \<Longrightarrow> I (s\<lparr>c_nonsliced := f\<rparr>)"
    and disable: "I s \<Longrightarrow> I (s\<lparr>c_disable := c_disable s @ disabled_optimizations (c_opts s)\<rparr>)"
    and no_slice: "I s \<Longrightarrow> I (s\<lparr>c_opts := (c_opts s)\<lparr>noslice := True\<rparr>\<rparr>)"
    and no_optlevel: "I s \<Longrightarrow>
      I (s\<lparr>c_opts := (c_opts s)\<lparr>noslice := True, no_optimize := False, optlevel := []\<rparr>\<rparr>)"
    and types: "I s \<Longrightarrow> I (s\<lparr>c_opts := (c_opts s)\<lparr>linkundef := ts\<rparr>\<rparr>)"
    and llvm: "x \<in> {''opt'', ''llvm-link'', ''llvm-nm'', ''llvm-dis''} \<Longrightarrow> P (x # args)"
    and compiler: "P (default_cc tt @ args)"
    and instrumenter: "P (instr_command os config fname defsbc out shouldlink)"
    and slicers: "I s \<Longrightarrow> \<not> noslice (c_opts s) \<Longrightarrow> P (slicer_command os crit opts ps fname)"
    and converters: "acts \<in> {tl_actions_after_compilation tt, tl_actions_before_slicing tt,
        tl_actions_after_slicing tt} \<Longrightarrow> acts = Some g \<Longrightarrow>
        ActConvert conv sfx \<in> set (g os p) \<Longrightarrow> P (conv a1 a2)"
begin

lemma more_updates:
  "I s \<Longrightarrow> I (c_opts_update (noslice_update (\<lambda>_. True)) s)"
  "I s \<Longrightarrow> I (c_opts_update (\<lambda>os. os\<lparr>noslice := True, no_optimize := False, optlevel := []\<rparr>) s)"
  "I s \<Longrightarrow> I (c_opts_update (linkundef_update (\<lambda>_. ts)) s)"
  "I s \<Longrightarrow> I (c_linked_update g s)"
  using no_slice [of s] no_optlevel [of s] types [of s ts] linked [of s "g (c_linked s)"]
  by (cases s; simp)+

lemma in_llvm:
  "P (''opt'' # args)" "P (''llvm-link'' # args)" "P (''llvm-nm'' # args)" "P (''llvm-dis'' # args)"
  by (rule llvm, simp)+

lemma keeps_run_command:
  "P cmd \<Longrightarrow> keeps I (run_command E cmd w msg)" "P cmd \<Longrightarrow> keeps I (runcmd (e_world E) cmd w msg)"
  unfolding run_command_def runcmd_def by (intro inv_intros keeps_print_lines run; assumption)+

lemma keeps_ignore: "keeps I m \<Longrightarrow> keeps I (ignore_failure m)"
  unfolding ignore_failure_def by (intro inv_intros) (auto intro: inv_intros split: exn.split)

lemma keeps_curfile: "keeps I curfile"
  unfolding curfile_def by (intro inv_intros)

lemma keeps_set_curfile: "keeps I (set_curfile f)"
  unfolding set_curfile_def by (intro inv_intros curf)

lemma keeps_timer: "keeps I restart_counting_time" "keeps I print_elapsed_time"
  unfolding restart_counting_time_def print_elapsed_time_def by (intro inv_intros timer; assumption)+

lemmas basic = keeps_curfile keeps_set_curfile keeps_timer keeps_ignore

lemma keeps_generate_ll: "keeps I (generate_ll_file E out)"
  unfolding generate_ll_file_def run_defs append_Cons
  by (intro inv_intros basic keeps_run_command in_llvm)

lemma keeps_save_ll: "keeps I (save_ll E)"
  unfolding save_ll_def by (intro inv_intros keeps_generate_ll)

lemma keeps_compile: "keeps I (compile_to_llvm E tt source out with_g opts)"
  unfolding compile_to_llvm_def compile_command_def run_defs
  by (intro inv_intros keeps_run_command compiler)

lemma keeps_run_opt: "keeps I (run_opt E tt passes)"
  unfolding run_opt_def run_defs append_Cons
  by (intro inv_intros basic keeps_run_command keeps_save_ll in_llvm)

lemma keeps_get_stats: "keeps I (get_stats E tt)"
  unfolding get_stats_def run_defs append_Cons
  by (intro inv_intros basic keeps_run_command in_llvm)

lemma keeps_definitions: "keeps I (instr_definitions E tt dir defs)"
  unfolding instr_definitions_def run_defs by (intro inv_intros keeps_compile)

lemma keeps_instr_failed: "keeps I (instrumentation_failed status w)"
  unfolding instrumentation_failed_def by (intro inv_intros keeps_print_lines basic more_updates)

lemma keeps_run_instrumentation: "keeps I (run_instrumentation E tt config defsbc sl)"
  unfolding run_instrumentation_def run_defs
  by (intro inv_intros basic keeps_get_stats keeps_instr_failed keeps_save_ll run instrumenter)

lemma keeps_instrument: "keeps I (instrument E tt)"
  unfolding instrument_def run_defs
  by (intro inv_intros keeps_definitions keeps_run_instrumentation)

lemma keeps_link: "keeps I (link_files_into E libs out)"
  unfolding link_files_into_def run_defs append_Cons
  by (intro inv_intros basic keeps_run_command keeps_save_ll in_llvm)

lemma keeps_link_undefs: "keeps I (link_undefs E tt undefs)"
  unfolding link_undefs_def link_one_def run_defs
  by (intro inv_intros keeps_compile keeps_link more_updates)

lemma keeps_get_undefined: "keeps I (get_undefined E f only)"
  unfolding get_undefined_def by (intro inv_intros keeps_run_command in_llvm)

lemma keeps_rec_link: "keeps I (rec_link_undefined n E tt only)"
  by (induction n arbitrary: only)
    (auto intro!: inv_intros basic keeps_get_undefined keeps_link_undefs)

lemma keeps_link_undefined: "keeps I (link_undefined E tt only)"
  unfolding link_undefined_def by (intro inv_intros linked keeps_rec_link)

lemma keeps_link_unconditional: "keeps I (link_unconditional E tt)"
  unfolding link_unconditional_def run_defs by (intro inv_intros keeps_link_undefs)

lemma keeps_optimize: "keeps I (optimize E tt passes load)"
  unfolding optimize_def run_defs append_Cons
  by (intro inv_intros basic keeps_run_command keeps_save_ll in_llvm disable)

lemma keeps_action:
  assumes "acts \<in> {tl_actions_after_compilation tt, tl_actions_before_slicing tt,
      tl_actions_after_slicing tt}" and "acts = Some g" and "a \<in> set (g os p)"
  shows "keeps I (cc_action E tt a)"
proof (cases a)
  case (ActLink only)
  then show ?thesis by (simp add: cc_action_def keeps_link_undefined)
next
  case (ActLinkFrom ts funs restore)
  then show ?thesis unfolding cc_action_def action.case run_defs
    by (auto intro!: inv_intros keeps_link_undefined more_updates)
next
  case (ActPasses ps)
  then show ?thesis by (simp add: cc_action_def keeps_run_opt)
next
  case (ActConvert conv sfx)
  have "P (conv a1 a2)" for a1 a2
    using converters [OF assms(1,2)] assms(3) ActConvert by metis
  with ActConvert show ?thesis unfolding cc_action_def action.case run_defs
    by (auto intro!: inv_intros basic keeps_run_command)
qed

lemma keeps_actions:
  "acts \<in> {tl_actions_after_compilation tt, tl_actions_before_slicing tt,
    tl_actions_after_slicing tt} \<Longrightarrow> keeps I (run_actions E tt acts)"
proof (cases acts)
  case (Some g)
  assume "acts \<in> {tl_actions_after_compilation tt, tl_actions_before_slicing tt,
    tl_actions_after_slicing tt}"
  note act = keeps_action [OF this Some]
  show ?thesis unfolding run_actions_def run_defs Some option.case
    by (intro inv_intros act)
qed (simp add: run_actions_def ask_list_def inv_intros)

lemma keeps_slicer_failed: "keeps I (slicer_failed status w)"
  unfolding slicer_failed_def by (intro inv_intros keeps_print_lines more_updates)

lemma keeps_slicer:
  assumes "I s" and "\<not> noslice (c_opts s)"
  shows "keeps I (slicer E tt ps)"
  unfolding slicer_def run_defs
  by (intro inv_intros basic run keeps_save_ll keeps_slicer_failed slicers [OF assms])

lemma keeps_perform_slicing:
  assumes "I s" and "\<not> noslice (c_opts s)"
  shows "keeps I (perform_slicing E tt)"
  unfolding perform_slicing_def run_defs
  by (intro inv_intros basic keeps_get_stats keeps_optimize keeps_slicer [OF assms])

lemma keeps_process_after_slicing: "keeps I (process_after_slicing E tt)"
  unfolding process_after_slicing_def run_defs
  by (intro inv_intros basic keeps_actions keeps_run_opt keeps_link_undefined keeps_optimize) simp

lemma keeps_prepare_unsliced: "keeps I (prepare_unsliced_file E tt)"
  unfolding prepare_unsliced_file_def run_defs
  by (intro inv_intros basic keeps_process_after_slicing curf)

lemma keeps_compile_sources: "keeps I (compile_sources E tt)"
  unfolding compile_sources_def compile_one_def cc_has_lifetime_markers_def process_grep_def run_defs
    append_assoc
  by (intro inv_intros keeps_compile keeps_link run compiler)

lemma keeps_run_instrument: "keeps I (run_instrument E tt)"
  unfolding run_instrument_def run_defs
  by (intro inv_intros keeps_link_unconditional keeps_run_opt keeps_instrument)

lemma keeps_run_slicing: "keeps I (run_slicing E tt)"
  unfolding run_slicing_def run_defs
  by (intro inv_intros basic keeps_optimize keeps_actions keeps_link_undefined keeps_run_opt
      nonsliced keeps_perform_slicing keeps_process_after_slicing keeps_get_stats; simp)

lemma keeps_final_output: "keeps I (write_final_output E)"
  unfolding write_final_output_def by (intro inv_intros basic keeps_generate_ll)

end

text \<open>The invariant of a whole run also has to hold for the settings made at its start.\<close>

locale run_invariant = command_invariant +
  assumes disabled: "I s \<Longrightarrow> llvm_numbers tt = Inr (major, minor) \<Longrightarrow>
      I (s\<lparr>c_opts := (c_opts s)\<lparr>disabled_optimizations := disabled_for (c_prop s) major minor\<rparr>,
           c_renames := renames_for major\<rparr>)"
    and og_file: "I s \<Longrightarrow> I (s\<lparr>c_og_file := og\<rparr>)"
    and shifted: "I s \<Longrightarrow> I (s\<lparr>c_shifted := sh\<rparr>)"
    and witness_file: "I s \<Longrightarrow> I (s\<lparr>c_opts := (c_opts s)\<lparr>witness_check_file := wfile\<rparr>, c_sources := src\<rparr>)"
begin

lemma keeps_disable_and_rename: "keeps I (disable_and_rename_optimizations tt)"
  unfolding keeps_def disable_and_rename_optimizations_def
  by (auto simp: bnd_def lift_def upd_def disabled split: sum.splits)

lemma more_witness_updates:
  "I s \<Longrightarrow> I (c_og_file_update g s)" "I s \<Longrightarrow> I (c_shifted_update h s)"
  using og_file [of s "g (c_og_file s)"] shifted [of s "h (c_shifted s)"] by (cases s; simp)+

lemma keeps_validation: "keeps I (validation_preprocessing E)"
  unfolding validation_preprocessing_def steps.simps
  by (intro inv_intros more_witness_updates witness_file)

lemma keeps_run_compilation: "keeps I (run_compilation E tt)"
  unfolding run_compilation_def run_defs
  by (intro inv_intros basic keeps_disable_and_rename keeps_validation keeps_compile_sources
      keeps_save_ll keeps_get_stats keeps_run_opt keeps_actions; simp)

lemma keeps_cc_run: "keeps I (cc_run E tt)"
  unfolding cc_run_def
  by (intro inv_intros basic keeps_run_compilation keeps_run_instrument keeps_run_slicing
      keeps_final_output)

end

section \<open>No process is left running\<close>

text \<open>The hypothesis on the programs is part of the invariant.\<close>

definition idle_if_clean :: "cc_env \<Rightarrow> cc \<Rightarrow> bool" where
  "idle_if_clean E s \<longleftrightarrow> (clean_world (e_world E) \<longrightarrow> idle s)"

lemma idle_simps [simp]:
  "idle (s\<lparr>s_timer := b\<rparr>) = idle s"  "idle (s\<lparr>c_curfile := f\<rparr>) = idle s"
  "idle (s\<lparr>c_linked := l\<rparr>) = idle s" "idle (s\<lparr>c_nonsliced := f\<rparr>) = idle s"
  "idle (s\<lparr>c_disable := d\<rparr>) = idle s" "idle (s\<lparr>c_opts := os\<rparr>) = idle s"
  "idle (s\<lparr>c_renames := r\<rparr>) = idle s" "idle (s\<lparr>c_og_file := f\<rparr>) = idle s"
  "idle (s\<lparr>c_shifted := sh\<rparr>) = idle s" "idle (s\<lparr>c_sources := src\<rparr>) = idle s"
  by (simp_all add: idle_def)

interpretation idle_run: run_invariant E tt "idle_if_clean E" "\<lambda>_. True" for E tt
proof unfold_locales
  fix cmd w
  show "keeps (idle_if_clean E) (run_process (e_world E) cmd w)"
    using keeps_run_process [of "e_world E" cmd w] by (auto simp: keeps_def idle_if_clean_def)
qed (simp_all add: idle_if_clean_def)

section \<open>The slicer stays off\<close>

text \<open>\<open>runs prog cmd\<close>: the command starts the program, directly or under \<open>timeout\<close>.\<close>

fun runs :: "string \<Rightarrow> string list \<Rightarrow> bool" where
  "runs prog (x # t # y # r) = (x = prog \<or> x = ''timeout'' \<and> y = prog)"
| "runs prog (x # r) = (x = prog)"
| "runs prog [] = False"

lemma runs_other: "x \<noteq> prog \<Longrightarrow> x \<noteq> ''timeout'' \<Longrightarrow> \<not> runs prog (x # r)"
  by (cases "(prog, x # r)" rule: runs.cases) auto

text \<open>The commands of the tool itself do not run the slicer.\<close>

definition tool_actions :: "tool \<Rightarrow> options \<Rightarrow> py_prop \<Rightarrow> action list" where
  "tool_actions tt os p =
     concat (map (\<lambda>f. case f of None \<Rightarrow> [] | Some g \<Rightarrow> g os p)
       [tl_actions_after_compilation tt, tl_actions_before_slicing tt, tl_actions_after_slicing tt])"

definition plain_tool :: "tool \<Rightarrow> bool" where
  "plain_tool tt \<longleftrightarrow> default_cc tt \<noteq> [] \<and> hd (default_cc tt) \<notin> {''sbt-slicer'', ''timeout''} \<and>
     (\<forall>os p conv sfx a b. ActConvert conv sfx \<in> set (tool_actions tt os p) \<longrightarrow>
        \<not> runs ''sbt-slicer'' (conv a b))"

definition never_sliced :: "tool \<Rightarrow> cc \<Rightarrow> bool" where
  "never_sliced tt s \<longleftrightarrow> noslice (c_opts s) \<and>
     (plain_tool tt \<longrightarrow> (\<forall>cmd \<in> set (s_log s). \<not> runs ''sbt-slicer'' cmd))"

lemma runs_instr: "\<not> runs ''sbt-slicer'' (instr_command os config f defsbc out sl)"
  by (simp add: instr_command_def)

lemma never_sliced_process:
  assumes "plain_tool tt \<longrightarrow> \<not> runs ''sbt-slicer'' cmd"
  shows "keeps (never_sliced tt) (run_process W cmd w)"
proof (rule keepsI)
  fix s assume "never_sliced tt s"
  with assms show "never_sliced tt (snd (run_process W cmd w s))"
    by (cases rule: run_process_cases [of s W cmd w]) (auto simp: never_sliced_def)
qed

interpretation slicing_off: run_invariant E tt "never_sliced tt"
  "\<lambda>cmd. plain_tool tt \<longrightarrow> \<not> runs ''sbt-slicer'' cmd" for E tt
proof unfold_locales
  fix cmd w assume "plain_tool tt \<longrightarrow> \<not> runs ''sbt-slicer'' cmd"
  then show "keeps (never_sliced tt) (run_process (e_world E) cmd w)"
    by (rule never_sliced_process)
next
  fix x :: string and args assume "x \<in> {''opt'', ''llvm-link'', ''llvm-nm'', ''llvm-dis''}"
  then have "x \<noteq> ''sbt-slicer''" and "x \<noteq> ''timeout''" by auto
  then show "plain_tool tt \<longrightarrow> \<not> runs ''sbt-slicer'' (x # args)" by (simp add: runs_other)
next
  fix args
  show "plain_tool tt \<longrightarrow> \<not> runs ''sbt-slicer'' (default_cc tt @ args)"
    by (cases "default_cc tt") (simp_all add: plain_tool_def runs_other)
next
  fix acts g conv sfx os p a1 a2
  assume "acts \<in> {tl_actions_after_compilation tt, tl_actions_before_slicing tt,
      tl_actions_after_slicing tt}" and "acts = Some g" and "ActConvert conv sfx \<in> set (g os p)"
  then have "ActConvert conv sfx \<in> set (tool_actions tt os p)"
    by (auto simp: tool_actions_def)
  then show "plain_tool tt \<longrightarrow> \<not> runs ''sbt-slicer'' (conv a1 a2)"
    unfolding plain_tool_def by blast
qed (simp_all add: never_sliced_def runs_instr)

section \<open>The list that \<open>optimize\<close> extends\<close>

definition disabled_set :: "tool \<Rightarrow> py_prop \<Rightarrow> string set" where
  "disabled_set tt p =
     (case llvm_numbers tt of Inl e \<Rightarrow> {} | Inr (major, minor) \<Rightarrow> set (disabled_for p major minor))"

definition only_disabled :: "tool \<Rightarrow> py_prop \<Rightarrow> cc \<Rightarrow> bool" where
  "only_disabled tt p s \<longleftrightarrow> c_prop s = p \<and>
     set (c_disable s) \<union> set (disabled_optimizations (c_opts s)) \<subseteq> disabled_set tt p"

interpretation disable_list: run_invariant E tt "only_disabled tt p" "\<lambda>_. True" for E tt p
proof unfold_locales
  fix cmd w
  show "keeps (only_disabled tt p) (run_process (e_world E) cmd w)"
  proof (rule keepsI)
    fix s assume "only_disabled tt p s"
    then show "only_disabled tt p (snd (run_process (e_world E) cmd w s))"
      by (cases rule: run_process_cases [of s "e_world E" cmd w]) (auto simp: only_disabled_def)
  qed
qed (auto simp: only_disabled_def disabled_set_def)

section \<open>Properties\<close>

lemma tool_actions_klee: "a \<in> set (tool_actions (klee_tool v o') os p) \<Longrightarrow> \<exists>only. a = ActLink only"
  by (auto simp: tool_actions_def klee_tool_def base_tool_def full_actions_after_compilation_def
      split: if_splits)

lemma plain_klee: "plain_tool (klee_tool v o')"
proof -
  have "default_cc (klee_tool v o') = [''clang'']"
    by (simp add: default_cc_def klee_tool_def base_tool_def)
  then show ?thesis unfolding plain_tool_def by (auto dest: tool_actions_klee)
qed

text \<open>A small environment for the examples: every program succeeds and prints nothing.\<close>

definition quiet_env :: cc_env where
  "quiet_env =
     \<lparr>e_world = \<lparr>exec = (\<lambda>log cmd. Some ([], 0)), isfile = (\<lambda>log f. True), abspath = id, w_signal = (\<lambda>log cmd. None)\<rparr>,
      e_symbiotic_dir = ''/opt'', e_instr_files = ''/opt/instr'',
      e_clang = (\<lambda>f. (ex_root, ex_program)), e_yaml = (\<lambda>f. []), e_move = (\<lambda>a b. None),
      e_depth = 900, e_executable = (\<lambda>x fallback. Inr x), e_listdir = (\<lambda>log d. []), e_realpath = id\<rparr>"

lemma quiet_clean: "clean_world (e_world quiet_env)"
  by (simp add: clean_world_def quiet_env_def)

text \<open>The compiler phase and the postprocessing of the unsliced file leave no external
  program registered, whether they return or raise, as long as the output of every program
  can be decoded and no signal arrives.\<close>

lemma compiler_leaves_no_process:
  assumes "clean_world (e_world E)" and "idle s"
  shows "idle (snd (cc_run E tt s)) \<and> idle (snd (prepare_unsliced_file E tt s))"
  using keepsD [OF idle_run.keeps_cc_run, of E s tt] keepsD [OF idle_run.keeps_prepare_unsliced, of E s tt]
    assms by (simp add: idle_if_clean_def)

lemma compiler_leaves_no_process_example:
  "idle (snd (cc_run quiet_env (klee_tool ''10.0.1'' plain_options)
    (init_cc plain_options (make_prop MemSafety None) [''a.c''])))"
  using compiler_leaves_no_process [OF quiet_clean, of "init_cc plain_options (make_prop MemSafety None) [''a.c'']"]
  by (simp add: idle_def init_cc_def)

text \<open>C16: With slicing switched off, no command of the compiler phase starts the slicer, on any
  path, if the tool's own commands do not.\<close>

theorem no_slicing_when_off:
  assumes "plain_tool tt" and "noslice opts"
  shows "\<forall>cmd \<in> set (s_log (snd (cc_run E tt (init_cc opts p src)))). \<not> runs ''sbt-slicer'' cmd"
proof -
  have "never_sliced tt (init_cc opts p src)"
    using assms(2) by (simp add: never_sliced_def init_cc_def)
  from keepsD [OF slicing_off.keeps_cc_run this] assms(1) show ?thesis
    by (simp add: never_sliced_def)
qed

theorem no_slicing_when_off_witness:
  "list_all (\<lambda>cmd. \<not> runs ''sbt-slicer'' cmd)
    (s_log (snd (cc_run quiet_env (klee_tool ''10.0.1'' plain_options)
      (init_cc (plain_options\<lparr>noslice := True\<rparr>) (make_prop MemSafety None) [''a.c'']))))"
  unfolding list_all_iff by (rule no_slicing_when_off [OF plain_klee]) simp

text \<open>C17: When the instrumentation fails and the phase goes on (a timeout, or SV-COMP), slicing is
  off and no optimization levels are left, and the rest of the phase never starts the slicer:
  the slicer depends on the marks that the instrumentation makes.\<close>

theorem failed_instrumentation_stops_slicing:
  assumes "instrumentation_failed status w s = (Inr (), s')" and "plain_tool tt"
    and "\<forall>cmd \<in> set (s_log s). \<not> runs ''sbt-slicer'' cmd"
  shows "noslice (c_opts s') \<and> optlevel (c_opts s') = [] \<and>
    (status = Some 124 \<or> sv_comp (c_opts s)) \<and> \<not> full_instrumentation (c_opts s) \<and>
    (\<forall>cmd \<in> set (s_log (snd (run_slicing E tt s'))). \<not> runs ''sbt-slicer'' cmd)"
proof -
  have s': "noslice (c_opts s')" "optlevel (c_opts s') = []" "s_log s' = s_log s"
    "status = Some 124 \<or> sv_comp (c_opts s)" "\<not> full_instrumentation (c_opts s)"
    using assms(1)
    by (auto simp: instrumentation_failed_def print_elapsed_time_def print_lines_def sq_def bnd_def
        with_state_def lift_def upd_def throw_def assertc_def ret_def split: if_splits sum.splits)
  then have "never_sliced tt s'" using assms(3) by (simp add: never_sliced_def)
  from keepsD [OF slicing_off.keeps_run_slicing this] assms(2) s' show ?thesis
    by (auto simp: never_sliced_def)
qed

theorem failed_instrumentation_stops_slicing_witness:
  "\<exists>s'. instrumentation_failed (Some 124) (new_watch InstrumentationWatch (Some 100))
      ((init_cc plain_options (make_prop MemSafety None) [''a.c''])\<lparr>s_timer := True\<rparr>) = (Inr (), s') \<and>
    noslice (c_opts s')"
proof -
  obtain s' where s: "instrumentation_failed (Some 124) (new_watch InstrumentationWatch (Some 100))
      ((init_cc plain_options (make_prop MemSafety None) [''a.c''])\<lparr>s_timer := True\<rparr>) = (Inr (), s')"
    by (simp add: instrumentation_failed_def new_watch_def get_lines_def is_buffering_def
        print_lines_def print_elapsed_time_def sq_def bnd_def with_state_def lift_def upd_def
        ret_def init_cc_def)
  have "\<forall>cmd \<in> set (s_log ((init_cc plain_options (make_prop MemSafety None) [''a.c''])\<lparr>s_timer := True\<rparr>)).
      \<not> runs ''sbt-slicer'' cmd"
    by (simp add: init_cc_def)
  with failed_instrumentation_stops_slicing [OF s plain_klee] s show ?thesis by blast
qed

text \<open>C18: The list of disabled passes that every call of \<open>optimize\<close> extends never holds a pass
  that the property and the LLVM version do not disable: after any run a pass that they allow
  is still run (under its new name).\<close>

theorem disable_list_is_harmless:
  assumes "disabled_optimizations opts = []" and "x \<in> set passes" and "x \<notin> disabled_set tt p"
  shows "let s = snd (cc_run E tt (init_cc opts p src)) in
    renamed (c_renames s) x \<in> set (optimize_passes (c_disable s @ disabled_optimizations (c_opts s)) (c_renames s) passes)"
proof -
  have "only_disabled tt p (init_cc opts p src)"
    using assms(1) by (simp add: only_disabled_def init_cc_def)
  from keepsD [OF disable_list.keeps_cc_run this, of E] assms(2,3) show ?thesis
    by (auto simp: only_disabled_def optimize_passes_def Let_def)
qed

theorem disable_list_is_harmless_witness:
  "let s = snd (cc_run quiet_env (klee_tool ''10.0.1'' plain_options)
      (init_cc plain_options (make_prop MemSafety None) [''a.c''])) in
    renamed (c_renames s) ''-dce'' \<in> set (optimize_passes
      (c_disable s @ disabled_optimizations (c_opts s)) (c_renames s) [''-licm'', ''-dce''])"
proof (rule disable_list_is_harmless)
  have v: "llvm_numbers (klee_tool ''10.0.1'' plain_options) = Inr (10, 0)"
    by (simp add: klee_tool_def base_tool_def) code_simp
  show "''-dce'' \<notin> disabled_set (klee_tool ''10.0.1'' plain_options) (make_prop MemSafety None)"
    unfolding disabled_set_def v by code_simp
qed (simp_all add: plain_options_def SymbioticOptions_def)

end
