(* ===== verification/Verifiers.thy ===== *)
theory Verifiers
  imports Tools Process
begin

text \<open>
  The tools built on KLEE and the competition portfolio: Witch-KLEE (\<open>witchklee.py\<close>), slowbeast
  (\<open>slowbeast.py\<close>), the TEST-COMP tool (\<open>testcomp.py\<close>) and the SV-COMP tool (\<open>svcomp.py\<close>), whose
  generator of verifiers is a value of the datatype \<open>portfolio\<close>: the continuation after a
  \<open>yield\<close> is a function of the flag \<open>_hit_threads\<close> at the time the generator goes on.
\<close>

section \<open>Witch-KLEE\<close>

definition witch_patterns :: "(string \<times> pattern) list" where
  "witch_patterns =
     [(''ESTPTIMEOUT'', Search [''query timed out resolve'']),
      (''EKLEETIMEOUT'', Search [''HaltTimer invoked'']),
      (''EEXTENCALL'', Search [''failed external call'']),
      (''EEXTENCALLDIS'', Search [''external calls disallowed'']),
      (''ELOADSYM'', Search [''ERROR: unable to load symbol'']),
      (''EINVALINST'', Search [''LLVM ERROR: Code generator does not support'']),
      (''EINITVALS'', Search [''unable to compute initial values'']),
      (''ESYMSOL'', Search [''unable to get symbolic solution'']),
      (''ESILENTLYCONCRETIZED'', Search [''silently concretizing'']),
      (''EEXTRAARGS'', Search [''calling '', '' with extra arguments'']),
      (''EMALLOC'', Search [''found huge malloc, returning 0'']),
      (''ESKIPFORK'', Search [''skipping fork'']),
      (''EKILLSTATE'', Search [''killing'', ''states (over memory cap)'']),
      (''EPTHREAD'', Search [''ERROR:'', ''Call to pthread_'']),
      (''EPTHREAD2'', Search [''ERROR:'', ''unsupported pthread API'']),
      (''EMAKESYMBOLIC'', Search [''memory error: invalid pointer: make_symbolic'']),
      (''EVECTORUNSUP'', Search [''XXX vector instructions unhandled'']),
      (''EASM'', Search [''ERROR:'', ''inline assembly is unsupported'']),
      (''EMEMALLOC'', Search [''KLEE: WARNING: Allocating memory failed'']),
      (''ESTACKOVFLW'', Search [''WARNING: Maximum stack size reached'']),
      (''EROSYMB'', Search [''cannot make readonly object symbolic'']),
      (''EFUNMODEL'', Search ['': unsupported function model'']),
      (''ERESOLVMEMCLN'', Search [''Failed resolving segment in memcleanup check'']),
      (''ERESOLVMEMCLN2'', Search [''Cannot resolve non-constant segment in memcleanup check'']),
      (''ECMP'', Search [''Comparison other than inequality is not implemented'']),
      (''ERESOLV'', Search [''Failed resolving'', ''segment'']),
      (''EUNREACH'', Search [''reached '' @ [CHR 0x22] @ ''unreachable'' @ [CHR 0x22] @ '' instruction'']),
      (''ERESOLV'', Search [''ERROR:'', ''Could not resolve''])]"

definition witch_cmdline ::
  "options \<Rightarrow> py_prop \<Rightarrow> string \<Rightarrow> string list \<Rightarrow> string list \<Rightarrow> exn + string list" where
  "witch_cmdline s p executable opts tasks =
     bindE (if unreachcall p
            then bindE (error_fn_args p) (\<lambda>xs. Inr (xs @ [''-malloc-symbolic-contents'']))
            else Inr []) (\<lambda>call_args.
     case witness_check_file s of
       None \<Rightarrow> Inl (SymbioticException ''Witch-KLEE needs a witness (--witness-check=<witness>)'')
     | Some wfile \<Rightarrow>
         Inr ([executable] @ klee_arguments @ [''-max-time='' @ str_int (timeout s)] @
           (if memsafety p
            then (if sv_comp s then [''-check-leaks''] else [''-check-memcleanup''])
            else if memcleanup p then [''-check-memcleanup''] else []) @
           call_args @
           (if guide_only s then [''-guide-only=true'', ''-write-waypoints''] else []) @
           opts @ tasks @ argv s @ [wfile]))"

text \<open>The properties a confirmed violation may name, in the order they are looked for.\<close>

definition violation_results :: "(string \<times> string) list" where
  "violation_results =
     [(''unreach-call'', RESULT_FALSE_REACH), (''valid-free'', RESULT_FALSE_FREE),
      (''valid-deref'', RESULT_FALSE_DEREF), (''valid-memtrack'', RESULT_FALSE_MEMTRACK),
      (''valid-memcleanup'', RESULT_FALSE_MEMCLEANUP), (''no-overflow'', RESULT_FALSE_OVERFLOW),
      (''termination'', RESULT_FALSE_TERMINATION)]"

definition new_error_line :: "string \<Rightarrow> bool" where
  "new_error_line line = is_in ''Error found when using the witness as a guide'' line"

definition violation_of :: "string \<Rightarrow> string option" where
  "violation_of line =
     (if is_in ''Valid violation witness'' line \<or> new_error_line line
      then map_option snd (find (\<lambda>kr. is_in (fst kr) line) violation_results)
      else None)"

definition parsing_error :: "string \<Rightarrow> exn + string" where
  "parsing_error line =
     decode (strip_bytes (last (split_on (CHR '':'') (strip_bytes line))))"

text \<open>The loop over the output: the text of a parser failure, whether the witness may not be
  confirmed, or the verdict of the first line that has one.\<close>

fun witch_scan :: "string list \<Rightarrow> string option \<Rightarrow> bool \<Rightarrow> exn + (string + string option \<times> bool)" where
  "witch_scan [] failed unknown = Inr (Inr (failed, unknown))"
| "witch_scan (line # ls) failed unknown =
     bindE (if is_in ''Parsing failed'' line
            then bindE (parsing_error line) (\<lambda>m. Inr (Some m)) else Inr failed) (\<lambda>failed'.
     case violation_of line of
       Some res \<Rightarrow> Inr (Inl res)
     | None \<Rightarrow>
         bindE (if is_in ''Follow waypoint of segment'' line then decode line else Inr []) (\<lambda>_.
         witch_scan ls failed' (unknown \<or> is_in ''may not be confirmed'' line)))"

text \<open>\<open>" ".join(key)\<close> puts blanks between the characters of the key.\<close>

definition spaced :: "string \<Rightarrow> string" where
  "spaced key = join '' '' (map (\<lambda>c. [c]) key)"

definition witch_determine_result :: "int option \<Rightarrow> string list \<Rightarrow> exn + string" where
  "witch_determine_result returncode output =
     bindE (witch_scan output None False) (\<lambda>r.
     case r of
       Inl res \<Rightarrow> Inr res
     | Inr (failed, unknown) \<Rightarrow>
         if returncode \<noteq> Some 0 then
           Inr (RESULT_ERROR @
             (if str_set failed then '' ('' @ the failed @ '')''
              else '' (exitcode '' @ str_ret returncode @ '')''))
         else
           Inr (case first_some (\<lambda>line. first_match witch_patterns (bytes_repr line)) output of
                  Some key \<Rightarrow> RESULT_UNKNOWN @ '' ('' @ spaced key @ '')''
                | None \<Rightarrow> if unknown then RESULT_UNKNOWN else RESULT_TRUE_PROP))"

text \<open>\<open>_generate_witness\<close>: an error on the way of the witness, in a line read before the verdict.\<close>

fun witch_new_witness :: "string list \<Rightarrow> bool" where
  "witch_new_witness [] = False"
| "witch_new_witness (line # ls) =
     (new_error_line line \<or> violation_of line = None \<and> witch_new_witness ls)"

definition witch_passes_after_slicing :: "options \<Rightarrow> py_prop \<Rightarrow> string list" where
  "witch_passes_after_slicing s p =
     (if \<not> explicit_symbolic s then [''-initialize-uninitialized''] else []) @
     (if \<not> sv_comp s then [''-internalize-globals''] else []) @
     (if \<not> malloc_never_fails s then [''-instrument-alloc''] else []) @
     (if memsafety p then [''-remove-readonly-attr'']
      else if termination_prp p
      then [''-witch-instrument-nontermination'', ''-instrument-nontermination-mark-header''] else [])"

definition witch_tool :: "string \<Rightarrow> tool" where
  "witch_tool version = (base_tool ''witch-klee'' version)
     \<lparr>tl_passes_before_slicing := Some klee_passes_before_slicing,
      tl_passes_after_slicing := Some witch_passes_after_slicing,
      tl_executable := Lookup ''witch-klee'' None, tl_cmdline := witch_cmdline,
      tl_determine_result := (\<lambda>s p. witch_determine_result),
      tl_new_witness := witch_new_witness, tl_can_replay := True,
      tl_describes_error := True, tl_writes_exec_witness := True, tl_writes_witness := True\<rparr>"

section \<open>Slowbeast\<close>

text \<open>\<open>absp\<close> is \<open>os.path.abspath\<close>.\<close>

definition slowbeast_cmdline ::
  "(string \<Rightarrow> string) \<Rightarrow> options \<Rightarrow> py_prop \<Rightarrow> string \<Rightarrow> string list \<Rightarrow> string list \<Rightarrow>
   exn + string list" where
  "slowbeast_cmdline absp s p executable opts tasks =
     (if length tasks \<noteq> 1 then Inl AssertionError
      else
        let cmd = [absp executable, ''-se-exit-on-error'', ''-se-replay-errors'', ''-only-tests=err'',
                   ''-pointer-bitwidth='' @ (if is32bit s then ''32'' else ''64'')] @
                  (if unreachcall p then [''-error-fn='' @ join '','' (p_calls p)] else []) @
                  (if sv_comp s then [''-svcomp-witness''] else []) @ opts;
            bself = (''-bself'' \<in> set cmd)
        in Inr (cmd @ (if bself then [''-forbid-floats''] else []) @
             [''-unsupported-undefs='' @ join '','' ([''_setjmp'', ''longjmp''] @
                (if bself then [''__VERIFIER_nondet_float'', ''__VERIFIER_nondet_double''] else []))] @
             tasks))"

definition slowbeast_passes_before_verification :: "bool \<Rightarrow> options \<Rightarrow> py_prop \<Rightarrow> string list" where
  "slowbeast_passes_before_verification bself s p =
     [''-lowerswitch'', ''-simplifycfg''] @ (if bself then [''-flatten-loops''] else []) @
     [''-O3'', ''-remove-constant-exprs'', ''-reg2mem'']"

record sb_flags =
  sb_no_path_killed :: bool
  sb_have_problem :: bool
  sb_no_errors :: bool
  sb_memerr :: bool
  sb_asserterr :: bool

definition no_flags :: sb_flags where
  "no_flags = \<lparr>sb_no_path_killed = False, sb_have_problem = False, sb_no_errors = False,
     sb_memerr = False, sb_asserterr = False\<rparr>"

definition sb_line :: "string \<Rightarrow> sb_flags \<Rightarrow> sb_flags" where
  "sb_line line fl =
     (if is_in ''[assertion error]: unreachable'' line then fl
      else if is_in ''assertion failed!'' line \<or> is_in ''assertion failure'' line \<or>
        is_in ''[assertion error]'' line \<or> is_in ''None: __VERIFIER_error called!'' line
      then fl\<lparr>sb_asserterr := True\<rparr>
      else if is_in ''Error found.'' line then fl\<lparr>sb_no_errors := False\<rparr>
      else if is_in ''[memory error]'' line then fl\<lparr>sb_memerr := True\<rparr>
      else if is_in ''Killed paths: 0'' line then fl\<lparr>sb_no_path_killed := True\<rparr>
      else if is_in ''Did not extend the path and reached entry of CFG'' line \<or>
        is_in ''a problem was met'' line \<or> is_in ''Failed deciding the result.'' line
      then fl\<lparr>sb_have_problem := True\<rparr>
      else if is_in ''Found errors: 0'' line then fl\<lparr>sb_no_errors := True\<rparr>
      else fl)"

definition slowbeast_determine_result :: "py_prop \<Rightarrow> int option \<Rightarrow> string list \<Rightarrow> string" where
  "slowbeast_determine_result p returncode output =
     (let fl = fold (\<lambda>line. sb_line (bytes_repr line)) output no_flags in
      if \<not> sb_no_errors fl then
        (if sb_asserterr fl
         then (if termination_prp p then RESULT_FALSE_TERMINATION else RESULT_FALSE_REACH)
         else if sb_memerr fl then RESULT_UNKNOWN @ ''(uninit mem)''
         else RESULT_UNKNOWN @ ''(unknown-err)'')
      else if sb_no_path_killed fl \<and> \<not> sb_have_problem fl then RESULT_TRUE_PROP
      else if returncode \<noteq> Some 0 then RESULT_ERROR @ ''(returned '' @ str_ret returncode @ '')''
      else RESULT_UNKNOWN)"

definition slowbeast_tool :: "string \<Rightarrow> (string \<Rightarrow> string) \<Rightarrow> bool \<Rightarrow> tool" where
  "slowbeast_tool version absp bself = (base_tool ''slowbeast'' version)
     \<lparr>tl_passes_before_slicing := Some klee_passes_before_slicing,
      tl_passes_before_verification := Some (\<lambda>s p. Inr (slowbeast_passes_before_verification bself s p)),
      tl_executable := Lookup ''sb'' (Some ''slowbeast/sb''), tl_cmdline := slowbeast_cmdline absp,
      tl_determine_result := (\<lambda>s p r out. Inr (slowbeast_determine_result p r out)),
      tl_writes_witness := True\<rparr>"

section \<open>Portfolios\<close>

text \<open>What a generator of verifiers does: it ends, or it yields a verifier with additional
  parameters and a timeout and goes on, depending on \<open>_hit_threads\<close> at that time.\<close>

datatype portfolio = Stop | Try tool "string list option" "int option" "bool \<Rightarrow> portfolio"

record target = tool +
  tg_verifiers :: "options \<Rightarrow> py_prop \<Rightarrow> portfolio"
  tg_learns :: bool

text \<open>The default: the tool itself, and no method \<open>verifier_failed\<close>.\<close>

definition single :: "tool \<Rightarrow> target" where
  "single tt = tool.extend tt \<lparr>tg_verifiers = (\<lambda>s p. Try tt None None (\<lambda>_. Stop)), tg_learns = False\<rparr>"

subsection \<open>TEST-COMP\<close>

definition testcomp_cmdline ::
  "options \<Rightarrow> py_prop \<Rightarrow> string \<Rightarrow> string list \<Rightarrow> string list \<Rightarrow> exn + string list" where
  "testcomp_cmdline s p executable opts tasks =
     (if length tasks \<noteq> 1 then Inl AssertionError
      else Inr ([executable,
             (if errorcall p
              then (case nonstandard_calls p of [c] \<Rightarrow> c | _ \<Rightarrow> ''coverage'') else ''coverage''),
             testsuite_output s] @ tasks))"

definition testcomp_tool :: "string \<Rightarrow> options \<Rightarrow> tool" where
  "testcomp_tool version opts = (klee_tool version opts)
     \<lparr>tl_name := ''svcomp'', tl_executable := Lookup ''kleetester.py'' (Some ''bin/kleetester.py''), tl_cmdline := testcomp_cmdline,
      tl_determine_result := (\<lambda>s p r out. Inr RESULT_DONE)\<rparr>"

subsection \<open>SV-COMP\<close>

definition svcomp_passes_after_slicing :: "options \<Rightarrow> py_prop \<Rightarrow> string list" where
  "svcomp_passes_after_slicing s p =
     base_passes_after_slicing s p @
     (if \<not> malloc_never_fails s then [''-instrument-alloc''] else []) @
     (if memsafety p then [''-remove-readonly-attr'']
      else if termination_prp p
      then [''-instrument-nontermination'', ''-instrument-nontermination-mark-header''] else [])"

definition sb_try ::
  "string \<Rightarrow> (string \<Rightarrow> string) \<Rightarrow> string \<Rightarrow> int option \<Rightarrow> (bool \<Rightarrow> portfolio) \<Rightarrow> portfolio" where
  "sb_try version absp param tmo k =
     Try (slowbeast_tool version absp (param = ''-bself'')) (Some [param]) tmo k"

definition svcomp_verifiers ::
  "string \<Rightarrow> (string \<Rightarrow> string) \<Rightarrow> options \<Rightarrow> py_prop \<Rightarrow> portfolio" where
  "svcomp_verifiers version absp s p =
     (let klee = klee_tool version s; sb = sb_try version absp;
          threads = sb ''-threads'' None (\<lambda>_. Stop)
      in if unreachcall p then
           Try klee None (Some 333) (\<lambda>hit.
             if hit then threads
             else sb ''-cse'' (Some 60) (\<lambda>_.
                  sb ''-bself'' None (\<lambda>_.
                  sb ''-se-incremental-solving'' None (\<lambda>_. Stop))))
         else Try klee None None (\<lambda>hit. if hit then threads else Stop))"

definition svcomp_tool :: "string \<Rightarrow> (string \<Rightarrow> string) \<Rightarrow> target" where
  "svcomp_tool version absp = tool.extend ((base_tool ''svcomp'' version)
     \<lparr>tl_passes_before_slicing := Some klee_passes_before_slicing,
      tl_passes_after_slicing := Some svcomp_passes_after_slicing,
      tl_cmdline := (\<lambda>s p e opts tasks. Inl NotImplementedErr),
      tl_determine_result := (\<lambda>s p r out. Inl NotImplementedErr)\<rparr>)
     \<lparr>tg_verifiers = svcomp_verifiers version absp, tg_learns = True\<rparr>"

text \<open>\<open>verifier_failed\<close>\<close>

definition learns_threads :: "string \<Rightarrow> bool" where
  "learns_threads res = is_in ''EPTHREAD'' res"

section \<open>Verdicts of Witch-KLEE\<close>

lemma violation_false: "violation_of line = Some x \<Longrightarrow> startswith x ''false''"
  by (auto simp: violation_of_def violation_results_def split: if_splits)

lemma violation_named:
  assumes "violation_of line = Some x"
  shows "(is_in ''Valid violation witness'' line \<or> new_error_line line) \<and>
    (\<exists>key. (key, x) \<in> set violation_results \<and> is_in key line)"
proof -
  from assms obtain kr where "find (\<lambda>kr. is_in (fst kr) line) violation_results = Some kr" "x = snd kr"
    "is_in ''Valid violation witness'' line \<or> new_error_line line"
    by (auto simp: violation_of_def split: if_splits)
  then show ?thesis by (metis find_Some_iff nth_mem prod.collapse)
qed

lemma scan_verdict:
  "witch_scan out f u = Inr (Inl x) \<Longrightarrow>
    \<exists>pre line post. out = pre @ line # post \<and> violation_of line = Some x \<and>
      (\<forall>l \<in> set pre. violation_of l = None)"
proof (induction out f u rule: witch_scan.induct)
  case (2 line ls f u)
  show ?case
  proof (cases "violation_of line")
    case None
    with "2.prems" obtain f' u' where "witch_scan ls f' u' = Inr (Inl x)"
      and "\<exists>pre l post. ls = pre @ l # post \<and> violation_of l = Some x \<and>
        (\<forall>l \<in> set pre. violation_of l = None)"
      using "2.IH" by (fastforce simp: bindE_eq_Inr)
    then obtain pre l post where "ls = pre @ l # post" "violation_of l = Some x"
      "\<forall>l \<in> set pre. violation_of l = None" by blast
    with None show ?thesis by (intro exI [of _ "line # pre"]) auto
  next
    case (Some y)
    with "2.prems" show ?thesis by (intro exI [of _ "[]"] exI [of _ line] exI [of _ ls]) (auto simp: bindE_eq_Inr)
  qed
qed simp

lemma scan_end:
  "witch_scan out f u = Inr (Inr (f', u')) \<Longrightarrow>
    (\<forall>l \<in> set out. violation_of l = None) \<and>
    u' = (u \<or> (\<exists>l \<in> set out. is_in ''may not be confirmed'' l))"
proof (induction out f u rule: witch_scan.induct)
  case (2 line ls f u)
  show ?case
  proof (cases "violation_of line")
    case None
    with "2.prems" "2.IH" show ?thesis by (fastforce simp: bindE_eq_Inr)
  next
    case (Some y)
    with "2.prems" show ?thesis by (auto simp: bindE_eq_Inr)
  qed
qed simp

text \<open>C15: The answers of Witch-KLEE to a violation witness. The answer is false exactly when a line of the
  output reports a violation, whatever the exit status is: it is that of the first such line, which says that
  the witness is valid or that an error was found on the way of the witness, and names the violated
  property. The answer is true, which is reported as no error found and not as a confirmed witness, exactly
  when the process returned 0 and no line reports a violation, says that the witness may not be confirmed
  or matches a pattern for unsupported behaviour.\<close>

theorem witch_verdicts:
  assumes "witch_determine_result r out = Inr x"
  shows "(x = RESULT_TRUE_PROP \<longleftrightarrow> r = Some 0 \<and> (\<forall>line \<in> set out. violation_of line = None \<and>
      \<not> is_in ''may not be confirmed'' line \<and> first_match witch_patterns (bytes_repr line) = None)) \<and>
    (startswith x ''false'' \<longleftrightarrow> (\<exists>line \<in> set out. violation_of line \<noteq> None)) \<and>
    (startswith x ''false'' \<longrightarrow> (\<exists>pre line post key. out = pre @ line # post \<and>
      (is_in ''Valid violation witness'' line \<or> new_error_line line) \<and>
      (key, x) \<in> set violation_results \<and> is_in key line \<and> (\<forall>l \<in> set pre. violation_of l = None)))"
proof -
  from assms obtain sc where sc: "witch_scan out None False = Inr sc"
    by (auto simp: witch_determine_result_def bindE_eq_Inr)
  show ?thesis
  proof (cases sc)
    case (Inl y)
    with assms sc have "y = x" by (simp add: witch_determine_result_def)
    with sc Inl obtain pre line post where v: "out = pre @ line # post" "violation_of line = Some x"
      "\<forall>l \<in> set pre. violation_of l = None" using scan_verdict by blast
    then have f: "startswith x ''false''" "x \<noteq> RESULT_TRUE_PROP" using violation_false by fastforce+
    have some: "\<exists>line \<in> set out. violation_of line \<noteq> None" using v(1,2) by auto
    from some have none: "\<not> (\<forall>line \<in> set out. violation_of line = None \<and>
      \<not> is_in ''may not be confirmed'' line \<and> first_match witch_patterns (bytes_repr line) = None)" by auto
    have named: "\<exists>pre line post key. out = pre @ line # post \<and>
      (is_in ''Valid violation witness'' line \<or> new_error_line line) \<and>
      (key, x) \<in> set violation_results \<and> is_in key line \<and> (\<forall>l \<in> set pre. violation_of l = None)"
      using v violation_named [OF v(2)] by blast
    show ?thesis
    proof (intro conjI impI)
      show "x = RESULT_TRUE_PROP \<longleftrightarrow> r = Some 0 \<and> (\<forall>line \<in> set out. violation_of line = None \<and>
        \<not> is_in ''may not be confirmed'' line \<and> first_match witch_patterns (bytes_repr line) = None)"
        using f(2) none by simp
      show "startswith x ''false'' \<longleftrightarrow> (\<exists>line \<in> set out. violation_of line \<noteq> None)"
        using f(1) some by simp
    qed (rule named)
  next
    case (Inr fu)
    obtain f u where fu: "fu = (f, u)" by (cases fu)
    note e = scan_end [OF sc [unfolded Inr fu]]
    from assms sc Inr fu have x: "x = RESULT_TRUE_PROP \<longleftrightarrow> r = Some 0 \<and> \<not> u \<and>
        first_some (\<lambda>line. first_match witch_patterns (bytes_repr line)) out = None"
      "\<not> startswith x ''false''"
      by (auto simp: witch_determine_result_def split: if_splits option.splits)
        (simp_all add: result_defs)
    with e show ?thesis by (auto simp: first_some_None)
  qed
qed

theorem witch_verdicts_witness:
  "witch_determine_result (Some 0) [''Valid violation witness: no-overflow''] =
    Inr RESULT_FALSE_OVERFLOW \<and>
   (\<exists>pre line post key. [''Valid violation witness: no-overflow''] = pre @ line # post \<and>
      (key, RESULT_FALSE_OVERFLOW) \<in> set violation_results \<and> is_in key line)"
proof -
  have w: "witch_determine_result (Some 0) [''Valid violation witness: no-overflow''] =
    Inr RESULT_FALSE_OVERFLOW" by code_simp
  have "startswith RESULT_FALSE_OVERFLOW ''false''" by simp
  with witch_verdicts [OF w] w show ?thesis by blast
qed

end
