(* ===== verification/Driver.thy ===== *)
theory Driver
  imports Phases Verifiers
begin

text \<open>
  The verification phase (\<open>SymbioticVerifier\<close> of \<open>verifier.py\<close>), the decisions around it
  (\<open>Symbiotic\<close> of \<open>symbiotic.py\<close>: a second run on the unsliced file, the replay of an error, the
  rerun when it was not confirmed) and the report of \<open>scripts/symbiotic\<close>. The state is that of
  the compiler phase, whose object the driver keeps; the verifier's own compiler object only
  has a file of its own. What the tools write about an error is recorded in \<open>c_reports\<close>.
\<close>

section \<open>Running a verifier\<close>

text \<open>A method of the verifier's own compiler object, run on a file; returns its new file. Its list of linked
  functions, which is only printed and which \<open>link_undefined\<close> empties first, is that of one method.\<close>

definition on_file :: "string \<Rightarrow> unit step \<Rightarrow> string step" where
  "on_file f m =
     (\<lambda>s. case m (s\<lparr>c_curfile := Some f, c_linked := []\<rparr>) of (r, s') \<Rightarrow>
       (bindE r (\<lambda>_. of_opt AttributeError (c_curfile s')),
        s'\<lparr>c_curfile := c_curfile s, c_linked := c_linked s\<rparr>))"

definition tool_command :: "int option \<Rightarrow> string list \<Rightarrow> string list" where
  "tool_command tmo cmd =
     (case tmo of None \<Rightarrow> cmd | Some n \<Rightarrow> if n = 0 then cmd else [''timeout'', str_int n] @ cmd)"

definition tool_executable :: "cc_env \<Rightarrow> tool \<Rightarrow> exn + string" where
  "tool_executable E tt =
     (case tl_executable tt of Named x \<Rightarrow> Inr x | Lookup x fallback \<Rightarrow> e_executable E x fallback)"

definition run_tool :: "cc_env \<Rightarrow> tool \<Rightarrow> string list \<Rightarrow> int option \<Rightarrow> string \<Rightarrow> string step" where
  "run_tool E tt params tmo f =
     with_state (\<lambda>s.
       bnd (lift (tool_executable E tt)) (\<lambda>exe.
       bnd (lift (tl_cmdline tt (c_opts s) (c_prop s) exe params [f])) (\<lambda>cmd.
       bnd (run_process (e_world E) (tool_command tmo cmd) (new_watch ToolWatch None)) (\<lambda>(status, w).
       sq (upd (c_new_witness_update (\<lambda>b. b \<or> tl_new_witness tt (get_lines w))))
          (lift (tl_determine_result tt (c_opts s) (c_prop s) status (get_lines w)))))))"

definition tool_parameters :: "string list \<Rightarrow> string list option \<Rightarrow> options \<Rightarrow> string list" where
  "tool_parameters override add os =
     (if override \<noteq> [] then override else tool_params os) @
     (case add of None \<Rightarrow> [] | Some ps \<Rightarrow> ps)"

text \<open>The passes before the verification; computing them may raise.\<close>

definition verifier_passes :: "tool \<Rightarrow> string list step" where
  "verifier_passes tt =
     (case tl_passes_before_verification tt of
        None \<Rightarrow> ret [] | Some f \<Rightarrow> bnd (ask f) lift)"

text \<open>The passes and actions before the verification are those of the tool \<open>tt\<close>; they are run by
  the compiler object of the target \<open>tg\<close>.\<close>

definition run_verifier ::
  "cc_env \<Rightarrow> target \<Rightarrow> tool \<Rightarrow> string list option \<Rightarrow> int option \<Rightarrow> string \<Rightarrow> string list \<Rightarrow> string step" where
  "run_verifier E tg tt add tmo f override =
     bnd (verifier_passes tt) (\<lambda>passes.
     bnd (on_file f (run_opt E (tool.truncate tg) passes)) (\<lambda>f1.
     bnd (on_file f1 (run_actions E (tool.truncate tg) (tl_actions_before_verification tt))) (\<lambda>f2.
     bnd (reads (\<lambda>s. tool_parameters override add (c_opts s))) (\<lambda>params.
     run_tool E tt params tmo f2))))"

definition decisive :: "string \<Rightarrow> bool" where
  "decisive res \<longleftrightarrow> startswith (lower res) ''true'' \<or> startswith (lower res) ''false''"

text \<open>The loop over the verifiers; \<open>last\<close> is the variable \<open>res\<close> of the method.\<close>

primrec run_portfolio ::
  "portfolio \<Rightarrow> cc_env \<Rightarrow> target \<Rightarrow> string \<Rightarrow> string list \<Rightarrow> string option \<Rightarrow> (string \<times> tool option) step" where
  "run_portfolio Stop E tg f override previous =
     sq print_elapsed_time
        (lift (of_opt NameError (map_option (\<lambda>res. (res, None)) previous)))"
| "run_portfolio (Try tt add tmo k) E tg f override previous =
     bnd (run_verifier E tg tt add tmo f override) (\<lambda>res.
     if decisive res then ret (res, Some tt)
     else
       sq (onlyif (tg_learns tg \<and> learns_threads res) (upd (c_hit_threads_update (\<lambda>_. True))))
          (with_state (\<lambda>s. run_portfolio (k (c_hit_threads s)) E tg f override (Some res))))"

definition run_verification ::
  "cc_env \<Rightarrow> target \<Rightarrow> string \<Rightarrow> string list \<Rightarrow> (string \<times> tool option) step" where
  "run_verification E tg f override =
     sq restart_counting_time
        (with_state (\<lambda>s. run_portfolio (tg_verifiers tg (c_opts s) (c_prop s)) E tg f override None))"

text \<open>\<open>SymbioticVerifier.run\<close>\<close>

definition verifier_run ::
  "cc_env \<Rightarrow> target \<Rightarrow> string \<Rightarrow> string list \<Rightarrow> (string \<times> tool option) step" where
  "verifier_run E tg f override =
     handle (run_verification E tg f override)
       (\<lambda>e. case e of
          SymbioticExceptionalResult m \<Rightarrow> ret (m, None)
        | KeyboardInterrupt \<Rightarrow> throw (SymbioticException ''interrupted'')
        | _ \<Rightarrow> throw e)"

section \<open>Replaying an error\<close>

text \<open>\<open>os.path.dirname\<close>\<close>

definition dirname :: "string \<Rightarrow> string" where
  "dirname p =
     (let head = slice_to p (py_rfind p (CHR ''/'') + 1);
          cut = rev (dropWhile (\<lambda>c. c = CHR ''/'') (rev head))
      in if cut = [] then head else cut)"

text \<open>\<open>get_testcase\<close>, \<open>get_ktest\<close>: the test of the first error in a directory; there may be none.\<close>

definition get_testcase :: "cc_env \<Rightarrow> string list list \<Rightarrow> string \<Rightarrow> string option" where
  "get_testcase E log bindir =
     (let abd = abspath (e_world E) bindir
      in map_option (\<lambda>path. abspath (e_world E) (abd @ ''/'' @ slice_to path (py_find path ''.'')))
           (find (\<lambda>path. endswith path ''.err'') (e_listdir E log abd)))"

definition get_ktest :: "cc_env \<Rightarrow> string list list \<Rightarrow> string \<Rightarrow> exn + string" where
  "get_ktest E log bindir =
     bindE (of_opt TypeError (get_testcase E log bindir)) (\<lambda>test. Inr (test @ ''.ktest''))"

text \<open>\<open>params\<close> is the list \<open>tool_params\<close> of the settings itself unless that is empty, so the
  parameter for the replay stays in the settings.\<close>

definition replay_error_params :: "cc_env \<Rightarrow> string \<Rightarrow> string list step" where
  "replay_error_params E llvmfile =
     with_state (\<lambda>s.
       bnd (lift (get_ktest E (s_log s)
              (if test_comp (c_opts s) then testsuite_output (c_opts s)
               else path_join (dirname llvmfile) ''klee-last''))) (\<lambda>ktest.
       let params = tool_params (c_opts s) @ [''-replay-nondets='' @ e_realpath E ktest]
       in sq (onlyif (tool_params (c_opts s) \<noteq> [])
                (upd (c_opts_update (\<lambda>os. os\<lparr>tool_params := params\<rparr>))))
             (ret params)))"

definition replay_nonsliced :: "cc_env \<Rightarrow> target \<Rightarrow> tool \<Rightarrow> string step" where
  "replay_nonsliced E tg tt =
     bnd (prepare_unsliced_file E (tool.truncate tg)) (\<lambda>bitcode.
     bnd (if tl_can_replay tt then bnd curfile (replay_error_params E) else ret []) (\<lambda>params.
     sq restart_counting_time
     (bnd (verifier_run E (single tt) bitcode params) (\<lambda>(res, _).
     sq print_elapsed_time (ret res)))))"

section \<open>The decisions of \<open>_run_symbiotic\<close>\<close>

definition failed_on_sliced :: "options \<Rightarrow> string \<Rightarrow> bool" where
  "failed_on_sliced os res \<longleftrightarrow> \<not> noslice os \<and> (sv_comp os \<or> test_comp os) \<and>
     (startswith (lower res) ''error'' \<or> startswith (lower res) ''unknown'')"

definition has_error :: "py_prop \<Rightarrow> string \<Rightarrow> bool" where
  "has_error p res \<longleftrightarrow> startswith res ''false'' \<or> startswith res ''done'' \<and> errorcall p"

definition try_unsliced :: "cc_env \<Rightarrow> target \<Rightarrow> string \<times> tool option \<Rightarrow> (string \<times> tool option) step" where
  "try_unsliced E tg answer =
     with_state (\<lambda>s.
       if failed_on_sliced (c_opts s) (fst answer) then
         sq (upd (c_opts_update (\<lambda>os. os\<lparr>replay_error := False, noslice := True\<rparr>)))
         (bnd (prepare_unsliced_file E (tool.truncate tg)) (\<lambda>bitcode.
          bnd (verifier_run E tg bitcode []) (\<lambda>answer'.
          sq print_elapsed_time (ret answer'))))
       else ret answer)"

definition NOT_CONFIRMED :: string where "NOT_CONFIRMED = ''cex not-confirmed''"

text \<open>Returns the result and the variable \<open>has_error\<close>; without a tool, \<open>tool.can_replay()\<close> is an
  \<open>AttributeError\<close>.\<close>

definition confirm_error :: "cc_env \<Rightarrow> target \<Rightarrow> string \<times> tool option \<Rightarrow> (string \<times> bool) step" where
  "confirm_error E tg answer =
     with_state (\<lambda>s. case answer of (res, by) \<Rightarrow>
       if has_error (c_prop s) res \<and> replay_error (c_opts s) \<and> \<not> noslice (c_opts s) then
         bnd (lift (of_opt AttributeError by)) (\<lambda>tt.
         if tl_can_replay tt then
           bnd (replay_nonsliced E tg tt) (\<lambda>newres.
           ret (if res = newres then (res, True)
                else if has_error (c_prop s) newres then (newres, True)
                else (NOT_CONFIRMED, False)))
         else ret (res, True))
       else ret (res, has_error (c_prop s) res))"

definition rerun_unconfirmed ::
  "cc_env \<Rightarrow> target \<Rightarrow> string \<times> bool \<Rightarrow> tool option \<Rightarrow> (string \<times> bool \<times> tool option) step" where
  "rerun_unconfirmed E tg answer by =
     (case answer of (res, bad) \<Rightarrow>
       if res = NOT_CONFIRMED then
         bnd (prepare_unsliced_file E (tool.truncate tg)) (\<lambda>bitcode.
         bnd (verifier_run E tg bitcode []) (\<lambda>(res', by').
         bnd (reads (\<lambda>s. has_error (c_prop s) res')) (\<lambda>bad'.
         ret (res', bad', by'))))
       else ret (res, bad, by))"

text \<open>The descriptions and witnesses; \<open>hasattr\<close> of no tool is \<open>False\<close>.\<close>

definition describe :: "bool \<Rightarrow> tool option \<Rightarrow> unit step" where
  "describe bad by =
     (case by of None \<Rightarrow> ret () | Some tt \<Rightarrow>
      bnd curfile (\<lambda>f.
      with_state (\<lambda>s. upd (c_reports_update (\<lambda>rs. rs @
        (if bad \<and> tl_describes_error tt then [DescribeError f] else []) @
        (if bad \<and> executable_witness (c_opts s) \<and> tl_writes_exec_witness tt
         then [ExecWitness f] else []) @
        (if \<not> nowitness (c_opts s) \<and> tl_writes_witness tt then [WitnessFile (tl_name tt) f bad] else []))))))"

definition decide :: "cc_env \<Rightarrow> target \<Rightarrow> string \<times> tool option \<Rightarrow> (string \<times> bool \<times> tool option) step" where
  "decide E tg answer =
     bnd (try_unsliced E tg answer) (\<lambda>answer1.
     bnd (confirm_error E tg answer1) (\<lambda>answer2.
     rerun_unconfirmed E tg answer2 (snd answer1)))"

definition run_symbiotic_steps :: "cc_env \<Rightarrow> target \<Rightarrow> string step" where
  "run_symbiotic_steps E tg =
     bnd (cc_run E (tool.truncate tg)) (\<lambda>bitcode.
     with_state (\<lambda>s.
       if no_verification (c_opts s) then ret ''No verification''
       else
         bnd (verifier_run E tg bitcode []) (\<lambda>answer.
         bnd (decide E tg answer) (\<lambda>(res, bad, by).
         sq (describe bad by) (ret res)))))"

text \<open>\<open>Symbiotic.run\<close>\<close>

definition symbiotic_handler :: "exn \<Rightarrow> ('a sys_scheme, string) cmd" where
  "symbiotic_handler e =
     (case e of
        KeyboardInterrupt \<Rightarrow> sq kill_running (ret ''interrupted'')
      | SymbioticExceptionalResult m \<Rightarrow> ret m
      | _ \<Rightarrow> throw e)"

definition run_symbiotic :: "cc_env \<Rightarrow> target \<Rightarrow> string step" where
  "run_symbiotic E tg =
     handle (run_symbiotic_steps E tg) symbiotic_handler"

section \<open>The script\<close>

text \<open>\<open>report_results\<close>: the lines that are printed, without the note about the format.\<close>

definition report_results :: "string \<Rightarrow> string list" where
  "report_results res =
     (if startswith res ''false'' then [''Error found.'']
      else if res = ''true'' then [''No error found.'']
      else if startswith res ''error'' \<or> startswith res ''ERROR'' then [''Failure!'']
      else []) @ [''RESULT: '' @ res]"

text \<open>The settings before the run: coverage properties are not sliced in TEST-COMP mode.\<close>

definition main_settings :: "options \<Rightarrow> py_prop \<Rightarrow> options" where
  "main_settings os p = (if test_comp os \<and> coverage p then os\<lparr>noslice := True\<rparr> else os)"

text \<open>The output and the exit status; \<open>utils.err\<close> ends the script with status 1, any other exception
  is not handled (\<open>None\<close>).\<close>

definition main_report :: "exn + string \<Rightarrow> (string list \<times> int) option" where
  "main_report r =
     (case r of
        Inr res \<Rightarrow> Some (report_results (if res = [] then ''no result'' else res),
          if startswith res ''error'' \<or> startswith res ''ERROR'' then 1 else 0)
      | Inl (SymbioticException m) \<Rightarrow> Some ([''RESULT: ERROR ('' @ m @ '')''], 1)
      | Inl (SystemExit m) \<Rightarrow> Some ([], 1)
      | Inl Timeout \<Rightarrow> Some ([''RESULT: timeout''], 0)
      | Inl _ \<Rightarrow> None)"

definition main :: "cc_env \<Rightarrow> target \<Rightarrow> options \<Rightarrow> py_prop \<Rightarrow> string list \<Rightarrow> (string list \<times> int) option" where
  "main E tg os p sources =
     main_report (fst (run_symbiotic E tg
       (init_cc (main_settings os p) p (map (abspath (e_world E)) sources))))"

section \<open>What a run keeps\<close>

text \<open>An invariant of every command and of the one update of a verifier of its own.\<close>

locale verifier_invariant = run_invariant E "tool.truncate tg" I "\<lambda>_. True"
  for E :: cc_env and tg :: target and I :: "cc \<Rightarrow> bool" +
  assumes new_witness: "I s \<Longrightarrow> I (s\<lparr>c_new_witness := b\<rparr>)"
begin

lemma verifier_update: "I s \<Longrightarrow> I (c_new_witness_update g s)"
  using new_witness [of s "g (c_new_witness s)"] by (cases s) simp

lemma keeps_on_file: "keeps I m \<Longrightarrow> keeps I (on_file f m)"
proof (rule keepsI)
  fix s assume m: "keeps I m" and "I s"
  then have "I (s\<lparr>c_curfile := Some f, c_linked := []\<rparr>)" by (intro linked curf)
  with m have "I (snd (m (s\<lparr>c_curfile := Some f, c_linked := []\<rparr>)))" by (rule keepsD)
  then have "I ((snd (m (s\<lparr>c_curfile := Some f, c_linked := []\<rparr>)))
      \<lparr>c_curfile := c_curfile s, c_linked := c_linked s\<rparr>)" by (intro linked curf)
  then show "I (snd (on_file f m s))"
    by (cases "m (s\<lparr>c_curfile := Some f, c_linked := []\<rparr>)") (simp add: on_file_def)
qed

lemma keeps_any_action: "keeps I (cc_action E (tool.truncate tg) a)"
proof (cases a)
  case (ActLinkFrom ts funs restore)
  show ?thesis unfolding ActLinkFrom cc_action_def action.case run_defs
    by (intro inv_intros keeps_link_undefined more_updates)
next
  case (ActConvert conv sfx)
  show ?thesis unfolding ActConvert cc_action_def action.case run_defs
    by (intro inv_intros basic keeps_run_command TrueI)
qed (simp_all add: cc_action_def keeps_link_undefined keeps_run_opt)

lemma keeps_any_actions: "keeps I (run_actions E (tool.truncate tg) acts)"
  unfolding run_actions_def ask_list_def ask_def by (intro inv_intros keeps_any_action)

lemma keeps_run_verifier: "keeps I (run_verifier E tg tt add tmo f override)"
  unfolding run_verifier_def run_tool_def verifier_passes_def ask_def
  by (intro inv_intros keeps_on_file keeps_run_opt keeps_any_actions run verifier_update) simp

end

text \<open>An invariant that also holds for the updates of the driver.\<close>

locale driver_invariant = verifier_invariant E tg I
  for E :: cc_env and tg :: target and I :: "cc \<Rightarrow> bool" +
  assumes hit: "I s \<Longrightarrow> I (s\<lparr>c_hit_threads := True\<rparr>)"
    and reports: "I s \<Longrightarrow> I (s\<lparr>c_reports := rs\<rparr>)"
    and params: "I s \<Longrightarrow> I (s\<lparr>c_opts := (c_opts s)\<lparr>tool_params := ps\<rparr>\<rparr>)"
    and unsliced: "I s \<Longrightarrow> I (s\<lparr>c_opts := (c_opts s)\<lparr>replay_error := False, noslice := True\<rparr>\<rparr>)"
    and killed: "I s \<Longrightarrow> I (s\<lparr>s_alive := False\<rparr>)"
begin

lemma driver_updates:
  "I s \<Longrightarrow> I (c_hit_threads_update (\<lambda>_. True) s)"
  "I s \<Longrightarrow> I (c_reports_update h s)"
  "I s \<Longrightarrow> I (c_opts_update (tool_params_update (\<lambda>_. ps)) s)"
  "I s \<Longrightarrow> I (c_opts_update (\<lambda>os. os\<lparr>replay_error := False, noslice := True\<rparr>) s)"
  "I s \<Longrightarrow> I (s_alive_update (\<lambda>_. False) s)"
  using killed [of s] hit [of s] reports [of s "h (c_reports s)"] params [of s ps] unsliced [of s]
  by (cases s; simp)+

lemma keeps_portfolio: "keeps I (run_portfolio p E tg f override previous)"
proof (induction p arbitrary: previous)
  case (Try tt add tmo k)
  then show ?case unfolding run_portfolio.simps
    by (intro inv_intros keeps_run_verifier driver_updates Try.IH rangeI)
qed (auto intro!: inv_intros)

lemma keeps_verifier_run: "keeps I (verifier_run E tg f override)"
  unfolding verifier_run_def run_verification_def
  by (intro inv_intros keeps_portfolio basic) (auto intro: inv_intros split: exn.split)

end

section \<open>Threads are remembered\<close>

text \<open>Whether threads were met is only noted after an answer, never while a verifier runs.\<close>

interpretation threads_kept: verifier_invariant E tg "\<lambda>s :: cc. c_hit_threads s = h" for E tg h
proof unfold_locales
  fix cmd w
  show "keeps (\<lambda>s :: cc. c_hit_threads s = h) (run_process (e_world E) cmd w)"
  proof (rule keepsI)
    fix s :: cc assume "c_hit_threads s = h"
    then show "c_hit_threads (snd (run_process (e_world E) cmd w s)) = h"
      by (cases rule: run_process_cases [of s "e_world E" cmd w]) auto
  qed
qed simp_all

lemma run_verifier_hit:
  "run_verifier E tg tt add tmo f override s = (r, s') \<Longrightarrow> c_hit_threads s' = c_hit_threads s"
  using keepsD [OF threads_kept.keeps_run_verifier, of s _ E tg tt add tmo f override] by simp

section \<open>The runs of a portfolio\<close>

text \<open>\<open>verifier_failed\<close>: what is noted after an answer that is not decisive.\<close>

definition after_answer :: "target \<Rightarrow> string \<Rightarrow> cc \<Rightarrow> cc" where
  "after_answer tg r s = (if tg_learns tg \<and> learns_threads r then s\<lparr>c_hit_threads := True\<rparr> else s)"

text \<open>Verifiers of a portfolio ran one after the other, each on the state the one before left, and gave
  the answers in the list, none of which is decisive; what is left of the portfolio is tried next.\<close>

inductive tried ::
  "cc_env \<Rightarrow> target \<Rightarrow> string \<Rightarrow> string list \<Rightarrow> portfolio \<Rightarrow> cc \<Rightarrow> string list \<Rightarrow> portfolio \<Rightarrow> cc \<Rightarrow> bool"
  for E tg f override where
  none: "tried E tg f override p s [] p s"
| undecided: "run_verifier E tg tt add tmo f override s = (Inr r, s1) \<Longrightarrow> \<not> decisive r \<Longrightarrow>
    s2 = after_answer tg r s1 \<Longrightarrow> tried E tg f override (k (c_hit_threads s2)) s2 rs q s' \<Longrightarrow>
    tried E tg f override (Try tt add tmo k) s (r # rs) q s'"

inductive_cases tried_ConsE: "tried E tg f override p s (r # rs) q s'"
inductive_cases tried_StopE: "tried E tg f override Stop s rs q s'"
inductive_simps tried_Nil [simp]: "tried E tg f override p s [] q s'"

lemma tried_undecided: "tried E tg f override p s rs q s' \<Longrightarrow> r \<in> set rs \<Longrightarrow> \<not> decisive r"
  by (induction rule: tried.induct) auto

lemma run_portfolio_Try:
  assumes "run_verifier E tg tt add tmo f override s = (Inr r, s1)"
  shows "run_portfolio (Try tt add tmo k) E tg f override previous s =
    (if decisive r then (Inr (r, Some tt), s1)
     else run_portfolio (k (c_hit_threads (after_answer tg r s1))) E tg f override (Some r) (after_answer tg r s1))"
proof (cases "tg_learns tg \<and> learns_threads r")
  case True
  then show ?thesis using assms by (simp add: bnd_def sq_run cmd_run after_answer_def)
next
  case False
  then have "onlyif (tg_learns tg \<and> learns_threads r) m = ret ()" for m by (simp only: onlyif_def if_False)
  with False show ?thesis using assms by (auto simp: bnd_def sq_run cmd_run after_answer_def)
qed

lemma run_portfolio_tried:
  "tried E tg f override p s rs q s' \<Longrightarrow> run_portfolio p E tg f override previous s =
    run_portfolio q E tg f override (if rs = [] then previous else Some (last rs)) s'"
  by (induction arbitrary: previous rule: tried.induct)
    (simp_all add: run_portfolio_Try del: run_portfolio.simps)

lemma portfolio_runs:
  assumes "run_portfolio p E tg f override previous s = (Inr (res, by), s')"
  shows "case by of
      None \<Rightarrow> \<exists>rs. tried E tg f override p s rs Stop s' \<and> s_timer s' \<and>
        (if rs = [] then previous else Some (last rs)) = Some res
    | Some tt \<Rightarrow> \<exists>rs add tmo k s1. tried E tg f override p s rs (Try tt add tmo k) s1 \<and>
        run_verifier E tg tt add tmo f override s1 = (Inr res, s') \<and> decisive res"
  using assms
proof (induction p arbitrary: s previous)
  case Stop
  then show ?case
    by (cases previous; cases "s_timer s") (auto simp: sq_run print_elapsed_time_def of_opt_def cmd_run)
next
  case (Try tt add tmo k)
  from Try.prems obtain r s1 where r: "run_verifier E tg tt add tmo f override s = (Inr r, s1)"
    by (auto simp: bnd_def split: prod.splits sum.splits)
  show ?case
  proof (cases "decisive r")
    case True
    with Try.prems r have "by = Some tt" "res = r" "s' = s1"
      by (simp_all add: run_portfolio_Try del: run_portfolio.simps)
    moreover have "tried E tg f override (Try tt add tmo k) s [] (Try tt add tmo k) s" by (rule tried.none)
    ultimately show ?thesis using True r by (simp del: tried_Nil) blast
  next
    case False
    note step = tried.undecided [OF r False refl]
    from Try.prems r False have "run_portfolio (k (c_hit_threads (after_answer tg r s1))) E tg f override
        (Some r) (after_answer tg r s1) = (Inr (res, by), s')"
      by (simp add: run_portfolio_Try del: run_portfolio.simps)
    note ih = Try.IH [OF rangeI this]
    show ?thesis
    proof (cases "by")
      case None
      with ih obtain rs where "tried E tg f override (Try tt add tmo k) s (r # rs) Stop s'" "s_timer s'"
        "(if rs = [] then Some r else Some (last rs)) = Some res" using step by fastforce
      with None show ?thesis by (auto intro!: exI [of _ "r # rs"])
    next
      case (Some tt')
      with ih obtain rs add' tmo' k' s2 where
        "tried E tg f override (Try tt add tmo k) s (r # rs) (Try tt' add' tmo' k') s2"
        "run_verifier E tg tt' add' tmo' f override s2 = (Inr res, s')" "decisive res" using step by fastforce
      with Some show ?thesis by (simp only: option.case) blast
    qed
  qed
qed

text \<open>C19: The verification phase, from the run of each verifier: an answer counts as decided exactly
  when it begins with true or false, in any case, and the verifiers the portfolio tried before all
  gave answers that do not; the verifier that gave it comes with it and its run was the last one. The
  answer is undecided exactly when every verifier the portfolio offers was run and none decided; it is
  the answer of the last one, and comes without a verifier. Each verifier starts in the state the one
  before left, and a note about threads is made in between.\<close>

theorem verification_answer:
  "run_verification E tg f override s = (Inr (res, by), s') \<longleftrightarrow>
    (let portfolio = tg_verifiers tg (c_opts s) (c_prop s); start = s\<lparr>s_timer := True\<rparr> in
     case by of
       None \<Rightarrow> \<exists>rs. tried E tg f override portfolio start (rs @ [res]) Stop s' \<and> s_timer s'
     | Some tt \<Rightarrow> \<exists>rs add tmo k s1. tried E tg f override portfolio start rs (Try tt add tmo k) s1 \<and>
         run_verifier E tg tt add tmo f override s1 = (Inr res, s') \<and> decisive res)"
    (is "_ \<longleftrightarrow> ?runs")
proof -
  let ?p = "tg_verifiers tg (c_opts s) (c_prop s)" and ?s = "s\<lparr>s_timer := True\<rparr>"
  have r: "run_verification E tg f override s = run_portfolio ?p E tg f override None ?s"
    by (simp add: run_verification_def sq_run restart_counting_time_def upd_def with_state_def)
  show ?thesis
  proof
    assume "run_verification E tg f override s = (Inr (res, by), s')"
    from portfolio_runs [OF this [unfolded r]] show ?runs
      by (auto simp: Let_def split: option.splits if_splits) (metis append_butlast_last_id)
  next
    assume ?runs
    then show "run_verification E tg f override s = (Inr (res, by), s')"
      by (auto simp: Let_def r run_portfolio_tried run_portfolio_Try sq_run print_elapsed_time_def cmd_run of_opt_def
          simp del: run_portfolio.simps(2) split: option.splits)
  qed
qed

section \<open>The whole run\<close>

text \<open>The replay runs the tool that found the error as a target of its own, so the invariant has
  to hold for every target.\<close>

locale symbiotic_invariant =
  fixes E :: cc_env and I :: "cc \<Rightarrow> bool"
  assumes any_target: "driver_invariant E tg I"
begin

lemmas any_run = verifier_invariant.axioms(1) [OF driver_invariant.axioms(1) [OF any_target]]

lemma keeps_verifier: "keeps I (verifier_run E tg f override)"
  by (rule driver_invariant.keeps_verifier_run [OF any_target])

lemma keeps_unsliced: "keeps I (prepare_unsliced_file E (tool.truncate (tg :: target)))"
  by (rule command_invariant.keeps_prepare_unsliced
      [OF run_invariant.axioms(1) [OF any_run]])

lemma keeps_cc: "keeps I (cc_run E (tool.truncate (tg :: target)))"
  by (rule run_invariant.keeps_cc_run [OF any_run])

lemma keeps_times: "keeps I restart_counting_time" "keeps I print_elapsed_time"
  by (rule command_invariant.keeps_timer
      [OF run_invariant.axioms(1) [OF any_run]])+

lemmas state_updates = driver_invariant.driver_updates [OF any_target]

lemma keeps_replay: "keeps I (replay_nonsliced E tg tt)"
  unfolding replay_nonsliced_def replay_error_params_def curfile_def Let_def
  by (intro inv_intros keeps_unsliced keeps_times keeps_verifier state_updates)

lemma keeps_decide: "keeps I (decide E tg answer)"
  unfolding decide_def try_unsliced_def confirm_error_def rerun_unconfirmed_def
  by (intro inv_intros keeps_unsliced keeps_times keeps_verifier keeps_replay state_updates)

lemma keeps_describe: "keeps I (describe bad by)"
  unfolding describe_def curfile_def by (intro inv_intros state_updates)

lemma keeps_run_symbiotic: "keeps I (run_symbiotic E tg)"
  unfolding run_symbiotic_def run_symbiotic_steps_def
  by (intro inv_intros keeps_cc keeps_verifier keeps_decide keeps_describe)
    (auto simp: symbiotic_handler_def kill_running_def intro!: inv_intros state_updates split: exn.split)

end

lemma idle_more [simp]:
  "idle s \<Longrightarrow> idle (s\<lparr>s_alive := False\<rparr>)"
  "idle (s\<lparr>c_hit_threads := b\<rparr>) = idle s" "idle (s\<lparr>c_new_witness := b\<rparr>) = idle s"
  "idle (s\<lparr>c_reports := rs\<rparr>) = idle s"
  by (simp_all add: idle_def)

interpretation idle_symbiotic: symbiotic_invariant E "idle_if_clean E" for E
proof (rule symbiotic_invariant.intro)
  show "driver_invariant E tg (idle_if_clean E)" for tg
    by unfold_locales (simp_all add: idle_if_clean_def)
qed

lemma bnd_cong_keeps:
  assumes "keeps I m" and "I s" and "\<And>x s. I s \<Longrightarrow> k x s = k' x s"
  shows "bnd m k s = bnd m k' s"
  using keepsD [OF assms(1,2)] assms(3) by (auto simp: bnd_def split: prod.splits sum.splits)

text \<open>Settings that are never taken back: no slicing, and the property.\<close>

definition unsliced_for :: "py_prop \<Rightarrow> cc \<Rightarrow> bool" where
  "unsliced_for p s \<longleftrightarrow> noslice (c_opts s) \<and> c_prop s = p"

interpretation unsliced_symbiotic: symbiotic_invariant E "unsliced_for p" for E p
proof (rule symbiotic_invariant.intro)
  fix tg :: target
  show "driver_invariant E tg (unsliced_for p)"
  proof unfold_locales
    fix cmd w
    show "keeps (unsliced_for p) (run_process (e_world E) cmd w)"
    proof (rule keepsI)
      fix s assume "unsliced_for p s"
      then show "unsliced_for p (snd (run_process (e_world E) cmd w s))"
        by (cases rule: run_process_cases [of s "e_world E" cmd w]) (auto simp: unsliced_for_def)
    qed
  qed (simp_all add: unsliced_for_def)
qed

text \<open>C21: A whole run of \<open>Symbiotic\<close>, the compiler phase with the verification, all reruns and
  replays, leaves no program registered or alive, whatever exception it ends in, as long as the output
  of every program can be decoded and no signal arrives.\<close>

theorem symbiotic_leaves_no_process:
  assumes "clean_world (e_world E)" and "idle s"
  shows "idle (snd (run_symbiotic E tg s))"
  using keepsD [OF idle_symbiotic.keeps_run_symbiotic, of E s tg] assms
  by (simp add: idle_if_clean_def)

theorem symbiotic_leaves_no_process_witness:
  "idle (snd (run_symbiotic quiet_env (svcomp_tool ''10.0.1'' id)
    (init_cc plain_options (make_prop MemSafety None) [''a.c''])))"
  by (rule symbiotic_leaves_no_process [OF quiet_clean]) (simp add: idle_def init_cc_def)

section \<open>Errors found on the sliced program\<close>

text \<open>C22: In TEST-COMP mode with a coverage property (error calls included) the driver never
  replays: although the answer \<open>done\<close> comes without a verifier, the test \<open>tool.can_replay()\<close>,
  which would raise on no tool, is never reached.\<close>

theorem testcomp_never_replays:
  assumes "test_comp os" and "coverage p"
  shows "run_symbiotic_steps E tg (init_cc (main_settings os p) p src) =
    bnd (cc_run E (tool.truncate tg)) (\<lambda>bitcode.
    with_state (\<lambda>s.
      if no_verification (c_opts s) then ret ''No verification''
      else
        bnd (verifier_run E tg bitcode []) (\<lambda>(res, by).
        bnd (rerun_unconfirmed E tg (res, has_error p res) by) (\<lambda>(res, bad, by).
        sq (describe bad by) (ret res)))))
    (init_cc (main_settings os p) p src)"
proof -
  have start: "unsliced_for p (init_cc (main_settings os p) p src)"
    using assms by (simp add: unsliced_for_def init_cc_def main_settings_def)
  have d: "decide E tg answer s =
      rerun_unconfirmed E tg (fst answer, has_error p (fst answer)) (snd answer) s"
    if "unsliced_for p s" for answer s
    using that by (simp add: decide_def try_unsliced_def failed_on_sliced_def confirm_error_def
        unsliced_for_def with_state_def ret_def bnd_def split: prod.split)
  show ?thesis unfolding run_symbiotic_steps_def
  proof (rule bnd_cong_keeps [OF unsliced_symbiotic.keeps_cc start])
    fix bitcode s assume s: "unsliced_for p s"
    have "bnd (verifier_run E tg bitcode []) (\<lambda>answer. bnd (decide E tg answer)
        (\<lambda>(res, bad, by). sq (describe bad by) (ret res))) s =
      bnd (verifier_run E tg bitcode []) (\<lambda>(res, by).
        bnd (rerun_unconfirmed E tg (res, has_error p res) by)
        (\<lambda>(res, bad, by). sq (describe bad by) (ret res))) s"
      by (rule bnd_cong_keeps [OF unsliced_symbiotic.keeps_verifier s])
        (auto simp: bnd_def d split: prod.splits)
    then show "with_state (\<lambda>s. if no_verification (c_opts s) then ret ''No verification''
        else bnd (verifier_run E tg bitcode []) (\<lambda>answer. bnd (decide E tg answer)
          (\<lambda>(res, bad, by). sq (describe bad by) (ret res)))) s =
      with_state (\<lambda>s. if no_verification (c_opts s) then ret ''No verification''
        else bnd (verifier_run E tg bitcode []) (\<lambda>(res, by).
          bnd (rerun_unconfirmed E tg (res, has_error p res) by)
          (\<lambda>(res, bad, by). sq (describe bad by) (ret res)))) s"
      by (simp add: with_state_def)
  qed
qed

text \<open>C23: With error replay and slicing on, an error that a tool with support for replay found is
  replayed on the unsliced program by that tool. It is reported when the replay answers the same or another
  error; otherwise the report is whatever the full set of verifiers answers on the unsliced program.
  (An error of a tool without support for replay is reported as it is: \<open>error_without_replay\<close>.)\<close>

theorem reported_error_was_replayed:
  assumes "bnd (confirm_error E tg (res0, Some tt)) (\<lambda>a. rerun_unconfirmed E tg a (Some tt)) s =
      (Inr (res, bad, by), s')"
    and "has_error (c_prop s) res0" and "replay_error (c_opts s)" and "\<not> noslice (c_opts s)"
    and "tl_can_replay tt"
  shows "\<exists>newres s5. replay_nonsliced E tg tt s = (Inr newres, s5) \<and>
    (if res0 = newres \<or> has_error (c_prop s) newres
     then res = newres \<and> bad \<and> by = Some tt \<and> s' = s5
     else \<exists>f s6. prepare_unsliced_file E (tool.truncate tg) s5 = (Inr f, s6) \<and>
       verifier_run E tg f [] s6 = (Inr (res, by), s') \<and> bad = has_error (c_prop s') res)"
proof -
  have res0: "res0 \<noteq> NOT_CONFIRMED"
    using assms(2) by (auto simp: has_error_def NOT_CONFIRMED_def)
  have c: "confirm_error E tg (res0, Some tt) s =
      bnd (replay_nonsliced E tg tt) (\<lambda>newres. ret (if res0 = newres then (res0, True)
        else if has_error (c_prop s) newres then (newres, True) else (NOT_CONFIRMED, False))) s"
    using assms(2-5) by (simp add: confirm_error_def with_state_def lift_def bnd_def)
  from assms(1) c obtain newres s5 where r: "replay_nonsliced E tg tt s = (Inr newres, s5)"
    and rest: "rerun_unconfirmed E tg (if res0 = newres then (res0, True)
        else if has_error (c_prop s) newres then (newres, True) else (NOT_CONFIRMED, False)) (Some tt) s5 =
      (Inr (res, bad, by), s')"
    by (auto simp: bnd_def ret_def split: prod.splits sum.splits)
  have new: "newres \<noteq> NOT_CONFIRMED" if "has_error (c_prop s) newres"
    using that by (auto simp: has_error_def NOT_CONFIRMED_def)
  show ?thesis
  proof (cases "res0 = newres \<or> has_error (c_prop s) newres")
    case True
    with rest res0 new have "res = newres \<and> bad \<and> by = Some tt \<and> s' = s5"
      by (auto simp: rerun_unconfirmed_def ret_def split: if_splits)
    with r True show ?thesis by auto
  next
    case False
    with rest have "\<exists>f s6. prepare_unsliced_file E (tool.truncate tg) s5 = (Inr f, s6) \<and>
       verifier_run E tg f [] s6 = (Inr (res, by), s') \<and> bad = has_error (c_prop s') res"
      by (auto simp: rerun_unconfirmed_def bnd_def reads_def ret_def with_state_def
          split: if_splits prod.splits sum.splits)
    with r False show ?thesis by auto
  qed
qed

lemma error_without_replay:
  assumes "has_error (c_prop s) res" and "\<not> tl_can_replay tt"
  shows "bnd (confirm_error E tg (res, Some tt)) (\<lambda>a. rerun_unconfirmed E tg a (Some tt)) s =
    (Inr (res, True, Some tt), s)"
proof -
  have "res \<noteq> NOT_CONFIRMED" using assms(1) by (auto simp: has_error_def NOT_CONFIRMED_def)
  with assms show ?thesis
    by (simp add: confirm_error_def rerun_unconfirmed_def cmd_run bnd_def of_opt_def)
qed

section \<open>Concrete runs\<close>

text \<open>A tool that transforms nothing and always gives the same answer.\<close>

definition probe_tool :: "string \<Rightarrow> tool" where
  "probe_tool answer = (base_tool ''probe'' ''10.0.1'')
     \<lparr>tl_passes_after_slicing := None, tl_can_replay := True,
      tl_determine_result := (\<lambda>s p status output. Inr answer)\<rparr>"

definition probe_state :: cc where
  "probe_state =
     (init_cc (plain_options\<lparr>replay_error := True, linkundef := [], no_optimize := True\<rparr>)
        (make_prop TerminationProp None) [''a.c''])
     \<lparr>c_nonsliced := Some ''a.bc'', c_curfile := Some ''b.bc'', s_timer := True\<rparr>"

definition probe_env :: cc_env where
  "probe_env = quiet_env\<lparr>e_listdir := (\<lambda>log d. [''test000001.ptr.err''])\<rparr>"

lemma probe_tool_simps [simp]:
  "tl_passes_after_slicing (probe_tool a) = None" "tl_can_replay (probe_tool a)"
  "tl_determine_result (probe_tool a) os p st out = Inr a"
  "tl_actions_after_slicing (probe_tool a) = None"
  "tl_passes_before_verification (probe_tool a) = None"
  "tl_actions_before_verification (probe_tool a) = None"
  "tl_cmdline (probe_tool a) os p e ps ts = Inr ([e] @ ps @ ts)" "tl_executable (probe_tool a) = Named ''true''"
  by (simp_all add: probe_tool_def base_tool_def)

lemma probe_state_simps [simp]:
  "c_opts probe_state = plain_options\<lparr>replay_error := True, linkundef := [], no_optimize := True\<rparr>"
  "c_prop probe_state = make_prop TerminationProp None"
  "c_nonsliced probe_state = Some ''a.bc''" "c_curfile probe_state = Some ''b.bc''"
  "\<not> s_running probe_state" "s_timer probe_state"
  by (simp_all add: probe_state_def init_cc_def)

lemma probe_env_simps [simp]:
  "exec (e_world probe_env) log cmd = Some ([], 0)" "e_listdir probe_env log d = [''test000001.ptr.err'']"
  "w_signal (e_world probe_env) log cmd = None" "abspath (e_world probe_env) = id" "e_realpath probe_env = id" "e_executable probe_env = (\<lambda>x fallback. Inr x)"
  by (simp_all add: probe_env_def quiet_env_def)

lemma single_simps [simp]:
  "tool.truncate (single tt) = tt" "tg_verifiers (single tt) os p = Try tt None None (\<lambda>_. Stop)"
  "\<not> tg_learns (single tt)"
  by (simp_all add: single_def tool.defs)

lemma probe_strings [simp]:
  "decisive ''true''" "decisive ''false''" "endswith ''test000001.ptr.err'' ''.err''"
  by code_simp+

lemmas step_eval = cmd_run sq_run bnd_def run_defs run_actions_def curfile_def set_curfile_def
  of_opt_def run_opt_def link_undefined_def optimize_def print_elapsed_time_def
  restart_counting_time_def termination_prp_def memsafety_def make_prop_def handle_def
  prepare_unsliced_file_def process_after_slicing_def run_process_def process_ended_def new_watch_def
  verifier_run_def run_verification_def run_verifier_def run_tool_def tool_executable_def on_file_def verifier_passes_def
  tool_parameters_def tool_command_def

lemma probe_verifies:
  "\<exists>s'. run_verification probe_env (single (probe_tool ''true'')) ''a.bc'' [] probe_state =
    (Inr (''true'', Some (probe_tool ''true'')), s')"
  by (simp add: step_eval)

lemma probe_confirms:
  defines "tt \<equiv> probe_tool ''false''"
  shows "\<exists>s'. bnd (confirm_error probe_env (single tt) (''false'', Some tt))
     (\<lambda>a. rerun_unconfirmed probe_env (single tt) a (Some tt)) probe_state =
    (Inr (''false'', True, Some tt), s')"
  unfolding tt_def
  by (simp add: step_eval confirm_error_def has_error_def replay_nonsliced_def replay_error_params_def
      get_ktest_def get_testcase_def rerun_unconfirmed_def NOT_CONFIRMED_def)

theorem verification_answer_witness:
  "\<exists>rs add tmo k s1. tried probe_env (single (probe_tool ''true'')) ''a.bc'' []
     (Try (probe_tool ''true'') None None (\<lambda>_. Stop)) (probe_state\<lparr>s_timer := True\<rparr>) rs
     (Try (probe_tool ''true'') add tmo k) s1 \<and>
   (\<exists>s2. run_verifier probe_env (single (probe_tool ''true'')) (probe_tool ''true'') add tmo ''a.bc'' [] s1 =
     (Inr ''true'', s2))"
proof -
  from probe_verifies obtain s' where "run_verification probe_env (single (probe_tool ''true'')) ''a.bc''
    [] probe_state = (Inr (''true'', Some (probe_tool ''true'')), s')" by blast
  from this [unfolded verification_answer Let_def single_simps option.case] show ?thesis by blast
qed

theorem testcomp_never_replays_witness:
  "run_symbiotic_steps probe_env (single (probe_tool ''done''))
      (init_cc (main_settings (plain_options\<lparr>test_comp := True\<rparr>) (make_prop ErrorCall None))
         (make_prop ErrorCall None) [''a.c'']) =
    bnd (cc_run probe_env (probe_tool ''done'')) (\<lambda>bitcode.
    with_state (\<lambda>s.
      if no_verification (c_opts s) then ret ''No verification''
      else
        bnd (verifier_run probe_env (single (probe_tool ''done'')) bitcode []) (\<lambda>(res, by).
        bnd (rerun_unconfirmed probe_env (single (probe_tool ''done''))
               (res, has_error (make_prop ErrorCall None) res) by) (\<lambda>(res, bad, by).
        sq (describe bad by) (ret res)))))
    (init_cc (main_settings (plain_options\<lparr>test_comp := True\<rparr>) (make_prop ErrorCall None))
       (make_prop ErrorCall None) [''a.c''])"
  using testcomp_never_replays [of "plain_options\<lparr>test_comp := True\<rparr>" "make_prop ErrorCall None"
      probe_env "single (probe_tool ''done'')" "[''a.c'']"]
  by (simp add: coverage_def make_prop_def PropertyErrorCall_def)

theorem reported_error_was_replayed_witness:
  "\<exists>newres s5 s' by. replay_nonsliced probe_env (single (probe_tool ''false''))
     (probe_tool ''false'') probe_state = (Inr newres, s5) \<and>
    (if ''false'' = newres \<or> has_error (make_prop TerminationProp None) newres
     then ''false'' = newres \<and> s' = s5
     else \<exists>f s6. prepare_unsliced_file probe_env (probe_tool ''false'') s5 = (Inr f, s6) \<and>
       verifier_run probe_env (single (probe_tool ''false'')) f [] s6 = (Inr (''false'', by), s'))"
proof -
  from probe_confirms obtain s' where "bnd (confirm_error probe_env (single (probe_tool ''false''))
      (''false'', Some (probe_tool ''false'')))
     (\<lambda>a. rerun_unconfirmed probe_env (single (probe_tool ''false'')) a (Some (probe_tool ''false'')))
     probe_state = (Inr (''false'', True, Some (probe_tool ''false'')), s')" by blast
  from reported_error_was_replayed [OF this] show ?thesis
    by (auto simp: has_error_def simp del: single_simps(2) split: if_splits)
qed

section \<open>Threads\<close>

text \<open>C24: When KLEE, tried first, hits threads, the SV-COMP portfolio goes to slowbeast with
  \<open>-threads\<close>, whatever the property: the verification phase then is the run of slowbeast on the
  state KLEE left, and its answer the one that counts.\<close>

theorem threads_reach_slowbeast:
  assumes "run_verifier E (svcomp_tool version absp) (klee_tool version (c_opts s)) None
      (if unreachcall (c_prop s) then Some 333 else None) f override (s\<lparr>s_timer := True\<rparr>) = (Inr r, s1)"
    and "\<not> decisive r" and "learns_threads r"
  shows "run_verification E (svcomp_tool version absp) f override s =
    bnd (run_verifier E (svcomp_tool version absp) (slowbeast_tool version absp False) (Some [''-threads'']) None
           f override) (\<lambda>res.
      if decisive res then ret (res, Some (slowbeast_tool version absp False))
      else sq print_elapsed_time (ret (res, None))) (s1\<lparr>c_hit_threads := True\<rparr>)"
proof -
  let ?tg = "svcomp_tool version absp" and ?sb = "slowbeast_tool version absp False"
  have tg: "tg_verifiers ?tg = svcomp_verifiers version absp" "tg_learns ?tg"
    by (simp_all add: svcomp_tool_def tool.defs)
  let ?threads = "Try ?sb (Some [''-threads'']) None (\<lambda>_. Stop)"
  obtain k where v: "svcomp_verifiers version absp (c_opts s) (c_prop s) =
      Try (klee_tool version (c_opts s)) None (if unreachcall (c_prop s) then Some 333 else None) k"
    and k: "k True = ?threads"
    by (cases "unreachcall (c_prop s)") (simp_all add: svcomp_verifiers_def sb_try_def Let_def)
  have "run_verification E ?tg f override s =
      run_portfolio ?threads E ?tg f override (Some r) (s1\<lparr>c_hit_threads := True\<rparr>)"
    using assms(2,3)
    by (simp add: run_verification_def sq_run restart_counting_time_def cmd_run tg v k bnd_def [of "run_verifier _ _ _ _ _ _ _"]
        assms(1) del: run_portfolio.simps(1))
  also have "\<dots> = bnd (run_verifier E ?tg ?sb (Some [''-threads'']) None f override) (\<lambda>res.
      if decisive res then ret (res, Some ?sb) else sq print_elapsed_time (ret (res, None)))
      (s1\<lparr>c_hit_threads := True\<rparr>)"
  proof (cases "run_verifier E ?tg ?sb (Some [''-threads'']) None f override (s1\<lparr>c_hit_threads := True\<rparr>)")
    case (Pair x s2)
    show ?thesis
    proof (cases x)
      case (Inr res)
      have "c_hit_threads s2" using run_verifier_hit [OF Pair] by simp
      then have "onlyif b (upd (c_hit_threads_update (\<lambda>_. True))) s2 = (Inr (), s2)" for b
        by (cases b) (simp_all add: cmd_run)
      then show ?thesis
        by (simp add: bnd_def Pair Inr sq_run with_state_def print_elapsed_time_def of_opt_def cmd_run lift_def ret_def)
    qed (simp add: bnd_def Pair)
  qed
  finally show ?thesis .
qed

text \<open>KLEE reports a call of the thread library.\<close>

definition threads_env :: cc_env where
  "threads_env = probe_env
     \<lparr>e_world := (e_world probe_env)
        \<lparr>exec := (\<lambda>log cmd. Some ([''KLEE: ERROR: Call to pthread_create''], 1))\<rparr>\<rparr>"

lemma klee_meets_threads:
  "klee_determine_result (plain_options\<lparr>replay_error := True, linkundef := [], no_optimize := True\<rparr>)
    (make_prop TerminationProp None) (Some 1) [''KLEE: ERROR: Call to pthread_create''] = ''unknown (EPTHREAD)''"
  by code_simp

lemma klee_threads_run:
  "\<exists>s1. run_verifier threads_env (svcomp_tool v absp) (klee_tool v (c_opts probe_state)) None None ''a.bc'' []
     (probe_state\<lparr>s_timer := True\<rparr>) = (Inr ''unknown (EPTHREAD)'', s1)"
proof -
  have t: "tl_passes_before_verification (klee_tool v os) = None"
    "tl_actions_before_verification (klee_tool v os) = None" "tl_cmdline (klee_tool v os) = klee_cmdline"
    "tl_determine_result (klee_tool v os) = (\<lambda>s p r out. Inr (klee_determine_result s p r out))" for os
    by (simp_all add: klee_tool_def base_tool_def)
  have "tool_executable threads_env (klee_tool v os) = Inr ''klee''" for os
    by (simp add: tool_executable_def klee_tool_def threads_env_def)
  moreover have "w_signal (e_world threads_env) log cmd = None" for log cmd by (simp add: threads_env_def)
  moreover have "exec (e_world threads_env) log cmd = Some ([''KLEE: ERROR: Call to pthread_create''], 1)" for log cmd
    by (simp add: threads_env_def)
  moreover have "\<exists>cmd. klee_cmdline (c_opts probe_state) (c_prop probe_state) e ps f = Inr cmd" for e ps f
    by (simp add: klee_cmdline_def Let_def memsafety_def memcleanup_def unreachcall_def signedoverflow_def make_prop_def)
  then obtain cmd where "\<And>e ps f. klee_cmdline (c_opts probe_state) (c_prop probe_state) e ps f = Inr (cmd e ps f)" by metis
  ultimately show ?thesis using klee_meets_threads
    by (simp add: run_verifier_def verifier_passes_def t on_file_def run_opt_def run_actions_def run_tool_def
     cmd_run sq_run bnd_def run_defs run_process_def process_ended_def tool_command_def new_watch_def put_line_def watch_parse_def
     buff_append_def is_buffering_def get_lines_def last_n_def of_opt_def curfile_def)
qed

theorem threads_reach_slowbeast_witness:
  "\<exists>s1. run_verification threads_env (svcomp_tool ''10.0.1'' id) ''a.bc'' [] probe_state =
    bnd (run_verifier threads_env (svcomp_tool ''10.0.1'' id) (slowbeast_tool ''10.0.1'' id False)
           (Some [''-threads'']) None ''a.bc'' []) (\<lambda>res.
      if decisive res then ret (res, Some (slowbeast_tool ''10.0.1'' id False))
      else sq print_elapsed_time (ret (res, None))) (s1\<lparr>c_hit_threads := True\<rparr>)"
proof -
  have "\<not> unreachcall (c_prop probe_state)" by (simp add: unreachcall_def make_prop_def)
  with klee_threads_run obtain s1 where
    "run_verifier threads_env (svcomp_tool ''10.0.1'' id) (klee_tool ''10.0.1'' (c_opts probe_state)) None
      (if unreachcall (c_prop probe_state) then Some 333 else None) ''a.bc'' []
      (probe_state\<lparr>s_timer := True\<rparr>) = (Inr ''unknown (EPTHREAD)'', s1)"
    by (auto simp del: probe_state_simps)
  moreover have "\<not> decisive ''unknown (EPTHREAD)''" "learns_threads ''unknown (EPTHREAD)''"
    by code_simp+
  ultimately show ?thesis using threads_reach_slowbeast by blast
qed

section \<open>The SV-COMP portfolio\<close>

text \<open>What is tried next, with which parameters and time limit, from the answers so far alone; \<open>hit\<close> tells
  whether threads had been met before the phase.\<close>

fun next_try :: "portfolio \<Rightarrow> (tool \<times> string list option \<times> int option) option" where
  "next_try Stop = None"
| "next_try (Try tt add tmo k) = Some (tt, add, tmo)"

definition svcomp_choice ::
  "string \<Rightarrow> (string \<Rightarrow> string) \<Rightarrow> options \<Rightarrow> py_prop \<Rightarrow> bool \<Rightarrow> string list \<Rightarrow>
    (tool \<times> string list option \<times> int option) option" where
  "svcomp_choice version absp os p hit answers =
     (let sb = (\<lambda>param tmo. Some (slowbeast_tool version absp (param = ''-bself''), Some [param], tmo)) in
      case answers of
        [] \<Rightarrow> Some (klee_tool version os, None, if unreachcall p then Some 333 else None)
      | klee # slowbeast \<Rightarrow>
          if hit \<or> is_in ''EPTHREAD'' klee
          then if slowbeast = [] then sb ''-threads'' None else None
          else if unreachcall p
          then if length slowbeast = 0 then sb ''-cse'' (Some 60)
               else if length slowbeast = 1 then sb ''-bself'' None
               else if length slowbeast = 2 then sb ''-se-incremental-solving'' None
               else None
          else None)"

lemma tried_Cons:
  "tried E tg f override p s (r # rs) q s' \<longleftrightarrow>
    (\<exists>tt add tmo k s1. p = Try tt add tmo k \<and> run_verifier E tg tt add tmo f override s = (Inr r, s1) \<and>
      \<not> decisive r \<and>
      tried E tg f override (k (c_hit_threads (after_answer tg r s1))) (after_answer tg r s1) rs q s')"
  by (auto elim: tried_ConsE intro: tried.undecided)

lemma tried_Stop: "tried E tg f override Stop s rs q s' \<longleftrightarrow> rs = [] \<and> q = Stop \<and> s' = s"
  by (auto elim: tried_StopE intro: tried.none)

text \<open>A portfolio that does not look at what is noted.\<close>

fun fixed_portfolio :: "(tool \<times> string list option \<times> int option) list \<Rightarrow> portfolio" where
  "fixed_portfolio [] = Stop"
| "fixed_portfolio ((tt, add, tmo) # vs) = Try tt add tmo (\<lambda>_. fixed_portfolio vs)"

lemma tried_fixed:
  "tried E tg f override (fixed_portfolio vs) s rs q s' \<Longrightarrow>
    length rs \<le> length vs \<and> q = fixed_portfolio (drop (length rs) vs)"
proof (induction rs arbitrary: vs s)
  case (Cons r rs)
  then show ?case by (cases vs) (auto simp: tried_Cons tried_Stop)
qed simp

lemma next_fixed: "next_try (fixed_portfolio vs) = (case vs of [] \<Rightarrow> None | v # vs' \<Rightarrow> Some v)"
  by (cases vs rule: fixed_portfolio.cases) simp_all

text \<open>C20: Which verifier the SV-COMP portfolio tries next is a function of the answers the verifiers before
  gave. KLEE comes first, without parameters of its own. When its answer mentions threads, slowbeast with
  \<open>-threads\<close> follows and nothing else; when it does not, nothing is tried for properties other than
  the reachability of calls, and slowbeast with \<open>-cse\<close>, \<open>-bself\<close> and \<open>-se-incremental-solving\<close>, in this
  order, for that one, whatever slowbeast answers. (Threads met in an earlier phase of the same run count like
  an answer of KLEE that mentions them.)\<close>

theorem svcomp_portfolio:
  assumes "tried E (svcomp_tool version absp) f override (svcomp_verifiers version absp os p) s answers q s'"
  shows "next_try q = svcomp_choice version absp os p (c_hit_threads s) answers"
proof (cases answers)
  case Nil
  with assms show ?thesis
    by (auto simp: svcomp_choice_def svcomp_verifiers_def Let_def)
next
  case (Cons r rs)
  let ?tg = "svcomp_tool version absp"
  let ?sb = "\<lambda>param tmo. (slowbeast_tool version absp (param = ''-bself''), Some [param], tmo :: int option)"
  have learns: "tg_learns ?tg" by (simp add: svcomp_tool_def tool.defs)
  let ?vs = "if c_hit_threads s \<or> is_in ''EPTHREAD'' r then [?sb ''-threads'' None]
    else if unreachcall p
    then [?sb ''-cse'' (Some 60), ?sb ''-bself'' None, ?sb ''-se-incremental-solving'' None] else []"
  have rest: "k hit = fixed_portfolio ?vs"
    if "svcomp_verifiers version absp os p = Try tt add tmo k" "hit = (c_hit_threads s \<or> is_in ''EPTHREAD'' r)"
    for tt add tmo k hit
    using that by (auto simp: svcomp_verifiers_def Let_def sb_try_def split: if_splits)
  from assms Cons obtain tt add tmo k s1 where "svcomp_verifiers version absp os p = Try tt add tmo k"
    and "run_verifier E ?tg tt add tmo f override s = (Inr r, s1)"
    and t: "tried E ?tg f override (k (c_hit_threads (after_answer ?tg r s1))) (after_answer ?tg r s1) rs q s'"
    by (auto simp: tried_Cons)
  moreover from this(2) have "c_hit_threads (after_answer ?tg r s1) = (c_hit_threads s \<or> is_in ''EPTHREAD'' r)"
    using run_verifier_hit by (fastforce simp: after_answer_def learns learns_threads_def)
  ultimately have "tried E ?tg f override (fixed_portfolio ?vs) (after_answer ?tg r s1) rs q s'"
    using rest by (simp del: fixed_portfolio.simps)
  then have "length rs \<le> length ?vs" "next_try q = next_try (fixed_portfolio (drop (length rs) ?vs))"
    using tried_fixed by blast+
  then show ?thesis unfolding Cons
    by (cases rs rule: remdups_adj.cases) (auto simp: svcomp_choice_def next_fixed drop_Cons' split: if_splits)
qed

theorem svcomp_portfolio_witness:
  "\<exists>q s'. tried threads_env (svcomp_tool ''10.0.1'' id) ''a.bc'' []
      (svcomp_verifiers ''10.0.1'' id (c_opts probe_state) (make_prop TerminationProp None))
      (probe_state\<lparr>s_timer := True\<rparr>) [''unknown (EPTHREAD)''] q s' \<and>
    next_try q = Some (slowbeast_tool ''10.0.1'' id False, Some [''-threads''], None)"
proof -
  let ?tg = "svcomp_tool ''10.0.1'' id" and ?r = "''unknown (EPTHREAD)''"
  have p: "\<not> unreachcall (make_prop TerminationProp None)" by (simp add: unreachcall_def make_prop_def)
  have r: "\<not> decisive ?r" "is_in ''EPTHREAD'' ?r" by code_simp+
  obtain s1 where "run_verifier threads_env ?tg (klee_tool ''10.0.1'' (c_opts probe_state)) None None ''a.bc'' []
      (probe_state\<lparr>s_timer := True\<rparr>) = (Inr ?r, s1)"
    using klee_threads_run by blast
  then obtain q s' where t: "tried threads_env ?tg ''a.bc'' []
      (svcomp_verifiers ''10.0.1'' id (c_opts probe_state) (make_prop TerminationProp None))
      (probe_state\<lparr>s_timer := True\<rparr>) [?r] q s'"
    using p r(1) unfolding tried_Cons by (auto simp: svcomp_verifiers_def Let_def simp del: probe_state_simps)
  with svcomp_portfolio [OF t] r(2) show ?thesis
    by (intro exI conjI) (assumption, simp add: svcomp_choice_def Let_def)
qed

end
