(* ===== verification/Linking.thy ===== *)
theory Linking
  imports Phases
begin

text \<open>
  Linking the definitions of undefined functions (\<open>_rec_link_undefined\<close> of \<open>transform.py\<close>) ends.
  The method calls itself after every round that linked something; Python stops a recursion that
  is too deep, so it has to be shown that the rounds run out of symbols first. What the tools of
  LLVM do is a parameter, the symbols a file defines after the commands of a log, with a law for each
  tool: the compiler, the linker, the commands that leave files alone, and \<open>llvm-nm\<close>.
\<close>

section \<open>What a command does to the state\<close>

lemma signal_exn_other: "signal_exn sg \<noteq> RecursionError" "RecursionError \<noteq> signal_exn sg"
  by (cases sg; simp)+

lemma feed_no_recursion: "feed lines w \<noteq> Inl RecursionError"
proof (induction lines arbitrary: w)
  case (Cons l ls)
  have "put_line l w \<noteq> Inl RecursionError"
    by (auto simp: put_line_def watch_parse_def decode_def bindE_def split: watch_class.splits)
  with Cons show ?case by (cases "put_line l w") auto
qed simp

lemma mapE_never: "(\<And>x. f x \<noteq> Inl e) \<Longrightarrow> mapE f xs \<noteq> Inl e"
proof (induction xs)
  case (Cons x xs)
  have "f x \<noteq> Inl e" "mapE f xs \<noteq> Inl e" using Cons by blast+
  then show ?case by (cases "f x"; cases "mapE f xs") auto
qed simp

lemma decode_never: "decode b \<noteq> Inl RecursionError" "decode_ascii b \<noteq> Inl RecursionError"
  by (simp_all add: decode_def decode_ascii_def)

lemma never_run_process [never_intros]: "never_raises RecursionError (run_process W cmd w)"
  unfolding run_process_def
  by (intro never_intros) (auto intro!: never_intros feed_no_recursion simp: process_ended_def signal_exn_other split: option.split prod.split)

lemma never_run_command [never_intros]: "never_raises RecursionError (run_command E cmd w msg)"
  unfolding run_command_def runcmd_def print_lines_def
  by (intro never_intros) (auto intro!: never_intros mapE_never decode_never)

lemma never_save_ll [never_intros]: "never_raises RecursionError (save_ll E)"
  unfolding save_ll_def generate_ll_file_def ignore_failure_def curfile_def of_opt_def
  by (intro never_intros) (auto intro!: never_intros split: exn.split option.split)

lemma never_link_files [never_intros]: "never_raises RecursionError (link_files_into E libs out)"
  unfolding link_files_into_def curfile_def set_curfile_def of_opt_def
  by (intro never_intros) (auto intro!: never_intros split: option.splits)

lemma never_link_undefs [never_intros]: "never_raises RecursionError (link_undefs E tt undefs)"
  unfolding link_undefs_def link_one_def compile_to_llvm_def Let_def
  by (intro never_intros) (auto intro!: never_intros split: option.split)

lemma never_curfile [never_intros]: "never_raises RecursionError curfile"
  unfolding curfile_def of_opt_def by (intro never_intros) (auto split: option.split)

lemma never_get_undefined [never_intros]: "never_raises RecursionError (get_undefined E f only)"
  unfolding get_undefined_def runcmd_def print_lines_def
  by (intro never_intros)
    (auto intro!: never_intros mapE_never decode_never split: list.split option.split)

lemma bnd_raises:
  assumes "fst (bnd m k s) = Inl e" and "never_raises e m"
  obtains x s' where "m s = (Inr x, s')" and "fst (k x s') = Inl e"
proof (cases "m s")
  case (Pair r s')
  with assms never_raisesD [OF assms(2), of s] that show thesis
    by (cases r) (auto simp: bnd_def)
qed

section \<open>What is relied on\<close>

definition bc_of :: "cc_env \<Rightarrow> string \<Rightarrow> string" where
  "bc_of E path = abspath (e_world E) (stem (basename_of path) @ ''.bc'')"

text \<open>A file that may be found for a function, at some point of a run with the given settings.\<close>

definition definition_of :: "cc_env \<Rightarrow> tool \<Rightarrow> options \<Rightarrow> string \<Rightarrow> string \<Rightarrow> bool" where
  "definition_of E tt os g p \<longleftrightarrow> (\<exists>s. c_opts s = os \<and> get_path E tt g s = Some p)"

text \<open>The command of \<open>_get_undefined\<close>; its watch keeps only lines of the output.\<close>

definition nm_command :: "string \<Rightarrow> string list" where
  "nm_command f = [''llvm-nm'', ''--undefined-only'', ''-j'', f]"

text \<open>The symbols a file defines after the commands of a log.\<close>

type_synonym symbols = "string list list \<Rightarrow> string \<Rightarrow> string \<Rightarrow> bool"

text \<open>The file that was found for a function defines it: compiling it with success makes the output
  define it.\<close>

definition compiler_defines :: "cc_env \<Rightarrow> tool \<Rightarrow> options \<Rightarrow> symbols \<Rightarrow> bool" where
  "compiler_defines E tt os provides \<longleftrightarrow>
     (\<forall>log g p out. let cmd = compile_command tt os p (bc_of E p) True [] in
        definition_of E tt os g p \<and> exec (e_world E) log cmd = Some (out, 0) \<longrightarrow>
        provides (log @ [cmd]) (bc_of E p) g)"

text \<open>The output of \<open>llvm-link\<close> defines what one of the inputs defined.\<close>

definition linker_defines :: "cc_env \<Rightarrow> symbols \<Rightarrow> bool" where
  "linker_defines E provides \<longleftrightarrow>
     (\<forall>log f inputs h g out. let cmd = ''llvm-link'' # ''-o'' # f # inputs in
        exec (e_world E) log cmd = Some (out, 0) \<and> h \<in> set inputs \<and> provides log h g \<longrightarrow>
        provides (log @ [cmd]) f g)"

text \<open>\<open>llvm-nm\<close> writes no file, \<open>llvm-dis\<close> one with the extension \<open>.ll\<close>, and the compiler only its output.\<close>

definition leaves_file :: "tool \<Rightarrow> options \<Rightarrow> string list \<Rightarrow> string \<Rightarrow> bool" where
  "leaves_file tt os cmd h \<longleftrightarrow>
     (\<exists>f. cmd = nm_command f) \<or> (\<exists>f. cmd = [''llvm-dis'', f]) \<and> \<not> suffix ''.ll'' h \<or>
     (\<exists>source out. cmd = compile_command tt os source out True [] \<and> out \<noteq> h)"

definition others_left :: "tool \<Rightarrow> options \<Rightarrow> symbols \<Rightarrow> bool" where
  "others_left tt os provides \<longleftrightarrow>
     (\<forall>log cmd h g. provides log h g \<and> leaves_file tt os cmd h \<longrightarrow> provides (log @ [cmd]) h g)"

text \<open>\<open>llvm-nm\<close> does not list a symbol as undefined that the file defines.\<close>

definition nm_lists_undefined :: "cc_env \<Rightarrow> symbols \<Rightarrow> bool" where
  "nm_lists_undefined E provides \<longleftrightarrow>
     (\<forall>log f g lines. exec (e_world E) log (nm_command f) = Some (lines, 0) \<and> provides log f g \<longrightarrow>
        g \<notin> strip_bytes ` set lines)"

text \<open>The files with definitions are named after their functions: the bitcode files they are compiled to
  are different, and different from the files with linked code.\<close>

definition named_apart :: "cc_env \<Rightarrow> tool \<Rightarrow> options \<Rightarrow> bool" where
  "named_apart E tt os \<longleftrightarrow>
     (\<forall>g p. definition_of E tt os g p \<longrightarrow> \<not> suffix ''-ln.bc'' (bc_of E p) \<and>
        (\<forall>g' p'. definition_of E tt os g' p' \<and> bc_of E p = bc_of E p' \<longrightarrow> g = g'))"

section \<open>What the steps do\<close>

lemma run_command_ok:
  assumes "run_command E cmd w msg s = (Inr u, s')"
  shows "s' = s\<lparr>s_running := False, s_alive := False, s_log := s_log s @ [cmd]\<rparr> \<and>
    (\<exists>out. exec (e_world E) (s_log s) cmd = Some (out, 0))"
  using assms unfolding run_command_def runcmd_def
  by (cases rule: run_process_cases [of s "e_world E" cmd w])
    (auto simp: bnd_def sq_def ret_def throw_def print_lines_def lift_def split: if_splits sum.splits prod.splits)

lemma run_command_state:
  assumes "run_command E cmd w msg s = (r, s')"
  shows "c_opts s' = c_opts s \<and> c_linked s' = c_linked s \<and> c_curfile s' = c_curfile s \<and>
    (s_log s' = s_log s \<or> s_log s' = s_log s @ [cmd])"
  using assms unfolding run_command_def runcmd_def
  by (cases rule: run_process_cases [of s "e_world E" cmd w])
    (auto simp: bnd_def sq_def ret_def throw_def print_lines_def lift_def split: if_splits sum.splits prod.splits)

lemma save_ll_state:
  assumes "save_ll E s = (r, s')"
  shows "c_opts s' = c_opts s \<and> c_linked s' = c_linked s \<and> c_curfile s' = c_curfile s \<and>
    (s_log s' = s_log s \<or> (\<exists>f. s_log s' = s_log s @ [[''llvm-dis'', f]]))"
  using assms unfolding save_ll_def generate_ll_file_def ignore_failure_def curfile_def handle_def onlyif_def
  by (auto simp: with_state_def bnd_def ret_def lift_def throw_def split: if_splits prod.splits sum.splits exn.splits
      dest!: run_command_state)

lemma link_files_ok:
  assumes "link_files_into E libs None s = (Inr (), s')"
  obtains f out log where "c_curfile s = Some f"
    and "exec (e_world E) (s_log s)
      (''llvm-link'' # ''-o'' # (stem f @ ''-ln.bc'') # libs @ (if str_set (Some f) then [f] else [])) = Some (out, 0)"
    and "c_opts s' = c_opts s" and "c_linked s' = c_linked s" and "c_curfile s' = Some (stem f @ ''-ln.bc'')"
    and "log = s_log s @
      [''llvm-link'' # ''-o'' # (stem f @ ''-ln.bc'') # libs @ (if str_set (Some f) then [f] else [])]"
    and "s_log s' = log \<or> (\<exists>x. s_log s' = log @ [[''llvm-dis'', x]])"
proof -
  let ?cmd = "\<lambda>f. ''llvm-link'' # ''-o'' # (stem f @ ''-ln.bc'') # libs @ (if str_set (Some f) then [f] else [])"
  from assms obtain f s1 where f: "c_curfile s = Some f"
    and run: "run_command E (?cmd f) (new_watch DbgWatch (Some 0)) ''Failed linking llvm file with libraries'' s = (Inr (), s1)"
    and s': "save_ll E (s1\<lparr>c_curfile := Some (stem f @ ''-ln.bc'')\<rparr>) = (Inr (), s')"
    unfolding link_files_into_def curfile_def set_curfile_def assertc_def of_opt_def
    by (auto simp: sq_run bnd_def ret_def lift_def reads_def upd_def with_state_def throw_def
        split: if_splits prod.splits sum.splits option.splits)
  from run_command_ok [OF run] save_ll_state [OF s'] show thesis
    by (auto intro!: that [OF f, where log = "s_log s1"])
qed

lemma feed_plain:
  assumes "feed lines w = Inr (w', stopped)" and "w_class w = PlainWatch" and "w_maxlines w = None"
  shows "set (get_lines w') \<subseteq> set (w_buff w) \<union> set lines"
  using assms
proof (induction lines arbitrary: w)
  case Nil
  then show ?case by (simp add: get_lines_def is_buffering_def)
next
  case (Cons l ls)
  show ?case
  proof (cases "l = [] \<or> \<not> w_ok (w\<lparr>w_buff := w_buff w @ [l]\<rparr>)")
    case True
    with Cons.prems show ?thesis
      by (auto simp: put_line_def watch_parse_def buff_append_def is_buffering_def last_n_def get_lines_def
          split: if_splits)
  next
    case False
    with Cons.prems have "feed ls (w\<lparr>w_buff := w_buff w @ [l]\<rparr>) = Inr (w', stopped)"
      by (simp add: put_line_def watch_parse_def buff_append_def is_buffering_def last_n_def)
    from Cons.IH [OF this] Cons.prems show ?thesis by auto
  qed
qed

lemma get_undefined_ok:
  assumes "get_undefined E f only s = (Inr undefs, s')"
  shows "c_opts s' = c_opts s \<and> c_linked s' = c_linked s \<and> c_curfile s' = c_curfile s \<and>
    s_log s' = s_log s @ [nm_command f] \<and>
    (\<exists>lines. exec (e_world E) (s_log s) (nm_command f) = Some (lines, 0) \<and> set undefs \<subseteq> strip_bytes ` set lines)"
proof -
  from assms obtain w s1 where run: "runcmd (e_world E) (nm_command f) (new_watch PlainWatch None)
      ''Failed getting undefined symbols from bitcode'' s = (Inr w, s')"
    and u: "\<exists>us. mapE (\<lambda>line. decode_ascii (strip_bytes line)) (get_lines w) = Inr us \<and> set undefs \<subseteq> set us"
    unfolding get_undefined_def nm_command_def [symmetric]
    by (auto simp: bnd_def lift_def ret_def split: prod.splits sum.splits list.splits option.splits)
  from run obtain lines where "exec (e_world E) (s_log s) (nm_command f) = Some (lines, 0)"
    and w: "\<exists>stopped. feed (read_lines (e_world E) (s_log s) (nm_command f) lines) (new_watch PlainWatch None) = Inr (w, stopped)" and "c_opts s' = c_opts s \<and> c_linked s' = c_linked s \<and> c_curfile s' = c_curfile s \<and> s_log s' = s_log s @ [nm_command f]"
    unfolding runcmd_def
    by (cases rule: run_process_cases [of s "e_world E" "nm_command f" "new_watch PlainWatch None"])
      (auto simp: bnd_def sq_def ret_def throw_def print_lines_def lift_def
        split: if_splits sum.splits prod.splits)
  moreover have "set undefs \<subseteq> strip_bytes ` set lines"
  proof -
    from w feed_plain have "set (get_lines w) \<subseteq> set (read_lines (e_world E) (s_log s) (nm_command f) lines)"
      by (fastforce simp: new_watch_def)
    with read_lines_subset have "set (get_lines w) \<subseteq> set lines" by (rule subset_trans [rotated])
    moreover have "set us \<subseteq> strip_bytes ` set ls"
      if "mapE (\<lambda>line. decode_ascii (strip_bytes line)) ls = Inr us" for ls us
      using that by (induction ls arbitrary: us) (auto simp: bindE_eq_Inr decode_ascii_def split: if_splits)
    ultimately show ?thesis using u by blast
  qed
  ultimately show ?thesis by blast
qed

section \<open>One round\<close>

text \<open>The files whose symbols a round relies on: those with linked code, and the compiled definitions.\<close>

definition relied_on :: "cc_env \<Rightarrow> tool \<Rightarrow> options \<Rightarrow> string \<Rightarrow> string \<Rightarrow> bool" where
  "relied_on E tt os h g \<longleftrightarrow> suffix ''-ln.bc'' h \<or> (\<exists>p. definition_of E tt os g p \<and> h = bc_of E p)"

definition still_defined :: "cc_env \<Rightarrow> tool \<Rightarrow> symbols \<Rightarrow> cc \<Rightarrow> cc \<Rightarrow> bool" where
  "still_defined E tt provides s s' \<longleftrightarrow>
     (\<forall>h g. relied_on E tt (c_opts s) h g \<and> provides (s_log s) h g \<longrightarrow> provides (s_log s') h g)"

lemma link_one_ok:
  assumes "compiler_defines E tt (c_opts s) provides" and "others_left tt (c_opts s) provides"
    and "named_apart E tt (c_opts s)" and "link_one E tt g s = (Inr out, s')"
  shows "c_opts s' = c_opts s \<and> c_curfile s' = c_curfile s \<and> still_defined E tt provides s s' \<and>
    (case out of None \<Rightarrow> c_linked s' = c_linked s
     | Some b \<Rightarrow> c_linked s' = c_linked s @ [g] \<and> provides (s_log s') b g \<and>
         (\<exists>p. definition_of E tt (c_opts s) g p \<and> b = bc_of E p))"
proof (cases "get_path E tt g s")
  case None
  with assms(4) show ?thesis by (auto simp: link_one_def bnd_def reads_def ret_def still_defined_def)
next
  case (Some p)
  let ?cmd = "compile_command tt (c_opts s) p (bc_of E p) True []"
  have d: "definition_of E tt (c_opts s) g p" using Some unfolding definition_of_def by blast
  from assms(4) Some obtain s1 where "run_command E ?cmd compile_watch (''Compiling source '' @ quoted p @ '' failed'') s = (Inr (), s1)"
    and s': "out = Some (bc_of E p)" "s' = s1\<lparr>c_linked := c_linked s1 @ [g]\<rparr>"
    by (auto simp: link_one_def compile_to_llvm_def bc_of_def bnd_def sq_def reads_def ret_def upd_def with_state_def Let_def
        split: prod.splits sum.splits)
  from run_command_ok [OF this(1)] obtain lines where s1: "c_opts s1 = c_opts s" "c_curfile s1 = c_curfile s"
    "c_linked s1 = c_linked s" "s_log s1 = s_log s @ [?cmd]" and "exec (e_world E) (s_log s) ?cmd = Some (lines, 0)" by auto
  with assms(1) d have def: "provides (s_log s @ [?cmd]) (bc_of E p) g" unfolding compiler_defines_def Let_def by blast
  have "provides (s_log s @ [?cmd]) h k" if r: "relied_on E tt (c_opts s) h k" "provides (s_log s) h k" for h k
  proof (cases "h = bc_of E p")
    case True
    with r(1) assms(3) d have "k = g" unfolding named_apart_def relied_on_def by metis
    with def True show ?thesis by simp
  next
    case False
    then have "leaves_file tt (c_opts s) ?cmd h" unfolding leaves_file_def by blast
    with r(2) assms(2) show ?thesis unfolding others_left_def by blast
  qed
  with s' s1 def d show ?thesis by (auto simp: still_defined_def)
qed

lemma link_all_ok:
  assumes "compiler_defines E tt (c_opts s) provides" and "others_left tt (c_opts s) provides"
    and "named_apart E tt (c_opts s)" and "mapm (link_one E tt) undefs s = (Inr outs, s')"
  shows "c_opts s' = c_opts s \<and> c_curfile s' = c_curfile s \<and> still_defined E tt provides s s' \<and>
    (\<exists>L. c_linked s' = c_linked s @ L \<and> set L \<subseteq> set undefs \<and> (L = [] \<longleftrightarrow> List.map_filter (\<lambda>x. x) outs = []) \<and>
      (\<forall>g \<in> set L. \<exists>p. definition_of E tt (c_opts s) g p \<and> Some (bc_of E p) \<in> set outs \<and>
        provides (s_log s') (bc_of E p) g))"
  using assms
proof (induction undefs arbitrary: s outs)
  case Nil
  then show ?case by (auto simp: ret_def map_filter_simps still_defined_def)
next
  case (Cons g gs)
  from Cons.prems(4) obtain out s1 outs1 where one: "link_one E tt g s = (Inr out, s1)"
    and all: "mapm (link_one E tt) gs s1 = (Inr outs1, s')" and outs: "outs = out # outs1"
    by (auto simp: bnd_def ret_def split: prod.splits sum.splits)
  note o = link_one_ok [OF Cons.prems(1-3) one]
  then have opts: "c_opts s1 = c_opts s" by simp
  have i: "c_opts s' = c_opts s1 \<and> c_curfile s' = c_curfile s1 \<and> still_defined E tt provides s1 s' \<and>
    (\<exists>L. c_linked s' = c_linked s1 @ L \<and> set L \<subseteq> set gs \<and> (L = [] \<longleftrightarrow> List.map_filter (\<lambda>x. x) outs1 = []) \<and>
      (\<forall>g \<in> set L. \<exists>p. definition_of E tt (c_opts s1) g p \<and> Some (bc_of E p) \<in> set outs1 \<and>
        provides (s_log s') (bc_of E p) g))"
    using Cons.prems(1-3) all unfolding opts [symmetric] by (rule Cons.IH)
  then obtain L where L: "c_linked s' = c_linked s1 @ L" "set L \<subseteq> set gs"
    "L = [] \<longleftrightarrow> List.map_filter (\<lambda>x. x) outs1 = []"
    "\<forall>g \<in> set L. \<exists>p. definition_of E tt (c_opts s) g p \<and> Some (bc_of E p) \<in> set outs1 \<and>
        provides (s_log s') (bc_of E p) g" unfolding opts by blast
  have still: "still_defined E tt provides s s'"
    using o i unfolding still_defined_def opts by blast
  show ?case
  proof (cases out)
    case None
    with o i L still show ?thesis
      by (intro conjI exI [of _ L]) (auto simp: outs map_filter_simps opts)
  next
    case (Some b)
    with o obtain p where p: "definition_of E tt (c_opts s) g p" "b = bc_of E p" "provides (s_log s1) b g"
      and l: "c_linked s1 = c_linked s @ [g]" by auto
    then have "relied_on E tt (c_opts s1) b g" unfolding relied_on_def opts by blast
    with p(3) i have "provides (s_log s') b g" unfolding still_defined_def by blast
    with p(1,2) Some have "\<exists>p. definition_of E tt (c_opts s) g p \<and> Some (bc_of E p) \<in> set outs \<and>
        provides (s_log s') (bc_of E p) g" unfolding outs by auto
    with L(4) have "\<forall>g \<in> set (g # L). \<exists>p. definition_of E tt (c_opts s) g p \<and> Some (bc_of E p) \<in> set outs \<and>
        provides (s_log s') (bc_of E p) g" unfolding outs by auto
    with o i L(1,2) l still Some show ?thesis
      by (intro conjI exI [of _ "g # L"]) (auto simp: outs map_filter_simps opts)
  qed
qed

text \<open>Every function in \<open>_linked_functions\<close> is defined in the current file.\<close>

definition linked_defined :: "symbols \<Rightarrow> cc \<Rightarrow> bool" where
  "linked_defined provides s \<longleftrightarrow>
     (c_linked s = [] \<or> (\<exists>f. c_curfile s = Some f \<and> suffix ''-ln.bc'' f \<and>
        (\<forall>g \<in> set (c_linked s). provides (s_log s) f g)))"

definition llvm_tools :: "cc_env \<Rightarrow> tool \<Rightarrow> options \<Rightarrow> symbols \<Rightarrow> bool" where
  "llvm_tools E tt os provides \<longleftrightarrow> compiler_defines E tt os provides \<and> linker_defines E provides \<and>
     others_left tt os provides \<and> nm_lists_undefined E provides"

lemma ln_not_ll: "\<not> suffix ''.ll'' (x @ ''-ln.bc'')"
proof
  assume "suffix ''.ll'' (x @ ''-ln.bc'')"
  then obtain y where "x @ ''-ln.bc'' = y @ ''.ll''" by (auto simp: suffix_def)
  then have "last (x @ ''-ln.bc'') = last (y @ ''.ll'')" by (rule arg_cong)
  then show False by simp
qed

lemma link_undefs_ok:
  assumes "llvm_tools E tt (c_opts s) provides" and "named_apart E tt (c_opts s)"
    and "linked_defined provides s" and "link_undefs E tt undefs s = (Inr b, s')"
  shows "c_opts s' = c_opts s \<and> linked_defined provides s' \<and>
    (\<exists>L. c_linked s' = c_linked s @ L \<and> set L \<subseteq> set undefs \<and> (b \<longleftrightarrow> L \<noteq> []) \<and>
      (\<forall>g \<in> set L. \<exists>p. definition_of E tt (c_opts s) g p))"
proof -
  from assms(4) obtain outs s1 where all: "mapm (link_one E tt) undefs s = (Inr outs, s1)"
    and rest: "(let tolink = List.map_filter (\<lambda>x. x) outs in
      if tolink \<noteq> [] then sq (link_files_into E tolink None) (ret True) else ret False) s1 = (Inr b, s')"
    by (auto simp: link_undefs_def bnd_def split: prod.splits sum.splits)
  have laws: "compiler_defines E tt (c_opts s) provides" "linker_defines E provides" "others_left tt (c_opts s) provides"
    using assms(1) by (auto simp: llvm_tools_def)
  from link_all_ok [OF laws(1,3) assms(2) all] obtain L where
    s1: "c_opts s1 = c_opts s" "c_curfile s1 = c_curfile s" "still_defined E tt provides s s1" and
    L: "c_linked s1 = c_linked s @ L" "set L \<subseteq> set undefs" "L = [] \<longleftrightarrow> List.map_filter (\<lambda>x. x) outs = []"
      "\<forall>g \<in> set L. \<exists>p. definition_of E tt (c_opts s) g p \<and> Some (bc_of E p) \<in> set outs \<and>
        provides (s_log s1) (bc_of E p) g" by blast
  have old: "provides (s_log s1) f g"
    if "c_curfile s = Some f" "g \<in> set (c_linked s)" "suffix ''-ln.bc'' f" for f g
    using assms(3) s1(3) that unfolding linked_defined_def still_defined_def relied_on_def by fastforce
  show ?thesis
  proof (cases "L = []")
    case True
    with rest L(3) have "s' = s1" "\<not> b" by (auto simp: ret_def)
    moreover have "linked_defined provides s1"
      using assms(3) old s1(2) L(1) True unfolding linked_defined_def by auto
    ultimately show ?thesis using s1(1) L True by (intro conjI exI [of _ L]) auto
  next
    case False
    let ?libs = "List.map_filter (\<lambda>x. x) outs"
    from False rest L(3) have link: "link_files_into E ?libs None s1 = (Inr (), s')" and "b"
      by (auto simp: sq_run ret_def split: prod.splits sum.splits)
    from link obtain f out log where f: "c_curfile s1 = Some f"
      and run: "exec (e_world E) (s_log s1)
        (''llvm-link'' # ''-o'' # (stem f @ ''-ln.bc'') # ?libs @ (if str_set (Some f) then [f] else [])) = Some (out, 0)"
      and s': "c_opts s' = c_opts s1" "c_linked s' = c_linked s1" "c_curfile s' = Some (stem f @ ''-ln.bc'')"
      and s2: "log = s_log s1 @
        [''llvm-link'' # ''-o'' # (stem f @ ''-ln.bc'') # ?libs @ (if str_set (Some f) then [f] else [])]"
      and log: "s_log s' = log \<or> (\<exists>x. s_log s' = log @ [[''llvm-dis'', x]])"
      by (rule link_files_ok)
    have input: "\<exists>h \<in> set (?libs @ (if str_set (Some f) then [f] else [])). provides (s_log s1) h g"
      if "g \<in> set (c_linked s1)" for g
    proof (cases "g \<in> set L")
      case True
      with L(4) obtain p where "Some (bc_of E p) \<in> set outs" "provides (s_log s1) (bc_of E p) g" by blast
      moreover from this(1) have "bc_of E p \<in> set ?libs" by (force simp: List.map_filter_def)
      ultimately show ?thesis by auto
    next
      case False
      with that L(1) have g: "g \<in> set (c_linked s)" by auto
      with assms(3) f s1(2) have "suffix ''-ln.bc'' f" unfolding linked_defined_def by auto
      with old g f s1(2) have "provides (s_log s1) f g" by simp
      moreover have "str_set (Some f)" using \<open>suffix ''-ln.bc'' f\<close> by (cases f) (simp_all add: str_set_def)
      ultimately show ?thesis by auto
    qed
    have linked: "provides log (stem f @ ''-ln.bc'') g" if "g \<in> set (c_linked s1)" for g
      using input [OF that] laws(2) run unfolding linker_defines_def Let_def s2 by blast
    have "provides (s_log s') (stem f @ ''-ln.bc'') g" if "g \<in> set (c_linked s1)" for g
      using log linked [OF that] laws(3) ln_not_ll unfolding others_left_def leaves_file_def by fastforce
    moreover have "suffix ''-ln.bc'' (stem f @ ''-ln.bc'')" by (rule suffixI) (rule refl)
    ultimately have "linked_defined provides s'" using s' by (simp add: linked_defined_def)
    with s' s1(1) L \<open>b\<close> False show ?thesis by (intro conjI exI [of _ L]) auto
  qed
qed

section \<open>All rounds\<close>

lemma new_undefined:
  assumes "llvm_tools E tt (c_opts s) provides" and "linked_defined provides s" and "c_curfile s = Some f"
    and "get_undefined E f only s = (Inr undefs, s')"
  shows "set undefs \<inter> set (c_linked s) = {}" and "linked_defined provides s'"
proof -
  from get_undefined_ok [OF assms(4)] obtain lines where
    "exec (e_world E) (s_log s) (nm_command f) = Some (lines, 0)" and u: "set undefs \<subseteq> strip_bytes ` set lines"
    and s': "c_linked s' = c_linked s" "c_curfile s' = c_curfile s" "s_log s' = s_log s @ [nm_command f]" by blast
  with assms(1-3) have "g \<notin> strip_bytes ` set lines" if "g \<in> set (c_linked s)" for g
    using that unfolding llvm_tools_def nm_lists_undefined_def linked_defined_def by fastforce
  with u show "set undefs \<inter> set (c_linked s) = {}" by blast
  have "leaves_file tt (c_opts s) (nm_command f) h" for h unfolding leaves_file_def by blast
  with assms(1,2) s' show "linked_defined provides s'"
    unfolding llvm_tools_def others_left_def linked_defined_def by auto
qed

lemma rounds_end:
  assumes "llvm_tools E tt os provides" and "named_apart E tt os"
    and "finite D" and "\<And>g p. definition_of E tt os g p \<Longrightarrow> g \<in> D"
    and "c_opts s = os" and "linked_defined provides s" and "card (D - set (c_linked s)) < n"
  shows "fst (rec_link_undefined n E tt only s) \<noteq> Inl RecursionError"
  using assms(5-7)
proof (induction n arbitrary: s only)
  case (Suc n)
  show ?case
  proof
    assume "fst (rec_link_undefined (Suc n) E tt only s) = Inl RecursionError"
    then obtain f s0 where f: "curfile s = (Inr f, s0)" and "fst (bnd (get_undefined E f only)
        (\<lambda>undefs. bnd (link_undefs E tt undefs)
        (\<lambda>linked. onlyif linked (rec_link_undefined n E tt None))) s0) = Inl RecursionError"
      unfolding rec_link_undefined.simps by (rule bnd_raises) (rule never_curfile)
    moreover from f have cur: "s0 = s" "c_curfile s = Some f"
      by (auto simp: curfile_def with_state_def lift_def of_opt_def split: option.splits)
    ultimately obtain undefs s1 where u: "get_undefined E f only s = (Inr undefs, s1)"
      and "fst (bnd (link_undefs E tt undefs)
        (\<lambda>linked. onlyif linked (rec_link_undefined n E tt None)) s1) = Inl RecursionError"
      using never_get_undefined by (blast elim: bnd_raises)
    then obtain b s2 where l: "link_undefs E tt undefs s1 = (Inr b, s2)"
      and r: "fst (onlyif b (rec_link_undefined n E tt None) s2) = Inl RecursionError"
      using never_link_undefs by (blast elim: bnd_raises)
    from r have b by (cases b) (simp_all add: ret_def)
    with r have r: "fst (rec_link_undefined n E tt None s2) = Inl RecursionError" by simp
    have laws: "llvm_tools E tt (c_opts s) provides" using assms(1) Suc.prems(1) by simp
    note new = new_undefined [OF laws Suc.prems(2) cur(2) u]
    have s1: "c_opts s1 = os" "c_linked s1 = c_linked s" using get_undefined_ok [OF u] Suc.prems(1) by auto
    then have "llvm_tools E tt (c_opts s1) provides" "named_apart E tt (c_opts s1)" using assms(1,2) by auto
    from link_undefs_ok [OF this new(2) l] s1 \<open>b\<close> obtain L where
      L: "c_opts s2 = os" "linked_defined provides s2" "c_linked s2 = c_linked s @ L" "set L \<subseteq> set undefs" "L \<noteq> []"
        "\<forall>g \<in> set L. \<exists>p. definition_of E tt os g p" by auto
    from L(5) obtain g where g: "g \<in> set L" by (cases L) auto
    with L(6) assms(4) have "g \<in> D" by blast
    with g L(3,4) new(1) have "D - set (c_linked s2) \<subset> D - set (c_linked s)" by auto
    then have "card (D - set (c_linked s2)) < card (D - set (c_linked s))"
      by (rule psubset_card_mono [OF finite_Diff [OF assms(3)]])
    with Suc.prems(3) have "card (D - set (c_linked s2)) < n" by simp
    from Suc.IH [OF L(1,2) this] r show False by blast
  qed
qed simp


text \<open>One definable symbol. The current file lists it as undefined; a file that was compiled or linked
  lists nothing.\<close>

definition made :: "string list list \<Rightarrow> string \<Rightarrow> bool" where
  "made log f \<longleftrightarrow> list_ex (\<lambda>cmd. take 3 cmd = [''llvm-link'', ''-o'', f] \<or> take 2 (drop (length cmd - 3) cmd) = [''-o'', f]) log"

definition link_env :: cc_env where
  "link_env = quiet_env\<lparr>e_world :=
     \<lparr>exec = (\<lambda>log cmd. Some (if take 1 cmd = [''llvm-nm''] \<and> \<not> made log (last cmd) then [''foo''] else [], 0)),
      isfile = (\<lambda>log f. f = ''/opt/lib/verifier/foo.c''), abspath = id,
      w_signal = (\<lambda>log cmd. None)\<rparr>\<rparr>"

lemma link_env_simps [simp]:
  "isfile (e_world link_env) log f \<longleftrightarrow> f = ''/opt/lib/verifier/foo.c''" "abspath (e_world link_env) = id"
  "e_symbiotic_dir link_env = ''/opt''"
  by (simp_all add: link_env_def quiet_env_def)

lemma compiled_made: "made (log @ [compile_command tt os p b True []]) b"
proof -
  obtain pre where "compile_command tt os p b True [] = pre @ [''-o'', b, p]"
    by (simp add: compile_command_def)
  then show ?thesis by (simp add: made_def)
qed

lemma one_slash:
  assumes "a @ CHR ''/'' # b = x @ CHR ''/'' # y" and "CHR ''/'' \<notin> set x" and "CHR ''/'' \<notin> set y"
  shows "a = x \<and> b = y"
  using append_Cons_eq_iff [OF assms(2,3), of a b] assms(1) by auto

lemma link_env_definable:
  assumes "definition_of link_env (klee_tool ''10.0.1'' plain_options) plain_options g p"
  shows "g = ''foo'' \<and> p = ''/opt/lib/verifier/foo.c''"
proof -
  have found: "find P xs = Some x \<Longrightarrow> P x \<and> x \<in> set xs" for P xs and x :: string
    by (induction xs) (auto split: if_splits)
  from assms obtain s where p: "get_path link_env (klee_tool ''10.0.1'' plain_options) g s = Some p"
    unfolding definition_of_def by blast
  have klee: "lower ''klee'' = ''klee''" by code_simp
  from found [OF p [unfolded get_path_def]] obtain ty where path: "p = ''/opt/lib/verifier/foo.c''"
    and "p \<in> set (definition_paths link_env ''10.0.1'' ''klee'' (is32bit (c_opts s)) g ty)"
    using klee by (auto simp: klee_tool_def base_tool_def)
  then consider "''verifier/foo.c'' = ty @ ''/'' @ ''klee/'' @ g @ ''.c''" | "''verifier/foo.c'' = ty @ ''/'' @ g @ ''.c''"
    by (auto simp: definition_paths_def Let_def)
  then have "g @ ''.c'' = ''foo.c''"
  proof cases
    case 1
    with one_slash [of ty "''klee/'' @ g @ ''.c''" "''verifier''" "''foo.c''"] show ?thesis by simp
  next
    case 2
    with one_slash [of ty "g @ ''.c''" "''verifier''" "''foo.c''"] show ?thesis by simp
  qed
  then have "g @ ''.c'' = ''foo'' @ ''.c''" by simp
  with path show ?thesis by (simp only: append_same_eq simp_thms)
qed


end
