(* ===== verification/Ktest.thy ===== *)
theory Ktest
  imports CC "HOL-Library.Word"
begin

text \<open>
  The test files of KLEE (\<open>targets/kleebase.py\<close>): reading the binary format (\<open>_parseKtest\<close>),
  printing its objects (\<open>get_repr\<close>, \<open>is_zero\<close>, \<open>get_nice_repr\<close>, \<open>print_object\<close>,
  \<open>_dumpObjects\<close>) and the error traces around them (\<open>dump_error\<close>, \<open>dump_errors\<close>). An open file
  is the list of the bytes that are left in it; what is printed is a list of lines.
\<close>

section \<open>Integers in bytes\<close>

type_synonym byte = "8 word"

text \<open>\<open>struct.unpack\<close> of one signed integer: \<open>>i\<close> is big endian; the native formats \<open>l\<close>, \<open>i\<close>, \<open>h\<close>,
  \<open>b\<close> are little endian, and \<open>l\<close> has eight bytes, as on the platforms KLEE runs on.\<close>

fun le_int :: "byte list \<Rightarrow> int" where
  "le_int [] = 0"
| "le_int (b # bs) = uint b + 256 * le_int bs"

definition to_signed :: "nat \<Rightarrow> int \<Rightarrow> int" where
  "to_signed n v = (if v < 256 ^ n div 2 then v else v - 256 ^ n)"

definition unpack_native :: "nat \<Rightarrow> byte list \<Rightarrow> exn + int" where
  "unpack_native n bs =
     (if length bs = n then Inr (to_signed n (le_int bs)) else Inl StructError)"

definition unpack_be :: "byte list \<Rightarrow> exn + int" where
  "unpack_be bs = unpack_native 4 (rev bs)"

text \<open>The inverse, which the file format is stated with.\<close>

fun le_bytes :: "nat \<Rightarrow> int \<Rightarrow> byte list" where
  "le_bytes 0 i = []"
| "le_bytes (Suc n) i = word_of_int i # le_bytes n (i div 256)"

lemma length_le_bytes [simp]: "length (le_bytes n i) = n"
  by (induction n arbitrary: i) simp_all

lemma byte_of_int: "uint (word_of_int i :: byte) = i mod 256"
  by (simp add: uint_word_of_int)

lemma uint_byte: "0 \<le> uint (b :: byte)" "uint b < 256"
  using uint_bounded [of b] by simp_all

lemma le_int_le_bytes: "le_int (le_bytes n i) = i mod 256 ^ n"
proof (induction n arbitrary: i)
  case (Suc n)
  then show ?case by (simp add: byte_of_int zmod_zmult2_eq)
qed simp

lemma le_int_bounds: "0 \<le> le_int bs" "le_int bs < 256 ^ length bs"
proof (induction bs)
  case (Cons b bs)
  { case 1 show ?case using Cons.IH uint_byte [of b] by simp }
  { case 2 show ?case using Cons.IH uint_byte [of b] by simp }
qed simp_all

lemma le_bytes_le_int: "le_bytes (length bs) (le_int bs) = bs"
proof (induction bs)
  case (Cons b bs)
  have "(uint b + 256 * le_int bs) div 256 = le_int bs" using uint_byte [of b] by simp
  moreover have "(word_of_int (uint b + 256 * le_int bs) :: byte) = b"
  proof -
    have "256 * w = 0" for w :: byte by (rule word_uint_eqI) (simp add: uint_word_ariths)
    then show ?thesis by simp
  qed
  ultimately show ?case using Cons.IH by simp
qed simp

lemma le_bytes_mod: "i mod 256 ^ n = j mod 256 ^ n \<Longrightarrow> le_bytes n i = le_bytes n j"
  using le_bytes_le_int [of "le_bytes n i"] le_bytes_le_int [of "le_bytes n j"]
  by (simp add: le_int_le_bytes)

lemma signed_of_bytes:
  assumes "0 < n" and "- (256 ^ n div 2) \<le> i" and "i < 256 ^ n div 2"
  shows "to_signed n (i mod 256 ^ n) = i"
proof (cases "0 \<le> i")
  case True
  moreover have "i < 256 ^ n"
  proof -
    have "(0::int) < 256 ^ n" by simp
    with assms(3) show ?thesis by linarith
  qed
  ultimately show ?thesis using assms(3) by (simp add: to_signed_def)
next
  case False
  have pos: "(0::int) < 256 ^ n" by simp
  have "i mod 256 ^ n = (i + 256 ^ n) mod 256 ^ n" by simp
  also have "\<dots> = i + 256 ^ n"
    by (rule mod_pos_pos_trivial) (use False assms(2) pos in linarith)+
  finally have "i mod 256 ^ n = i + 256 ^ n" .
  moreover have "even ((256::int) ^ n)" using assms(1) by simp
  ultimately show ?thesis using False assms(2) by (auto simp: to_signed_def)
qed

lemma signed_bounds:
  assumes "0 < n" and "0 \<le> v" and "v < 256 ^ n"
  shows "- (256 ^ n div 2) \<le> to_signed n v" and "to_signed n v < 256 ^ n div 2"
    and "to_signed n v mod 256 ^ n = v"
proof -
  have "even ((256::int) ^ n)" using assms(1) by simp
  then have "(256::int) ^ n = 2 * (256 ^ n div 2)" by simp
  then show "- (256 ^ n div 2) \<le> to_signed n v" "to_signed n v < 256 ^ n div 2"
    using assms(2,3) unfolding to_signed_def by (auto split: if_splits)
  show "to_signed n v mod 256 ^ n = v"
    using assms(2,3) by (auto simp: to_signed_def)
qed

definition int_bytes :: "int \<Rightarrow> byte list" where
  "int_bytes i = rev (le_bytes 4 i)"

lemma length_int_bytes [simp]: "length (int_bytes i) = 4"
  by (simp add: int_bytes_def)

lemma unpack_int_bytes: "- (2 ^ 31) \<le> i \<Longrightarrow> i < 2 ^ 31 \<Longrightarrow> unpack_be (int_bytes i) = Inr i"
  using signed_of_bytes [of 4 i]
  by (simp add: unpack_be_def int_bytes_def unpack_native_def le_int_le_bytes)

section \<open>Reading a file\<close>

type_synonym 'a reader = "(byte list, 'a) cmd"

text \<open>\<open>f.read(n)\<close>: fewer bytes at the end of the file, everything for \<open>-1\<close>.\<close>

definition file_read :: "int \<Rightarrow> byte list reader" where
  "file_read n =
     (if n < - 1 then throw ValueError
      else with_state (\<lambda>s.
        let k = if n = - 1 then length s else nat n
        in sq (upd (drop k)) (ret (take k s))))"

definition read_int :: "int reader" where
  "read_int = bnd (file_read 4) (\<lambda>bs. lift (unpack_be bs))"

definition read_block :: "byte list reader" where
  "read_block = bnd read_int file_read"

definition KTEST :: "byte list" where "KTEST = [75, 84, 69, 83, 84]"
definition BOUT :: "byte list" where "BOUT = [66, 79, 85, 84, 10]"

text \<open>The module does not import \<open>sys\<close>, so \<open>sys.exit(1)\<close> is a \<open>NameError\<close>.\<close>

definition parse_ktest :: "(byte list \<times> byte list) list reader" where
  "parse_ktest =
     bnd (file_read 5) (\<lambda>hdr.
     if length hdr \<noteq> 5 \<or> hdr \<noteq> KTEST \<and> hdr \<noteq> BOUT then throw NameError
     else
       bnd read_int (\<lambda>version.
       if version > 3 then throw NameError
       else
         bnd read_int (\<lambda>num_args.
         sq (each (\<lambda>_. bnd read_block (\<lambda>_. ret ())) [0..<nat num_args])
         (sq (onlyif (version \<ge> 2) (bnd read_int (\<lambda>_. bnd read_int (\<lambda>_. ret ()))))
         (bnd read_int (\<lambda>num_objects.
          mapm (\<lambda>_. bnd read_block (\<lambda>name. bnd read_block (\<lambda>bytes. ret (name, bytes))))
            [0..<nat num_objects]))))))"

text \<open>The format, as KLEE writes it.\<close>

definition block :: "byte list \<Rightarrow> byte list" where
  "block bs = int_bytes (int (length bs)) @ bs"

definition ktest_file ::
  "byte list \<Rightarrow> int \<Rightarrow> byte list list \<Rightarrow> int \<times> int \<Rightarrow> (byte list \<times> byte list) list \<Rightarrow> byte list" where
  "ktest_file magic version args symargs objects =
     magic @ int_bytes version @ int_bytes (int (length args)) @ concat (map block args) @
     (if version \<ge> 2 then int_bytes (fst symargs) @ int_bytes (snd symargs) else []) @
     int_bytes (int (length objects)) @
     concat (map (\<lambda>(name, bs). block name @ block bs) objects)"

lemma file_read_run:
  "n = int (length bs) \<Longrightarrow> file_read n (bs @ rest) = (Inr bs, rest)"
  by (simp add: file_read_def cmd_run sq_run)

lemma read_int_run:
  "- (2 ^ 31) \<le> i \<Longrightarrow> i < 2 ^ 31 \<Longrightarrow> read_int (int_bytes i @ rest) = (Inr i, rest)"
  by (simp add: read_int_def bnd_def file_read_run cmd_run unpack_int_bytes)

definition short :: "byte list \<Rightarrow> bool" where
  "short bs \<longleftrightarrow> length bs < 2 ^ 31"

lemma read_block_run: "short bs \<Longrightarrow> read_block (block bs @ rest) = (Inr bs, rest)"
  by (simp add: read_block_def bnd_def block_def read_int_run file_read_run short_def)

lemma skip_blocks:
  "\<forall>a \<in> set args. short a \<Longrightarrow> length args = length ns \<Longrightarrow>
    each (\<lambda>_. bnd read_block (\<lambda>_. ret ())) ns (concat (map block args) @ rest) = (Inr (), rest)"
  by (induction args ns rule: list_induct2') (simp_all add: cmd_run sq_run bnd_def read_block_run)

lemma read_objects:
  "\<forall>(n, b) \<in> set objs. short n \<and> short b \<Longrightarrow> length objs = length ns \<Longrightarrow>
    mapm (\<lambda>_. bnd read_block (\<lambda>name. bnd read_block (\<lambda>bytes. ret (name, bytes)))) ns
      (concat (map (\<lambda>(name, bs). block name @ block bs) objs) @ rest) = (Inr objs, rest)"
  by (induction objs ns rule: list_induct2') (auto simp: cmd_run bnd_def read_block_run)

text \<open>C26: Round trip: what the parser reads from a file in the format of KLEE (either magic, any
  version up to 3, with and without the fields for symbolic arguments) is the list of objects.\<close>

theorem ktest_round_trip:
  assumes "magic = KTEST \<or> magic = BOUT" and "0 \<le> version" and "version \<le> 3"
    and "length args < 2 ^ 31" and "\<forall>a \<in> set args. short a"
    and "\<bar>fst symargs\<bar> < 2 ^ 31" and "\<bar>snd symargs\<bar> < 2 ^ 31"
    and "length objects < 2 ^ 31" and "\<forall>(n, b) \<in> set objects. short n \<and> short b"
  shows "parse_ktest (ktest_file magic version args symargs objects @ rest) = (Inr objects, rest)"
proof -
  have m: "length magic = 5" using assms(1) by (auto simp: KTEST_def BOUT_def)
  have r: "read_int (int_bytes i @ r) = (Inr i, r)" if "\<bar>i\<bar> < 2 ^ 31" for i r
    using that by (intro read_int_run) auto
  show ?thesis
    using assms m unfolding parse_ktest_def ktest_file_def
    by (simp add: bnd_run sq_run file_read_run r cmd_run skip_blocks read_objects)
qed

theorem ktest_round_trip_witness:
  "parse_ktest (ktest_file KTEST 3 [[97]] (0, 0) [([120], [255, 255, 255, 255])] @ [1, 2]) =
    (Inr [([120], [255, 255, 255, 255])], [1, 2])"
  by (rule ktest_round_trip) (simp_all add: short_def)

text \<open>Anything that does not start with one of the two magic words ends in a \<open>NameError\<close>, since
  the module calls \<open>sys.exit\<close> without importing \<open>sys\<close>; the handler of \<open>dump_error\<close>, which is for
  \<open>OSError\<close>, does not stop it.\<close>

lemma ktest_unrecognized:
  assumes "take 5 file \<noteq> KTEST" and "take 5 file \<noteq> BOUT"
  shows "fst (parse_ktest file) = Inl NameError"
  using assms by (simp add: parse_ktest_def file_read_def bnd_def sq_run cmd_run)

lemma ktest_unrecognized_example: "fst (parse_ktest [0, 1]) = Inl NameError"
  by (rule ktest_unrecognized) (simp_all add: KTEST_def BOUT_def)

section \<open>Printing an object\<close>

text \<open>\<open>get_repr\<close>: runs of equal bytes; the empty tuple for no bytes.\<close>

fun repr_loop :: "'a \<Rightarrow> nat \<Rightarrow> 'a list \<Rightarrow> ('a \<times> nat) list" where
  "repr_loop b num [] = [(b, num)]"
| "repr_loop b num (x # xs) =
     (if x \<noteq> b then (b, num) # repr_loop x 1 xs else repr_loop b (num + 1) xs)"

fun get_repr :: "'a list \<Rightarrow> ('a \<times> nat) list" where
  "get_repr [] = []"
| "get_repr (b # bs) = repr_loop b 1 bs"

text \<open>The bytes that runs stand for, and what makes a list of runs canonical.\<close>

definition expand :: "('a \<times> nat) list \<Rightarrow> 'a list" where
  "expand rs = concat (map (\<lambda>(b, n). replicate n b) rs)"

definition maximal_runs :: "('a \<times> nat) list \<Rightarrow> bool" where
  "maximal_runs rs \<longleftrightarrow> (\<forall>(b, n) \<in> set rs. 0 < n) \<and> distinct_adj (map fst rs)"

lemma expand_repr_loop: "expand (repr_loop b n xs) = replicate n b @ xs"
  by (induction b n xs rule: repr_loop.induct)
    (auto simp: expand_def replicate_app_Cons_same)

lemma repr_loop_head: "\<exists>m rs. repr_loop b n xs = (b, m) # rs"
  by (induction b n xs rule: repr_loop.induct) auto

lemma maximal_repr_loop: "0 < n \<Longrightarrow> maximal_runs (repr_loop b n xs)"
proof (induction b n xs rule: repr_loop.induct)
  case (2 b n x xs)
  obtain m rs where "repr_loop x 1 xs = (x, m) # rs" using repr_loop_head by metis
  with 2 show ?case by (auto simp: maximal_runs_def)
qed (simp add: maximal_runs_def)

lemma repr_loop_run: "repr_loop b n (replicate m b @ xs) = repr_loop b (n + m) xs"
  by (induction m arbitrary: n) simp_all

lemma repr_of_runs: "maximal_runs rs \<Longrightarrow> get_repr (expand rs) = rs"
proof (induction rs)
  case (Cons r rs)
  obtain b n where r: "r = (b, Suc n)"
    using Cons.prems by (cases r; cases "snd r") (auto simp: maximal_runs_def)
  have rs: "maximal_runs rs" using Cons.prems by (auto simp: maximal_runs_def distinct_adj_Cons)
  have "repr_loop b (Suc n) (expand rs) = (b, Suc n) # get_repr (expand rs)"
  proof (cases rs)
    case (Cons q qs)
    obtain c m where q: "q = (c, Suc m)"
      using rs Cons by (cases q; cases "snd q") (auto simp: maximal_runs_def)
    moreover have "c \<noteq> b"
      using Cons.prems r Cons q by (auto simp: maximal_runs_def)
    ultimately show ?thesis using Cons by (simp add: expand_def)
  qed (simp add: expand_def)
  moreover have "get_repr (expand (r # rs)) = repr_loop b (Suc n) (expand rs)"
    using repr_loop_run [of b 1 n] by (simp add: expand_def r)
  ultimately show ?case using Cons.IH [OF rs] r by simp
qed (simp add: expand_def)

text \<open>C27: The runs that are printed are the only list of maximal runs that stands for the bytes.\<close>

theorem get_repr_unique:
  "get_repr bs = rs \<longleftrightarrow> expand rs = bs \<and> maximal_runs rs"
proof -
  have "expand (get_repr bs) = bs \<and> maximal_runs (get_repr bs)"
    by (cases bs) (simp_all add: expand_repr_loop maximal_repr_loop, simp_all add: expand_def maximal_runs_def)
  then show ?thesis using repr_of_runs by blast
qed

text \<open>\<open>hex\<close> of a byte\<close>

definition hex_byte :: "byte \<Rightarrow> string" where
  "hex_byte b = ''0x'' @
     (if unat b < 16 then [hex_digit (unat b)]
      else [hex_digit (unat b div 16), hex_digit (unat b mod 16)])"

text \<open>\<open>get_nice_repr\<close>: the value, for the widths that have one, and its text\<close>

definition nice_value :: "byte list \<Rightarrow> int option" where
  "nice_value bs =
     (if length bs \<in> {1, 2, 4, 8}
      then (case unpack_native (length bs) bs of Inr v \<Rightarrow> Some v | Inl e \<Rightarrow> None) else None)"

definition get_nice_repr :: "byte list \<Rightarrow> string" where
  "get_nice_repr bs =
     (case nice_value bs of
        None \<Rightarrow> []
      | Some v \<Rightarrow> ''i'' @ str_nat (8 * length bs) @ '': '' @ str_int v)"

text \<open>C28: The value printed for an object of 1, 2, 4 or 8 bytes fits into as many bytes in two's
  complement, and its little endian encoding gives back the bytes; other sizes have no value.\<close>

theorem nice_value_bounds:
  "case nice_value bs of
     None \<Rightarrow> length bs \<notin> {1, 2, 4, 8}
   | Some v \<Rightarrow> - (2 ^ (8 * length bs - 1)) \<le> v \<and> v < 2 ^ (8 * length bs - 1) \<and>
       le_bytes (length bs) v = bs"
proof (cases "length bs \<in> {1, 2, 4, 8}")
  case True
  then have n: "0 < length bs" and p: "(256::int) ^ length bs div 2 = 2 ^ (8 * length bs - 1)" by auto
  let ?v = "to_signed (length bs) (le_int bs)"
  note b = signed_bounds [OF n le_int_bounds(1) le_int_bounds(2)]
  have "le_bytes (length bs) ?v = le_bytes (length bs) (le_int bs)"
    by (rule le_bytes_mod) (simp add: b(3) le_int_bounds)
  then have "le_bytes (length bs) ?v = bs" by (simp add: le_bytes_le_int)
  with True b(1,2) show ?thesis by (simp add: nice_value_def unpack_native_def p)
qed (simp add: nice_value_def)

definition char_of_byte :: "byte \<Rightarrow> char" where
  "char_of_byte b = char_of (unat b)"

definition decode_name :: "byte list \<Rightarrow> exn + string" where
  "decode_name bs = (if \<forall>b \<in> set bs. b < 128 then Inr (map char_of_byte bs) else Inl ValueError)"

text \<open>The text of a run, and \<open>rep\<close> of \<open>print_object\<close>. Without bytes there is no run that would
  add the closing bracket.\<close>

definition run_text :: "byte \<times> nat \<Rightarrow> string" where
  "run_text r =
     (case r of (b, n) \<Rightarrow> (if n > 1 then str_nat n @ '' times '' else []) @ hex_byte b)"

definition object_text :: "byte list \<Rightarrow> string" where
  "object_text bs =
     ''len '' @ str_nat (length bs) @ '' bytes, ['' @
     (if get_repr bs = [] then ''|'' else join ''|'' (map run_text (get_repr bs)) @ '']'') @
     (if get_nice_repr bs = [] then [] else '' ('' @ get_nice_repr bs @ '')'')"

type_synonym 'a printing = "(string list, 'a) cmd"

definition print_line :: "string \<Rightarrow> unit printing" where
  "print_line l = upd (\<lambda>ls. ls @ [l])"

definition print_object :: "byte list \<times> byte list \<Rightarrow> unit printing" where
  "print_object obj =
     (case obj of (name, bs) \<Rightarrow>
       bnd (lift (decode_name name)) (\<lambda>n. print_line (n @ '' := '' @ object_text bs)))"

text \<open>\<open>is_zero\<close> looks at the bytes from index 1 on.\<close>

definition is_zero :: "byte list \<Rightarrow> exn + bool" where
  "is_zero bs = (if bs = [] then Inl AssertionError else Inr (list_all (\<lambda>b. b = 0) (tl bs)))"

text \<open>\<open>_dumpObjects\<close>: more than 100 objects are printed without those that count as zero; \<open>n\<close>
  counts the printed ones.\<close>

fun print_nonzero :: "(byte list \<times> byte list) list \<Rightarrow> nat \<Rightarrow> nat printing" where
  "print_nonzero [] n = ret n"
| "print_nonzero (obj # objs) n =
     bnd (lift (is_zero (snd obj))) (\<lambda>z.
     if z then print_nonzero objs n else sq (print_object obj) (print_nonzero objs (n + 1)))"

definition dump_objects :: "(byte list \<times> byte list) list \<Rightarrow> unit printing" where
  "dump_objects objs =
     (if length objs > 100 then
        bnd (print_nonzero objs 0) (\<lambda>n.
        sq (print_line [])
          (print_line (''And the rest of objects ('' @ str_nat (length objs - n) @ '' objects) are 0'')))
      else each print_object objs)"

definition object_line :: "byte list \<times> byte list \<Rightarrow> string" where
  "object_line obj = map char_of_byte (fst obj) @ '' := '' @ object_text (snd obj)"

lemma print_object_run:
  "\<forall>b \<in> set (fst obj). b < 128 \<Longrightarrow> print_object obj ls = (Inr (), ls @ [object_line obj])"
  by (cases obj) (simp add: print_object_def decode_name_def object_line_def print_line_def bnd_def cmd_run)

definition shown :: "(byte list \<times> byte list) list \<Rightarrow> (byte list \<times> byte list) list" where
  "shown objs =
     (if length objs > 100 then filter (\<lambda>obj. \<exists>b \<in> set (tl (snd obj)). b \<noteq> 0) objs else objs)"

lemma print_nonzero_run:
  assumes "\<forall>obj \<in> set objs. (\<forall>b \<in> set (fst obj). b < 128) \<and> snd obj \<noteq> []"
  shows "print_nonzero objs n ls =
    (let sh = filter (\<lambda>obj. \<exists>b \<in> set (tl (snd obj)). b \<noteq> 0) objs in
     (Inr (n + length sh), ls @ map object_line sh))"
  using assms
proof (induction objs arbitrary: n ls)
  case (Cons obj objs)
  have z: "is_zero (snd obj) = Inr (\<not> (\<exists>b \<in> set (tl (snd obj)). b \<noteq> 0))"
    using Cons.prems by (auto simp: is_zero_def list_all_iff)
  show ?case
    using Cons.prems print_object_run [of obj ls]
    by (auto simp: z bnd_run cmd_run sq_run Cons.IH Let_def)
qed (simp add: ret_def)

lemma print_all_run:
  "\<forall>obj \<in> set objs. \<forall>b \<in> set (fst obj). b < 128 \<Longrightarrow>
    each print_object objs ls = (Inr (), ls @ map object_line objs)"
  by (induction objs arbitrary: ls) (simp_all add: cmd_run sq_run print_object_run)

text \<open>What a dump prints, for objects with bytes and names in ASCII: up to 100 objects are all
  printed; of more, those with a nonzero byte after the first one, in order, and the number of
  the others, which are said to be 0. The first byte does not count: a nonzero object of one
  byte is among them.\<close>

lemma dump_objects_prints:
  assumes "\<forall>obj \<in> set objs. (\<forall>b \<in> set (fst obj). b < 128) \<and> snd obj \<noteq> []"
  shows "dump_objects objs [] = (Inr (), map object_line (shown objs) @
    (if length objs > 100
     then [[], ''And the rest of objects ('' @ str_nat (length objs - length (shown objs)) @
       '' objects) are 0''] else []))"
  using assms
  by (simp add: dump_objects_def shown_def print_nonzero_run print_all_run print_line_def bnd_run
      cmd_run sq_run Let_def)

lemma dump_objects_prints_example:
  "dump_objects (replicate 101 ([120], [1])) [] =
    (Inr (), [[], ''And the rest of objects (101 objects) are 0''])"
proof -
  have n: "str_nat 101 = ''101''" by code_simp
  have "filter P (replicate 101 x) = []" if "\<not> P x" for P and x :: "byte list \<times> byte list"
    using that by (simp add: filter_empty_conv)
  then have "shown (replicate 101 ([120], [1])) = []" by (simp add: shown_def)
  with n show ?thesis
    using dump_objects_prints [of "replicate 101 ([120], [1])"] by simp
qed

section \<open>Error traces\<close>

text \<open>The file system: the lines of a text file (or the exception that reading it raises), the
  bytes of a file, the entries of a directory.\<close>

record dump_files =
  f_text :: "string \<Rightarrow> exn + string list"
  f_bytes :: "string \<Rightarrow> byte list option"
  f_listdir :: "string \<Rightarrow> string list"
  f_abspath :: "string \<Rightarrow> string"

text \<open>\<open>pth[:pth.find('.')+1]+'ktest'\<close>: the first dot of the whole path counts.\<close>

definition ktest_of_error :: "string \<Rightarrow> string" where
  "ktest_of_error pth = slice_to pth (py_find pth ''.'' + 1) @ ''ktest''"

definition print_lines_of :: "string list \<Rightarrow> unit printing" where
  "print_lines_of ls = each print_line ls"

definition dump_ktest :: "dump_files \<Rightarrow> string \<Rightarrow> unit printing" where
  "dump_ktest F pth =
     bnd (lift (of_opt OSError (f_bytes F pth))) (\<lambda>file.
     bnd (lift (fst (parse_ktest file))) dump_objects)"

definition dump_error :: "dump_files \<Rightarrow> string \<Rightarrow> unit printing" where
  "dump_error F pth =
     onlyif (f_bytes F pth \<noteq> None)
       (handle
         (bnd (lift (f_text F pth)) (\<lambda>lines.
          steps
            [print_lines_of [[], '' --- Error trace ---'', []],
             print_lines_of lines,
             print_lines_of
               [[], '' --- Sequence of non-deterministic values [function:file:line:col] ---'', []],
             dump_ktest F (ktest_of_error pth),
             print_lines_of [[], '' --- ----------- ---'']]))
         (\<lambda>e. case e of OSError \<Rightarrow> ret () | _ \<Rightarrow> throw e))"

definition dump_errors :: "dump_files \<Rightarrow> string \<Rightarrow> unit printing" where
  "dump_errors F bindir =
     (let abd = f_abspath F bindir
      in each (\<lambda>item. onlyif (endswith item ''.err'') (dump_error F (f_abspath F (path_join abd item))))
           (f_listdir F abd))"

text \<open>The test that is dumped for an error file is the one next to it, provided that the path of
  its directory has no dot; otherwise the path is cut at that dot.\<close>

lemma ktest_of_error_beside:
  assumes "CHR ''.'' \<notin> set d" and "CHR ''.'' \<notin> set test"
  shows "ktest_of_error (d @ ''/'' @ test @ ''.'' @ kind @ ''.err'') = d @ ''/'' @ test @ ''.ktest''"
proof -
  let ?p = "d @ ''/'' @ test"
  have "hd ''.'' \<notin> set ?p" using assms by simp
  from find_pos_fresh [OF _ this] have "find_pos ''.'' (?p @ ''.'' @ kind @ ''.err'') = Some (length ?p)"
    by simp
  then have "py_find (?p @ ''.'' @ kind @ ''.err'') ''.'' + 1 = int (length (?p @ ''.''))"
    by (simp add: py_find_def)
  moreover have "slice_to (a @ b) (int (length a)) = a" for a b :: string
    by (simp add: slice_to_def slice_bound_def)
  ultimately have "slice_to ((?p @ ''.'') @ kind @ ''.err'') (py_find (?p @ ''.'' @ kind @ ''.err'') ''.'' + 1) = ?p @ ''.''"
    by (metis append_assoc)
  then show ?thesis by (simp add: ktest_of_error_def)
qed

lemma ktest_of_error_example:
  "ktest_of_error (''/tmp/x'' @ ''/'' @ ''test000001'' @ ''.'' @ ''ptr'' @ ''.err'') =
    ''/tmp/x'' @ ''/'' @ ''test000001'' @ ''.ktest''"
  by (rule ktest_of_error_beside) simp_all

end
