(* ===== verification/Environ.thy ===== *)
theory Environ
  imports Phases
begin

text \<open>
  The environment the tools run in (\<open>environment.py\<close>, \<open>includepaths.py\<close>), the search for
  libraries and executables and the working directory (\<open>runtime.py\<close>), and the check of the
  versions (\<open>integritycheck.py\<close>). \<open>os.environ\<close> is a map; it and the settings that are computed
  here are part of the state, next to the global state of the processes.
\<close>

section \<open>Environment variables\<close>

record setup_state = sys +
  v_environ :: "string \<rightharpoonup> string"
  v_opts :: options
  v_devel :: bool
  v_instr_files :: string
  v_cwd :: "string option"

type_synonym 'a setup_step = "(setup_state, 'a) cmd"

record setup_env =
  u_world :: world
  u_dir :: string
  u_isdir :: "string \<Rightarrow> bool"
  u_getcwd :: string

text \<open>\<open>Environment.prepend\<close>, \<open>append\<close>, \<open>reset\<close>\<close>

definition prepended :: "string \<Rightarrow> string \<Rightarrow> (string \<rightharpoonup> string) \<Rightarrow> (string \<rightharpoonup> string)" where
  "prepended env what vars =
     vars(env \<mapsto> (case vars env of Some old \<Rightarrow> what @ '':'' @ old | None \<Rightarrow> what))"

definition appended :: "string \<Rightarrow> string \<Rightarrow> (string \<rightharpoonup> string) \<Rightarrow> (string \<rightharpoonup> string)" where
  "appended env what vars =
     vars(env \<mapsto> (case vars env of Some old \<Rightarrow> old @ '':'' @ what | None \<Rightarrow> what))"

definition prepend :: "string \<Rightarrow> string \<Rightarrow> unit setup_step" where
  "prepend env what = upd (v_environ_update (prepended env what))"

definition append_env :: "string \<Rightarrow> string \<Rightarrow> unit setup_step" where
  "append_env env what = upd (v_environ_update (appended env what))"

definition reset :: "string \<Rightarrow> string \<Rightarrow> unit setup_step" where
  "reset what to = upd (v_environ_update (\<lambda>vars. vars(what \<mapsto> to)))"

section \<open>Include paths\<close>

text \<open>\<open>_get_include_paths\<close>: the lines between the two markers; without the first there are none.\<close>

definition INCLUDE_START :: string where
  "INCLUDE_START = ''#include <...> search starts here:'' @ [CHR 0x0A]"

definition INCLUDE_END :: string where "INCLUDE_END = ''End of search list.''"

fun include_lines :: "string list \<Rightarrow> exn + string list" where
  "include_lines [] = Inr []"
| "include_lines (line # ls) =
     bindE (decode_ascii line) (\<lambda>text.
     if strip text = INCLUDE_END then Inr []
     else bindE (include_lines ls) (\<lambda>paths. Inr (strip text # paths)))"

definition get_include_paths :: "setup_env \<Rightarrow> string list \<Rightarrow> string list setup_step" where
  "get_include_paths U cmd =
     handle
       (bnd (run_process (u_world U) cmd (new_watch PlainWatch None)) (\<lambda>(status, w).
        if status = Some 0
        then lift (include_lines (drop 1 (dropWhile (\<lambda>l. l \<noteq> INCLUDE_START) (get_lines w))))
        else ret []))
       (\<lambda>e. case e of SymbioticException _ \<Rightarrow> ret [] | _ \<Rightarrow> throw e)"

definition include_paths :: "setup_env \<Rightarrow> string list setup_step" where
  "include_paths U =
     bnd (get_include_paths U [''clang'', ''-E'', ''-xc'', ''-v'', ''/dev/null'']) (\<lambda>paths.
     if paths = [] then get_include_paths U [''cpp'', ''-xc'', ''-v'', ''/dev/null''] else ret paths)"

section \<open>The version of clang\<close>

text \<open>The match of \<open>\d+\.\d+\.\d+\<close> at the start of a text, and the first one in it\<close>

definition version_at :: "string \<Rightarrow> string option" where
  "version_at s =
     (let a = takeWhile is_digit s; s1 = dropWhile is_digit s;
          b = takeWhile is_digit (tl s1); s2 = dropWhile is_digit (tl s1);
          c = takeWhile is_digit (tl s2)
      in if a \<noteq> [] \<and> b \<noteq> [] \<and> c \<noteq> [] \<and> prefix ''.'' s1 \<and> prefix ''.'' s2
         then Some (a @ ''.'' @ b @ ''.'' @ c) else None)"

fun search_version :: "string \<Rightarrow> string option" where
  "search_version [] = None"
| "search_version (c # cs) =
     (case version_at (c # cs) of Some v \<Rightarrow> Some v | None \<Rightarrow> search_version cs)"

text \<open>\<open>_vers_are_same\<close>: major and minor number; a missing minor number is an \<open>IndexError\<close>, but only
  when the major numbers agree.\<close>

definition vers_are_same :: "string \<Rightarrow> string \<Rightarrow> exn + bool" where
  "vers_are_same v1 v2 =
     (let p1 = split_on (CHR ''.'') v1; p2 = split_on (CHR ''.'') v2
      in if p1 ! 0 \<noteq> p2 ! 0 then Inr False
         else if length p1 < 2 \<or> length p2 < 2 then Inl IndexError
         else Inr (p1 ! 1 = p2 ! 1))"

definition check_clang_in_path :: "setup_env \<Rightarrow> string \<Rightarrow> bool setup_step" where
  "check_clang_in_path U llvm_version =
     bnd (process_grep (u_world U) [''clang'', ''-v''] ''clang version'') (\<lambda>(status, lines).
     if status \<noteq> Some 0 \<or> length lines \<noteq> 1 then ret False
     else
       bnd (lift (decode (lines ! 0))) (\<lambda>text.
       case search_version text of
         None \<Rightarrow> lift (err ''Could not determine the clang version'')
       | Some v \<Rightarrow> lift (vers_are_same v llvm_version)))"

section \<open>Setting the environment\<close>

definition set_paths :: "setup_env \<Rightarrow> string \<Rightarrow> string \<Rightarrow> unit setup_step" where
  "set_paths U llvm_version llvm_prefix =
     with_state (\<lambda>s. let d = u_dir U; v = llvm_version in
       if v_devel s then
         steps
           [prepend ''PATH'' (d @ ''/scripts''),
            prepend ''PATH'' (d @ ''/llvm-'' @ v @ ''/build/bin''),
            prepend ''PATH'' (d @ ''/dg/build-'' @ v @ ''/tools''),
            prepend ''PATH'' (d @ ''/sbt-slicer/build-'' @ v @ ''/src''),
            prepend ''PATH'' (d @ ''/sbt-instrumentation/build-'' @ v @ ''/src''),
            prepend ''PATH'' (d @ ''/sbt-instrumentation/analyses''),
            prepend ''PATH'' (d @ ''/llvm2c/build-'' @ v @ ''/''),
            prepend ''PATH'' (d @ ''/predator-'' @ v @ ''/sl_build/''),
            prepend ''LD_LIBRARY_PATH'' (llvm_prefix @ ''/build/lib''),
            prepend ''LD_LIBRARY_PATH'' (d @ ''/transforms/build-'' @ v @ ''/''),
            prepend ''LD_LIBRARY_PATH'' (d @ ''/dg/build-'' @ v @ ''/lib''),
            prepend ''LD_LIBRARY_PATH'' (d @ ''/sbt-instrumentation/build-'' @ v @ ''/analyses''),
            prepend ''LD_LIBRARY_PATH'' (d @ ''/predator-'' @ v @ ''/sl_build/''),
            prepend ''LD_LIBRARY_PATH'' (d @ ''/predator-'' @ v @ ''/passes-src/passes_build/''),
            upd (v_instr_files_update (\<lambda>_. d @ ''/sbt-instrumentation/instrumentations/''))]
       else
         steps
           [prepend ''PATH'' (d @ ''/bin''),
            prepend ''PATH'' (d @ ''/llvm-'' @ v @ ''/bin''),
            prepend ''LD_LIBRARY_PATH'' (d @ ''/lib''),
            prepend ''LD_LIBRARY_PATH'' (llvm_prefix @ ''/lib''),
            prepend ''LD_LIBRARY_PATH'' (llvm_prefix @ ''/predator/lib''),
            upd (v_instr_files_update (\<lambda>_. llvm_prefix @ ''/share/sbt-instrumentation/''))])"

text \<open>The directory with LLVM: the own build, the system's LLVM, or the one in \<open>install\<close>.\<close>

definition find_llvm :: "setup_env \<Rightarrow> string \<Rightarrow> string setup_step" where
  "find_llvm U llvm_version =
     (let llvm_prefix = u_dir U @ ''/llvm-'' @ llvm_version;
          installed = u_dir U @ ''/install/llvm-'' @ llvm_version
      in if u_isdir U llvm_prefix then ret llvm_prefix
         else
           bnd (check_clang_in_path U llvm_version) (\<lambda>ok.
           if ok then ret llvm_prefix
           else
             sq (prepend ''PATH'' (installed @ ''/bin''))
             (bnd (check_clang_in_path U llvm_version) (\<lambda>ok.
              if ok then ret installed else lift (err ''Could not find a suitable LLVM binaries'')))))"

text \<open>\<open>_set_symbiotic_environ\<close>; \<open>tool_environment\<close> is the method \<open>set_environment\<close> of the tool, if it
  has one.\<close>

definition set_symbiotic_environ ::
  "setup_env \<Rightarrow> string \<Rightarrow> unit setup_step option \<Rightarrow> unit setup_step" where
  "set_symbiotic_environ U llvm_version tool_environment =
     sq (upd (\<lambda>s. s\<lparr>v_cwd := Some (u_getcwd U)\<rparr>))
     (with_state (\<lambda>s.
       let searching = search_include_paths (v_opts s) in
       sq (onlyif searching
             (bnd (include_paths U) (\<lambda>paths. each (prepend ''C_INCLUDE_DIR'') paths)))
       (sq (with_state (\<lambda>s.
             upd (\<lambda>s'. s'\<lparr>v_devel := isfile (u_world U) (s_log s) (u_dir U @ ''/build.sh'')\<rparr>)))
       (bnd (find_llvm U llvm_version) (\<lambda>llvm_prefix.
        steps
          [prepend ''C_INCLUDE_DIR'' (u_dir U @ ''/include''),
           set_paths U llvm_version llvm_prefix,
           onlyif searching
             (bnd (include_paths U) (\<lambda>paths. each (append_env ''C_INCLUDE_DIR'') paths)),
           case tool_environment of None \<Rightarrow> ret () | Some m \<Rightarrow> m])))))"

text \<open>\<open>_parse_environ_vars\<close>\<close>

definition flags_of :: "string option \<Rightarrow> string list" where
  "flags_of v = (case v of None \<Rightarrow> [] | Some fs \<Rightarrow> split_on (CHR '' '') fs)"

definition include_flags :: "string option \<Rightarrow> string list" where
  "include_flags v =
     (case v of None \<Rightarrow> []
      | Some ps \<Rightarrow> map (\<lambda>p. ''-I'' @ p) (filter (\<lambda>p. p \<noteq> []) (split_on (CHR '':'') ps)))"

definition parse_environ_vars :: "unit setup_step" where
  "parse_environ_vars =
     with_state (\<lambda>s.
       upd (v_opts_update (\<lambda>os. os
         \<lparr>CPPFLAGS := CPPFLAGS os @ include_flags (v_environ s ''C_INCLUDE_DIR'') @
              flags_of (v_environ s ''CPPFLAGS''),
          CFLAGS := CFLAGS os @ flags_of (v_environ s ''CFLAGS'')\<rparr>)))"

text \<open>\<open>Environment.set\<close>\<close>

definition set_environ ::
  "setup_env \<Rightarrow> string \<Rightarrow> unit setup_step option \<Rightarrow> unit setup_step" where
  "set_environ U llvm_version tool_environment =
     sq (set_symbiotic_environ U llvm_version tool_environment) parse_environ_vars"

section \<open>The tools' own environment\<close>

definition runtime_prefix :: "string \<Rightarrow> setup_state \<Rightarrow> string" where
  "runtime_prefix d s = (if v_devel s then d @ ''/install'' else d)"

text \<open>\<open>set_environment\<close> of \<open>kleebase.py\<close>, \<open>witchklee.py\<close>, \<open>slowbeast.py\<close> (its last definition, which
  replaces the first one) and \<open>svcomp.py\<close>.\<close>

definition klee_environment :: "setup_env \<Rightarrow> string \<Rightarrow> unit setup_step" where
  "klee_environment U v =
     with_state (\<lambda>s.
       sq (onlyif (v_devel s) (prepend ''PATH'' (u_dir U @ ''/klee/build-'' @ v @ ''/bin'')))
          (prepend ''KLEE_RUNTIME_LIBRARY_PATH'' (runtime_prefix (u_dir U) s @ ''/llvm-'' @ v @
             (if is32bit (v_opts s) then ''/lib32'' else ''/lib'') @ ''/klee/runtime'')))"

definition witch_environment :: "setup_env \<Rightarrow> string \<Rightarrow> unit setup_step" where
  "witch_environment U v =
     with_state (\<lambda>s.
       sq (if v_devel s then prepend ''PATH'' (u_dir U @ ''/witch-klee/build-'' @ v @ ''/bin'')
           else sq (prepend ''PATH'' (u_dir U @ ''/llvm-'' @ v @ ''/witch-klee/bin''))
                   (prepend ''LD_LIBRARY_PATH'' (u_dir U @ ''/llvm-'' @ v @ ''/witch-klee/lib'')))
          (prepend ''KLEE_RUNTIME_LIBRARY_PATH'' (runtime_prefix (u_dir U) s @ ''/llvm-'' @ v @
             ''/witch-klee'' @ (if is32bit (v_opts s) then ''/lib32'' else ''/lib'') @ ''/klee/runtime'')))"

definition slowbeast_environment :: "setup_env \<Rightarrow> unit setup_step" where
  "slowbeast_environment U = prepend ''PATH'' (u_dir U @ ''/slowbeast'')"

definition svcomp_environment :: "setup_env \<Rightarrow> string \<Rightarrow> unit setup_step" where
  "svcomp_environment U v = sq (klee_environment U v) (slowbeast_environment U)"

section \<open>What setting the environment keeps\<close>

text \<open>An invariant of the programs that are run, and one of all steps that set the environment.\<close>

locale process_invariant =
  fixes I :: "setup_state \<Rightarrow> bool"
  assumes process: "keeps I (run_process W cmd w)"
begin

lemma keeps_include_paths: "keeps I (include_paths U)"
  unfolding include_paths_def get_include_paths_def
  by (intro inv_intros process) (auto intro: inv_intros process split: exn.split)

lemma keeps_check_clang: "keeps I (check_clang_in_path U v)"
  unfolding check_clang_in_path_def process_grep_def
  by (intro inv_intros process) (auto intro!: inv_intros process split: option.split prod.split)?

end

locale setup_invariant = process_invariant +
  assumes env: "keeps I (prepend k x)" "keeps I (append_env k x)"
    and flags: "I s \<Longrightarrow> I (s\<lparr>v_opts := (v_opts s)\<lparr>CPPFLAGS := fs, CFLAGS := gs\<rparr>\<rparr>)"
    and places: "I s \<Longrightarrow> I (s\<lparr>v_devel := b\<rparr>)" "I s \<Longrightarrow> I (s\<lparr>v_instr_files := f\<rparr>)" "I s \<Longrightarrow> I (s\<lparr>v_cwd := d\<rparr>)"
begin

lemma flags_upd: "I s \<Longrightarrow> I (v_opts_update (\<lambda>os. os\<lparr>CPPFLAGS := fs os, CFLAGS := gs os\<rparr>) s)"
  using flags [where s = s and fs = "fs (v_opts s)" and gs = "gs (v_opts s)"] by (cases s) simp

lemma places_upd: "I s \<Longrightarrow> I (v_devel_update (\<lambda>_. b) s)" "I s \<Longrightarrow> I (v_instr_files_update (\<lambda>_. f) s)"
  using places by simp_all

lemma keeps_set_environ:
  assumes "case m of None \<Rightarrow> True | Some m \<Rightarrow> keeps I m"
  shows "keeps I (set_environ U v m)"
proof -
  have "keeps I parse_environ_vars"
    unfolding parse_environ_vars_def by (intro keeps_with_state keeps_upd flags_upd)
  moreover have "keeps I (find_llvm U v)"
    unfolding find_llvm_def Let_def by (intro inv_intros env keeps_check_clang)
  moreover have "keeps I (set_paths U v p)" for p
    unfolding set_paths_def Let_def by (intro inv_intros) (auto intro!: inv_intros env places_upd)
  moreover have "keeps I (case m of None \<Rightarrow> ret () | Some m \<Rightarrow> m)"
    using assms by (auto intro: inv_intros split: option.split)
  ultimately show ?thesis
    unfolding set_environ_def set_symbiotic_environ_def Let_def
    by (intro inv_intros env keeps_include_paths places) (auto intro!: inv_intros env keeps_include_paths)
qed

lemma keeps_tools:
  "keeps I (klee_environment U v)" "keeps I (witch_environment U v)"
  "keeps I (slowbeast_environment U)" "keeps I (svcomp_environment U v)"
  unfolding svcomp_environment_def klee_environment_def witch_environment_def slowbeast_environment_def
  by (auto intro!: inv_intros env)

end

section \<open>Nothing of the user's environment is lost\<close>

text \<open>Every variable that was set still has its components, next to each other and in order.\<close>

definition env_extends :: "(string \<rightharpoonup> string) \<Rightarrow> (string \<rightharpoonup> string) \<Rightarrow> bool" where
  "env_extends vars0 vars \<longleftrightarrow>
     (\<forall>k old. vars0 k = Some old \<longrightarrow>
        (\<exists>new. vars k = Some new \<and> sublist (split_on (CHR '':'') old) (split_on (CHR '':'') new)))"

lemma split_on_join2: "split_on c (xs @ c # ys) = split_on c xs @ split_on c ys"
proof (induction xs)
  case (Cons x xs)
  then show ?case by (cases "split_on c xs") auto
qed simp

lemma env_extends_refl: "env_extends vars vars"
  by (simp add: env_extends_def)

lemma env_extends_trans: "env_extends a b \<Longrightarrow> env_extends b c \<Longrightarrow> env_extends a c"
  unfolding env_extends_def by (meson sublist_order.order_trans)

lemma extends_prepended: "env_extends vars (prepended env what vars)"
  unfolding env_extends_def prepended_def
  by (auto simp: split_on_join2 intro: sublist_append_leftI split: option.split)

lemma extends_appended: "env_extends vars (appended env what vars)"
  unfolding env_extends_def appended_def
  by (auto simp: split_on_join2 intro: sublist_append_rightI split: option.split)

lemmas extends_more = extends_prepended [THEN env_extends_trans [rotated]]
  extends_appended [THEN env_extends_trans [rotated]]

text \<open>Steps that only extend the environment.\<close>

abbreviation kept_env :: "(string \<rightharpoonup> string) \<Rightarrow> 'a setup_step \<Rightarrow> bool" where
  "kept_env v0 m \<equiv> keeps (\<lambda>s. env_extends v0 (v_environ s)) m"

lemma extends_env [inv_intros]:
  "kept_env v0 (prepend env what)"
  "kept_env v0 (append_env env what)"
  unfolding prepend_def append_env_def
  by (auto intro!: keeps_upd extends_more)

lemma extends_process [inv_intros]: "kept_env v0 (run_process W cmd w)"
proof (rule keepsI)
  fix s assume "env_extends v0 (v_environ s)"
  then show "env_extends v0 (v_environ (snd (run_process W cmd w s)))"
    by (cases rule: run_process_cases [of s W cmd w]) auto
qed

interpretation env_kept: setup_invariant "\<lambda>s. env_extends v0 (v_environ s)" for v0
  by unfold_locales (auto intro: inv_intros)

text \<open>C29: Setting the environment, with the tools' own settings, never loses a directory the user had
  in a variable: its components stay next to each other and in their order, also when the
  set-up ends with an exception.\<close>

theorem environment_is_extended:
  assumes "m \<in> {klee_environment U v, witch_environment U v, slowbeast_environment U,
    svcomp_environment U v}"
  shows "env_extends (v_environ s) (v_environ (snd (set_environ U v (Some m) s)))"
proof -
  have "kept_env (v_environ s) (set_environ U v (Some m))"
    using assms env_kept.keeps_tools by (intro env_kept.keeps_set_environ) auto
  from keepsD [OF this] show ?thesis by (simp add: env_extends_refl)
qed

theorem environment_is_extended_witness:
  "env_extends [''PATH'' \<mapsto> ''/bin:/usr/bin''] (v_environ (snd (set_environ
     \<lparr>u_world = e_world quiet_env, u_dir = ''/opt'', u_isdir = (\<lambda>d. True), u_getcwd = ''/''\<rparr> ''10.0.1''
     (Some (slowbeast_environment
       \<lparr>u_world = e_world quiet_env, u_dir = ''/opt'', u_isdir = (\<lambda>d. True), u_getcwd = ''/''\<rparr>))
     \<lparr>s_running = False, s_alive = False, s_timer = False, s_log = [], v_environ = [''PATH'' \<mapsto> ''/bin:/usr/bin''],
       v_opts = plain_options, v_devel = False, v_instr_files = [], v_cwd = None\<rparr>)))"
  using environment_is_extended [where v = "''10.0.1''" and m = "slowbeast_environment
       \<lparr>u_world = e_world quiet_env, u_dir = ''/opt'', u_isdir = (\<lambda>d. True), u_getcwd = ''/''\<rparr>"
     and U = "\<lparr>u_world = e_world quiet_env, u_dir = ''/opt'', u_isdir = (\<lambda>d. True), u_getcwd = ''/''\<rparr>" and s = "\<lparr>s_running = False, s_alive = False, s_timer = False, s_log = [], v_environ = [''PATH'' \<mapsto> ''/bin:/usr/bin''],
       v_opts = plain_options, v_devel = False, v_instr_files = [], v_cwd = None\<rparr>"]
  by simp

text \<open>The flags of the environment: the include directories become options, in order and without the
  empty ones. A variable that is set to the empty string adds one empty argument.\<close>

lemma flags_from_environment:
  "parse_environ_vars s = (Inr (), s\<lparr>v_opts := (v_opts s)
     \<lparr>CPPFLAGS := CPPFLAGS (v_opts s) @ include_flags (v_environ s ''C_INCLUDE_DIR'') @
        flags_of (v_environ s ''CPPFLAGS''),
      CFLAGS := CFLAGS (v_opts s) @ flags_of (v_environ s ''CFLAGS'')\<rparr>\<rparr>)"
  "flags_of (Some []) = [[]]"
  by (simp_all add: parse_environ_vars_def with_state_def upd_def flags_of_def)

section \<open>Checking the versions\<close>

definition version_output :: "world \<Rightarrow> string list \<Rightarrow> ('a sys_scheme, string list) cmd" where
  "version_output W cmd =
     bnd (run_process W cmd (new_watch PlainWatch (Some 1))) (\<lambda>(status, w).
     sq (assertc (status = Some 0 \<and> length (get_lines w) = 1)) (ret (get_lines w)))"

definition klee_version :: "world \<Rightarrow> ('a sys_scheme, string) cmd" where
  "klee_version W =
     bnd (process_grep W [''klee'', ''-version''] ''revision'') (\<lambda>(status, lines).
     sq (assertc (status = Some 0))
     (sq (assertc (length lines = 1))
     (bnd (lift (of_opt IndexError (py_nth (split_on (CHR '':'') (lines ! 0)) 1))) (\<lambda>v.
      ret (strip_bytes v)))))"

definition short_version :: "world \<Rightarrow> string list \<Rightarrow> ('a sys_scheme, string) cmd" where
  "short_version W cmd =
     bnd (version_output W cmd) (\<lambda>lines. ret (take 8 (strip_bytes (lines ! 0))))"

definition check_version :: "string \<Rightarrow> string \<Rightarrow> string \<Rightarrow> ('a sys_scheme, unit) cmd" where
  "check_version component expected actual =
     (if expected \<noteq> actual
      then throw (SymbioticException (''The version of '' @ quoted component @
        '' is different than expected (expect '' @ expected @ '' but got '' @ actual @ '')''))
      else ret ())"

text \<open>The component, the version it should have, and the command that asks for it\<close>

definition version_check :: "world \<Rightarrow> string \<Rightarrow> string \<times> string \<Rightarrow>
    (string \<times> ('a sys_scheme, string) cmd) option" where
  "version_check W verifier kv =
     (case kv of (k, v) \<Rightarrow>
       if k = ''KLEE'' then (if startswith verifier ''klee'' then Some (v, klee_version W) else None)
       else if k = ''sbt-slicer'' then Some (take 8 v, short_version W [''sbt-slicer'', ''-version''])
       else if k = ''sbt-instrumentation'' then Some (take 8 v, short_version W [''sbt-instr'', ''--version''])
       else None)"

definition integrity_check ::
  "world \<Rightarrow> (string \<times> string) list \<Rightarrow> string \<Rightarrow> ('a sys_scheme, unit) cmd" where
  "integrity_check W versions verifier =
     each (\<lambda>kv. case version_check W verifier kv of
         None \<Rightarrow> ret ()
       | Some (expected, query) \<Rightarrow> bnd query (\<lambda>actual. check_version (fst kv) expected actual)) versions"

text \<open>What a component has to be asked, and which output agrees with the recorded version: KLEE prints one
  line about its revision, whose second field is the whole version; of the other two the first eight
  characters of the last line count. KLEE is asked only when it is used.\<close>

definition version_query :: "string \<Rightarrow> string \<times> string \<Rightarrow> (string list \<times> (string list \<Rightarrow> bool)) option" where
  "version_query verifier kv =
     (case kv of (k, v) \<Rightarrow>
        if k = ''KLEE'' \<and> startswith verifier ''klee'' then
          Some ([''klee'', ''-version''], \<lambda>out. \<exists>line name revision more.
            filter (is_in ''revision'') out = [line] \<and>
            split_on (CHR '':'') line = name # revision # more \<and> strip_bytes revision = v)
        else if k = ''sbt-slicer'' then
          Some ([''sbt-slicer'', ''-version''], \<lambda>out. out \<noteq> [] \<and> take 8 (strip_bytes (last out)) = take 8 v)
        else if k = ''sbt-instrumentation'' then
          Some ([''sbt-instr'', ''--version''], \<lambda>out. out \<noteq> [] \<and> take 8 (strip_bytes (last out)) = take 8 v)
        else None)"

fun version_queries :: "string \<Rightarrow> (string \<times> string) list \<Rightarrow> string list list" where
  "version_queries verifier [] = []"
| "version_queries verifier (kv # kvs) =
     (case version_query verifier kv of None \<Rightarrow> [] | Some (cmd, agrees) \<Rightarrow> [cmd]) @ version_queries verifier kvs"

text \<open>The lines a program printed, up to the end of the file.\<close>

definition printed :: "string list \<Rightarrow> string list" where
  "printed lines = takeWhile (\<lambda>l. l \<noteq> []) lines"

lemma feed_plain_all:
  "feed lines w = Inr (w', stopped) \<Longrightarrow> w_class w = PlainWatch \<Longrightarrow> w_ok w \<Longrightarrow>
    \<not> stopped \<and> w_class w' = PlainWatch \<and> w_maxlines w' = w_maxlines w \<and>
    w_buff w' = w_buff (fold buff_append (printed lines) w)"
proof (induction lines arbitrary: w)
  case (Cons l ls)
  show ?case
  proof (cases "l = []")
    case False
    with Cons.prems have "feed ls (buff_append l w) = Inr (w', stopped)"
      by (simp add: put_line_def watch_parse_def)
    from Cons.IH [OF this] Cons.prems False show ?thesis by (simp add: printed_def)
  qed (use Cons.prems in \<open>auto simp: printed_def\<close>)
qed (simp add: printed_def)

lemma feed_grep:
  "feed lines w = Inr (w', stopped) \<Longrightarrow> w_class w = GrepWatch pattern \<Longrightarrow> w_ok w \<Longrightarrow>
    \<not> stopped \<and> w_class w' = GrepWatch pattern \<and>
    w_result w' = w_result w @ filter (is_in pattern) (printed lines)"
proof (induction lines arbitrary: w)
  case (Cons l ls)
  have keep: "w_result (buff_append l w) = w_result w" by (simp add: buff_append_def)
  show ?case
  proof (cases "l = []")
    case False
    let ?w = "buff_append l w"
    let ?w1 = "if is_in pattern l then ?w\<lparr>w_result := w_result w @ [l]\<rparr> else ?w"
    from Cons.prems False keep have "feed ls ?w1 = Inr (w', stopped)"
      by (auto simp: put_line_def watch_parse_def bindE_eq_Inr decode_def split: if_splits)
    from Cons.IH [OF this] Cons.prems keep False show ?thesis
      by (auto simp: printed_def)
  qed (use Cons.prems in \<open>auto simp: printed_def\<close>)
qed (simp add: printed_def)

lemma run_process_answer:
  assumes "run_process W cmd w s = (Inr (Some 0, w'), s')" and "w_ok w"
  shows "s_log s' = s_log s @ [cmd] \<and> (\<exists>out. exec W (s_log s) cmd = Some (out, 0) \<and>
    (w_class w = PlainWatch \<longrightarrow> w_class w' = PlainWatch \<and> w_maxlines w' = w_maxlines w \<and>
       w_buff w' = w_buff (fold buff_append (printed out) w)) \<and>
    (\<forall>p. w_class w = GrepWatch p \<longrightarrow> w_class w' = GrepWatch p \<and>
       w_result w' = w_result w @ filter (is_in p) (printed out)))"
proof (cases rule: run_process_cases [of s W cmd w])
  case (ran lines status w1 stopped)
  have "w_signal W (s_log s) cmd = None" if "\<not> stopped" using ran(4) that by blast
  with ran assms(1) have "\<not> stopped" "status = 0" "w1 = w'" "feed lines w = Inr (w', False)"
    "s_log s' = s_log s @ [cmd]"
    by (auto simp: read_lines_def split: if_splits)
  then show ?thesis using ran(2) feed_plain_all [of lines w w' False] feed_grep [of lines w w' False] assms(2)
    by auto
qed (use assms(1) in simp_all)

lemma assertc_Inr: "assertc b s = (Inr u, s') \<longleftrightarrow> b \<and> s' = s"
  by (auto simp: assertc_def throw_def ret_def)

lemma short_version_answer:
  assumes "short_version W cmd s = (Inr v, s')"
  shows "s_log s' = s_log s @ [cmd] \<and> (\<exists>out. exec W (s_log s) cmd = Some (out, 0) \<and>
    printed out \<noteq> [] \<and> v = take 8 (strip_bytes (last (printed out))))"
proof -
  let ?w = "new_watch PlainWatch (Some 1)"
  from assms obtain w' where r: "run_process W cmd ?w s = (Inr (Some 0, w'), s')"
    and l: "length (get_lines w') = 1" "v = take 8 (strip_bytes (get_lines w' ! 0))"
    by (auto simp: short_version_def version_output_def bnd_def sq_run ret_def assertc_Inr split: prod.splits sum.splits if_splits)
  from run_process_answer [OF r] obtain out where "s_log s' = s_log s @ [cmd]"
    and out: "exec W (s_log s) cmd = Some (out, 0)"
      "w_class w' = PlainWatch" "w_maxlines w' = Some 1" "w_buff w' = w_buff (fold buff_append (printed out) ?w)"
    by (auto simp: new_watch_def)
  moreover have "buffered (fold buff_append (printed out) ?w) = last_n (Some 1) (printed out)"
    using watch_buffer.items_fold [of ?w "printed out"]
    by (simp add: buffered_def new_watch_def is_buffering_def last_n_def)
  moreover have "is_buffering (fold buff_append (printed out) ?w)"
    using watch_buffer.limit_fold [of "printed out" ?w] by (simp add: is_buffering_def new_watch_def)
  ultimately have lines: "get_lines w' = drop (length (printed out) - 1) (printed out)"
    by (simp add: get_lines_def is_buffering_def buffered_def last_n_def)
  then have some: "printed out \<noteq> []" using l(1) by (cases "printed out") simp_all
  then have "get_lines w' ! 0 = last (printed out)" unfolding lines by (simp add: last_conv_nth)
  with some \<open>s_log s' = _\<close> out(1) l(2) show ?thesis by simp
qed

lemma klee_version_answer:
  assumes "klee_version W s = (Inr v, s')"
  shows "s_log s' = s_log s @ [[''klee'', ''-version'']] \<and>
    (\<exists>out. exec W (s_log s) [''klee'', ''-version''] = Some (out, 0) \<and>
      (\<exists>line name revision more. filter (is_in ''revision'') (printed out) = [line] \<and>
        split_on (CHR '':'') line = name # revision # more \<and> strip_bytes revision = v))"
proof -
  let ?w = "new_watch (GrepWatch ''revision'') (Some 0)"
  from assms obtain w' where r: "run_process W [''klee'', ''-version''] ?w s = (Inr (Some 0, w'), s')"
    and l: "length (get_lines w') = 1"
    and v: "\<exists>x. py_nth (split_on (CHR '':'') (get_lines w' ! 0)) 1 = Some x \<and> v = strip_bytes x"
    by (auto simp: klee_version_def process_grep_def bnd_def sq_run ret_def lift_def assertc_Inr of_opt_def
        split: prod.splits sum.splits if_splits option.splits)
  from run_process_answer [OF r] obtain out where "s_log s' = s_log s @ [[''klee'', ''-version'']]"
    and out: "exec W (s_log s) [''klee'', ''-version''] = Some (out, 0)"
      "w_class w' = GrepWatch ''revision''" "w_result w' = filter (is_in ''revision'') (printed out)"
    by (auto simp: new_watch_def)
  moreover from l out obtain line where line: "filter (is_in ''revision'') (printed out) = [line]"
    by (auto simp: get_lines_def length_Suc_conv)
  moreover from v out line obtain x where "py_nth (split_on (CHR '':'') line) 1 = Some x" "v = strip_bytes x"
    by (auto simp: get_lines_def)
  moreover then obtain name more where "split_on (CHR '':'') line = name # x # more"
    by (cases "split_on (CHR '':'') line" rule: remdups_adj.cases) (auto simp: py_nth_def py_pos_def)
  ultimately show ?thesis by blast
qed

lemma version_check_answer:
  assumes "version_check W verifier kv = Some (expected, query)" and "query s = (Inr expected, s')"
  shows "\<exists>cmd agrees out. version_query verifier kv = Some (cmd, agrees) \<and> s_log s' = s_log s @ [cmd] \<and>
    exec W (s_log s) cmd = Some (out, 0) \<and> agrees (printed out)"
  using assms
  by (cases kv) (fastforce simp: version_check_def version_query_def split: if_splits
      dest: short_version_answer klee_version_answer)

lemma version_check_None: "version_check W verifier kv = None \<Longrightarrow> version_query verifier kv = None"
  by (cases kv) (auto simp: version_check_def version_query_def split: if_splits)

text \<open>C30: If the check of the versions passes, the programs it ran are exactly the version queries of the
  components it is responsible for (KLEE when it is used, sbt-slicer and sbt-instrumentation), in the order
  of the table of versions, and each of them, asked at that point of the run, succeeded and printed the
  version that was recorded at build time: KLEE the whole of it, in its only line about a revision, the other
  two its first eight characters, in their last line.\<close>

theorem integrity_check_sound:
  fixes s s' :: "'a sys_scheme"
  assumes "integrity_check W versions verifier s = (Inr (), s')"
  shows "s_log s' = s_log s @ version_queries verifier versions \<and>
    (\<forall>pre kv post cmd agrees. versions = pre @ kv # post \<and> version_query verifier kv = Some (cmd, agrees) \<longrightarrow>
      (\<exists>out. exec W (s_log s @ version_queries verifier pre) cmd = Some (out, 0) \<and> agrees (printed out)))"
  using assms
proof (induction versions arbitrary: s)
  case Nil
  then show ?case by (simp add: integrity_check_def ret_def)
next
  case (Cons x xs)
  from Cons.prems obtain s1 where first: "(case version_check W verifier x of None \<Rightarrow> ret ()
      | Some (expected, query) \<Rightarrow> bnd query (\<lambda>actual. check_version (fst x) expected actual)) s = (Inr (), s1)"
    and rest: "integrity_check W xs verifier s1 = (Inr (), s')"
    by (auto simp: integrity_check_def sq_run split: prod.splits sum.splits)
  note ih = Cons.IH [OF rest]
  have x: "s_log s1 = s_log s @ version_queries verifier [x] \<and>
    (\<forall>cmd agrees. version_query verifier x = Some (cmd, agrees) \<longrightarrow>
      (\<exists>out. exec W (s_log s) cmd = Some (out, 0) \<and> agrees (printed out)))"
  proof (cases "version_check W verifier x :: (string \<times> ('a sys_scheme, string) cmd) option")
    case None
    with first version_check_None [OF None] show ?thesis by (simp add: ret_def)
  next
    case (Some eq)
    obtain expected and query :: "('a sys_scheme, string) cmd" where eq: "eq = (expected, query)" by (cases eq)
    with first Some have "query s = (Inr expected, s1)"
      by (auto simp: bnd_def check_version_def throw_def ret_def split: prod.splits sum.splits if_splits)
    from version_check_answer [OF Some [unfolded eq] this] show ?thesis by auto
  qed
  show ?case
  proof (intro conjI allI impI)
    show "s_log s' = s_log s @ version_queries verifier (x # xs)" using ih x by simp
  next
    fix pre kv post cmd agrees
    assume a: "x # xs = pre @ kv # post \<and> version_query verifier kv = Some (cmd, agrees)"
    show "\<exists>out. exec W (s_log s @ version_queries verifier pre) cmd = Some (out, 0) \<and> agrees (printed out)"
    proof (cases pre)
      case Nil
      with a x show ?thesis by auto
    next
      case (Cons y ys)
      with a have "xs = ys @ kv # post" "y = x" by auto
      with ih a have "\<exists>out. exec W (s_log s1 @ version_queries verifier ys) cmd = Some (out, 0) \<and> agrees (printed out)"
        by blast
      with x Cons \<open>y = x\<close> show ?thesis by simp
    qed
  qed
qed

theorem integrity_check_sound_witness:
  "\<exists>out. (if [''sbt-slicer'', ''-version''] = [''sbt-slicer'', ''-version''] then Some ([''0123456789''], 0 :: int) else None) =
      Some (out, 0) \<and> printed out \<noteq> [] \<and> take 8 (strip_bytes (last (printed out))) = ''01234567''"
proof -
  let ?W = "\<lparr>exec = (\<lambda>log cmd. if cmd = [''sbt-slicer'', ''-version''] then Some ([''0123456789''], 0) else None),
    isfile = (\<lambda>log f. True), abspath = id, w_signal = (\<lambda>log cmd. None)\<rparr>"
  let ?s = "\<lparr>s_running = False, s_alive = False, s_timer = False, s_log = []\<rparr>"
  have "strip_bytes ''0123456789'' = ''0123456789''" "decodable ''0123456789''" by code_simp+
  then have c: "integrity_check ?W [(''sbt-slicer'', ''0123456789''), (''dg'', ''1'')] ''witch'' ?s =
      (Inr (), ?s\<lparr>s_log := [[''sbt-slicer'', ''-version'']]\<rparr>)"
    by (simp add: integrity_check_def version_check_def short_version_def version_output_def
        run_process_def process_ended_def check_version_def cmd_run sq_run bnd_def new_watch_def get_lines_def
        put_line_def watch_parse_def buff_append_def is_buffering_def last_n_def)
  have q: "version_query ''witch'' (''sbt-slicer'', ''0123456789'') =
      Some ([''sbt-slicer'', ''-version''], \<lambda>out. out \<noteq> [] \<and> take 8 (strip_bytes (last out)) = take 8 ''0123456789'')"
    by (simp add: version_query_def)
  have "[(''sbt-slicer'', ''0123456789''), (''dg'', ''1'')] = [] @ (''sbt-slicer'', ''0123456789'') # [(''dg'', ''1'')]"
    by simp
  from integrity_check_sound [OF c, THEN conjunct2, rule_format, OF conjI [OF this q]]
  have "\<exists>out. exec ?W [] [''sbt-slicer'', ''-version''] = Some (out, 0) \<and>
      printed out \<noteq> [] \<and> take 8 (strip_bytes (last (printed out))) = take 8 ''0123456789''" by simp
  then show ?thesis by simp
qed

section \<open>Libraries and executables\<close>

text \<open>\<open>_find_library\<close>; \<open>os.environ[...]\<close> is a \<open>KeyError\<close> when the variable is not set.\<close>

definition find_library :: "(string \<Rightarrow> bool) \<Rightarrow> (string \<rightharpoonup> string) \<Rightarrow> string \<Rightarrow> exn + string option" where
  "find_library is_file vars lib =
     bindE (of_opt KeyError (vars ''LD_LIBRARY_PATH'')) (\<lambda>path.
     Inr (find is_file (map (\<lambda>d. path_join d lib) (split_on (CHR '':'') path))))"

definition LIBRARIES :: "string list" where
  "LIBRARIES = [''LLVMsbt.so'', ''libCheckNSWPlugin.so'', ''libdgPointsToPlugin.so'',
     ''libPredatorPlugin.so'', ''libdgllvmdg.so'', ''libdgllvmpta.so'', ''libdgllvmdda.so'',
     ''libdgpta.so'', ''libdgdda.so'', ''libdgllvmcda.so'']"

fun libraries_check :: "(string \<Rightarrow> bool) \<Rightarrow> (string \<rightharpoonup> string) \<Rightarrow> string list \<Rightarrow> exn + unit" where
  "libraries_check is_file vars [] = Inr ()"
| "libraries_check is_file vars (lib # libs) =
     bindE (find_library is_file vars lib) (\<lambda>found.
     if found = None \<or> found = Some [] then err (''Cannot find library '' @ quoted lib)
     else libraries_check is_file vars libs)"

definition BINARIES :: "string list" where
  "BINARIES = [''clang'', ''opt'', ''llvm-link'', ''llvm-nm'', ''sbt-instr'']"

text \<open>The copy of \<open>find_executable\<close> in \<open>benchexec/util.py\<close>: the first executable file of that name
  in the directories of \<open>PATH\<close> and the current directory, the fallback, or the exit of the script.\<close>

definition find_executable ::
  "(string \<Rightarrow> bool) \<Rightarrow> (string \<rightharpoonup> string) \<Rightarrow> string \<Rightarrow> string option \<Rightarrow> exn + string" where
  "find_executable is_executable vars program fallback =
     bindE (of_opt KeyError (vars ''PATH'')) (\<lambda>path.
     case find is_executable (map (\<lambda>d. path_join d program) (split_on (CHR '':'') path @ [''.''])) of
       Some name \<Rightarrow> Inr name
     | None \<Rightarrow>
         (case fallback of
            Some f \<Rightarrow> if is_executable f then Inr f else err (''ERROR: Could not find '' @ quoted program @ '' executable'')
          | None \<Rightarrow> err (''ERROR: Could not find '' @ quoted program @ '' executable'')))"


fun binaries_check :: "(string \<Rightarrow> bool) \<Rightarrow> (string \<Rightarrow> exn + string) \<Rightarrow> string list \<Rightarrow> exn + unit" where
  "binaries_check is_file search [] = Inr ()"
| "binaries_check is_file search (exe # exes) =
     bindE (search exe) (\<lambda>path.
     if \<not> is_file path
     then err (''Cannot find executable '' @ quoted exe @ '' ('' @ quoted path @ '')'')
     else binaries_check is_file search exes)"

text \<open>\<open>_check_components\<close>: an exception of the check of versions ends the script.\<close>

definition check_components ::
  "setup_env \<Rightarrow> (string \<Rightarrow> exn + string) \<Rightarrow> (string \<times> string) list \<Rightarrow> string list \<Rightarrow> unit setup_step" where
  "check_components U search versions additional =
     with_state (\<lambda>s. let is_file = isfile (u_world U) (s_log s) in
       sq (lift (binaries_check is_file search (BINARIES @ additional)))
       (sq (lift (libraries_check is_file (v_environ s) LIBRARIES))
       (onlyif (\<not> no_integrity_check (v_opts s))
         (handle (integrity_check (u_world U) versions (tool_name (v_opts s)))
            (\<lambda>e. case e of
               SymbioticException m \<Rightarrow> lift (err (m @ [CHR 0x0A] @ ''If you are aware of this, you may use --no-integrity-check to suppress this error''))
             | _ \<Rightarrow> throw e)))))"

lemma libraries_check_iff:
  "libraries_check is_file vars libs = Inr () \<longleftrightarrow>
    (libs = [] \<or> (\<exists>path. vars ''LD_LIBRARY_PATH'' = Some path \<and>
      (\<forall>lib \<in> set libs. \<exists>p. find is_file (map (\<lambda>d. path_join d lib) (split_on (CHR '':'') path)) = Some p \<and> p \<noteq> [])))"
  by (induction libs)
    (auto simp: find_library_def of_opt_def err_def split: option.splits)

text \<open>After the checks of \<open>_check_components\<close>, all libraries of Symbiotic are files in directories
  of \<open>LD_LIBRARY_PATH\<close> and all executables are files.\<close>

lemma components_are_there:
  assumes "check_components U search versions additional s = (Inr (), s')"
    and "lib \<in> set LIBRARIES" and "exe \<in> set (BINARIES @ additional)"
  shows "(\<exists>path d. v_environ s ''LD_LIBRARY_PATH'' = Some path \<and> d \<in> set (split_on (CHR '':'') path) \<and>
      isfile (u_world U) (s_log s) (path_join d lib)) \<and>
    (\<exists>p. search exe = Inr p \<and> isfile (u_world U) (s_log s) p)"
proof -
  let ?f = "isfile (u_world U) (s_log s)"
  from assms(1) have b: "binaries_check ?f search (BINARIES @ additional) = Inr ()"
    and l: "libraries_check ?f (v_environ s) LIBRARIES = Inr ()"
    by (auto simp: check_components_def with_state_def Let_def sq_run lift_def split: sum.splits)
  have found: "find P xs = Some x \<Longrightarrow> P x \<and> x \<in> set xs" for P xs and x :: string
    by (induction xs) (auto split: if_splits)
  from l assms(2) obtain path p where "v_environ s ''LD_LIBRARY_PATH'' = Some path"
    and "find ?f (map (\<lambda>d. path_join d lib) (split_on (CHR '':'') path)) = Some p"
    by (fastforce simp: libraries_check_iff)
  with found have lib: "\<exists>path d. v_environ s ''LD_LIBRARY_PATH'' = Some path \<and>
      d \<in> set (split_on (CHR '':'') path) \<and> ?f (path_join d lib)" by fastforce
  have "\<exists>p. search exe = Inr p \<and> ?f p"
    if "binaries_check ?f search exes = Inr ()" "exe \<in> set exes" for exes
    using that by (induction exes) (auto simp: bindE_eq_Inr err_def split: if_splits)
  with b assms(3) lib show ?thesis by blast
qed

lemma components_are_there_example:
  "\<exists>d. d \<in> set (split_on (CHR '':'') ''/lib'') \<and> isfile (e_world quiet_env) [] (path_join d ''LLVMsbt.so'')"
proof -
  let ?U = "\<lparr>u_world = e_world quiet_env, u_dir = ''/opt'', u_isdir = (\<lambda>d. True), u_getcwd = ''/''\<rparr>"
  let ?s = "\<lparr>s_running = False, s_alive = False, s_timer = False, s_log = [], v_environ = [''LD_LIBRARY_PATH'' \<mapsto> ''/lib''],
    v_opts = plain_options\<lparr>no_integrity_check := True\<rparr>, v_devel = False, v_instr_files = [], v_cwd = None\<rparr>"
  have "check_components ?U Inr [] [] ?s = (Inr (), ?s)"
    by (simp add: check_components_def with_state_def Let_def sq_run lift_def ret_def quiet_env_def
        BINARIES_def LIBRARIES_def find_library_def of_opt_def path_join_def)
  from components_are_there [OF this, of "''LLVMsbt.so''" "''clang''"] show ?thesis
    by (auto simp: LIBRARIES_def BINARIES_def)
qed

end
