(* ===== verification/Targets.thy ===== *)
theory Targets
  imports Driver
begin

text \<open>
  Other verifiers as targets (\<open>targets/\<close>): CBMC with its portfolio of bounds, the SV-COMP wrapper of
  CBMC, ESBMC, 2LS, CPAchecker, Predator, Ultimate Automizer, Nidhugg, DIVINE, SeaHorn, IKOS and
  the target \<open>cc\<close>: command lines, passes, actions and verdicts. A line of output is a \<open>bytes\<close>
  object; \<open>bytes_repr\<close> is its \<open>str\<close>, and \<open>'...' in line\<close> on it is a \<open>TypeError\<close>.
\<close>

section \<open>Shared by several targets\<close>

text \<open>\<open>super().passes_before_verification()\<close>: the base class has no such method.\<close>

definition super_passes :: "string list \<Rightarrow> options \<Rightarrow> py_prop \<Rightarrow> exn + string list" where
  "super_passes extra s p =
     bindE (Inl AttributeError) (\<lambda>passes :: string list. Inr (passes @ extra))"

text \<open>What the constructors and \<open>set_environment\<close> do to the settings.\<close>

definition bounded_settings :: "options \<Rightarrow> options" where
  "bounded_settings os = os\<lparr>explicit_symbolic := True, linkundef := []\<rparr>"

text \<open>The sliced functions stay; overflows have a marker of their own.\<close>

definition criteria_options :: "options \<Rightarrow> py_prop \<Rightarrow> string list \<times> string list" where
  "criteria_options s p =
     (if \<not> full_instrumentation s \<and> signedoverflow p
      then ([''__symbiotic_check_overflow''], [''-criteria-are-next-instr''])
      else case base_slicer_options s p of (sc, opts) \<Rightarrow>
        (sc, opts @ [''--preserved-functions='' @ join '','' sc]))"

definition marker_instrumentation :: "options \<Rightarrow> py_prop \<Rightarrow> instr" where
  "marker_instrumentation s p =
     (if \<not> full_instrumentation s \<and> signedoverflow p
      then some_instr ''int_overflows'' (or_str (overflow_config_file s) ''config-marker.json'')
             ''overflows-marker.c'' False
      else base_instrumentation_options s p)"

definition exits_passes :: "options \<Rightarrow> py_prop \<Rightarrow> string list" where
  "exits_passes s p = (if termination_prp p then [''-find-exits'', ''-use-exit''] else [])"

text \<open>Converting the bitcode to C.\<close>

definition to_c :: "string list \<Rightarrow> action" where
  "to_c extra = ActConvert (\<lambda>f out. [''llvm2c'', f] @ extra @ [''--o'', out]) ''.c''"

text \<open>\<open>only_results\<close>: other answers than these count as unknown.\<close>

definition only_these :: "string list \<Rightarrow> string \<Rightarrow> string" where
  "only_these results status =
     (if results = [] then status
      else
        let low = lower status;
            res = (if startswith low ''false'' then ''false''
                   else if startswith low ''true'' then ''true'' else low)
        in if res \<in> set results then status else RESULT_UNKNOWN)"

section \<open>CBMC\<close>

definition PARSING_FAILED :: string where "PARSING_FAILED = ''PARSING FAILED''"

definition cbmc_line :: "py_prop \<Rightarrow> string \<Rightarrow> string \<Rightarrow> string" where
  "cbmc_line p line status =
     (if is_in ''Unmodelled library functions have been called'' line then RESULT_UNKNOWN
      else if is_in ''__CPROVER_memory_leak'' line \<or> is_in ''allocated memory never freed'' line
      then (if memsafety p then RESULT_FALSE_MEMTRACK else RESULT_FALSE_MEMCLEANUP)
      else if is_in ''double free'' line \<or> is_in ''free called for stack-allocated object'' line \<or>
        is_in ''free argument'' line then RESULT_FALSE_FREE
      else if is_in ''dereference failure'' line \<or> is_in ''bound in'' line \<or>
        is_in ''source region'' line then RESULT_FALSE_DEREF
      else if is_in ''arithmetic overflow on signed'' line then RESULT_FALSE_OVERFLOW
      else if is_in ''VERIFICATION SUCCESSFUL'' line
      then (if status \<noteq> RESULT_ERROR then PARSING_FAILED else RESULT_TRUE_PROP)
      else if is_in ''VERIFICATION FAILED'' line
      then
        let st = (if termination_prp p then RESULT_FALSE_TERMINATION
                  else if unreachcall p then RESULT_FALSE_REACH
                  else if signedoverflow p then RESULT_FALSE_OVERFLOW else status)
        in if \<not> (startswith (lower st) ''false'' \<or> startswith (lower st) ''unkown'')
           then PARSING_FAILED else st
      else status)"

text \<open>The tests for messages about arguments and memory compare a text with \<open>bytes\<close> and never hold.\<close>

definition cbmc_status :: "py_prop \<Rightarrow> int option \<Rightarrow> string list \<Rightarrow> string" where
  "cbmc_status p returncode output =
     (if returncode \<in> {Some 0, Some 10}
      then fold (\<lambda>l. cbmc_line p (bytes_repr (strip_bytes l))) output RESULT_ERROR
      else RESULT_ERROR)"

definition cbmc_cmdline ::
  "options \<Rightarrow> py_prop \<Rightarrow> string \<Rightarrow> string list \<Rightarrow> string list \<Rightarrow> exn + string list" where
  "cbmc_cmdline s p executable opts tasks =
     Inr ([executable] @ opts @
       [''--stop-on-fail'', ''--object-bits'', ''11'', ''--compact-trace'', ''--verbosity'', ''5''] @
       (if is32bit s then [''--32''] else []) @
       (if memsafety p \<or> memcleanup p
        then [''--pointer-check'', ''--memory-leak-check'', ''--bounds-check'', ''--no-assertions'']
        else if signedoverflow p then [''--signed-overflow-check'', ''--no-assertions'']
        else if termination_prp p then [''--no-self-loops-to-assumptions''] else []) @ tasks)"

definition cbmc_actions :: "options \<Rightarrow> py_prop \<Rightarrow> action list" where
  "cbmc_actions s p =
     [ActLinkFrom [''verifier''] [''__VERIFIER_silent_exit'', ''__VERIFIER_exit'',
        ''__INSTR_check_nontermination'', ''__INSTR_fail''] True,
      to_c [''--add-includes'']]"

definition cbmc_tool :: "string \<Rightarrow> string list \<Rightarrow> tool" where
  "cbmc_tool version only_results = (base_tool ''CBMC'' version)
     \<lparr>tl_slicer_options := Some criteria_options,
      tl_instrumentation_options := Some marker_instrumentation,
      tl_passes_before_slicing := Some exits_passes,
      tl_passes_before_verification := Some (\<lambda>s p.
        Inr ((if termination_prp p then [''-instrument-nontermination''] else []) @
             [''-reg2mem'', ''-lowerswitch'', ''-simplifycfg''])),
      tl_actions_before_verification := Some cbmc_actions,
      tl_executable := Lookup ''cbmc'' None, tl_cmdline := cbmc_cmdline,
      tl_determine_result := (\<lambda>s p r out. Inr (only_these only_results (cbmc_status p r out)))\<rparr>"

definition cbmc_bounds :: "int list" where
  "cbmc_bounds = [2, 6, 12, 17, 21, 40, 200, 400, 1025, 2049, 268435456]"

text \<open>For every bound a run whose errors count and, with unwinding assertions, one whose proofs
  count.\<close>

fun cbmc_tries :: "string \<Rightarrow> int list \<Rightarrow> portfolio" where
  "cbmc_tries version [] = Stop"
| "cbmc_tries version (b # bs) =
     Try (cbmc_tool version [''false'']) (Some [''--unwind'', str_int b]) None (\<lambda>_.
     Try (cbmc_tool version [''true'']) (Some [''--unwind'', str_int b, ''--unwinding-assertions'']) None (\<lambda>_.
     cbmc_tries version bs))"

definition cbmc_target :: "string \<Rightarrow> target" where
  "cbmc_target version = tool.extend (cbmc_tool version [])
     \<lparr>tg_verifiers = (\<lambda>s p. cbmc_tries version cbmc_bounds), tg_learns = False\<rparr>"

section \<open>The wrapper of CBMC for SV-COMP\<close>

definition false_table :: "string list \<Rightarrow> (string \<times> string) list" where
  "false_table names = map (\<lambda>n. (''FALSE('' @ n @ '')'', ''false('' @ n @ '')'')) names"

definition cbmc_svcomp_status :: "int option \<Rightarrow> string list \<Rightarrow> string" where
  "cbmc_svcomp_status returncode output =
     (if returncode \<in> {Some 0, Some 10} \<and> output \<noteq> []
      then
        let res = strip_bytes (last output)
        in if res = ''TRUE'' \<or> res = ''VERIFICATION SUCCESSFUL'' then RESULT_TRUE_PROP
           else if is_in ''FALSE'' res
           then (case map_of (false_table [''valid-memtrack'', ''valid-deref'', ''valid-free'',
                   ''no-overflow'', ''valid-memcleanup'']) res of
                   Some r \<Rightarrow> r | None \<Rightarrow> RESULT_FALSE_REACH)
           else if ''UNKNOWN'' \<in> set output then RESULT_UNKNOWN
           else RESULT_ERROR
      else RESULT_ERROR)"

definition cbmc_svcomp_tool :: "string \<Rightarrow> tool" where
  "cbmc_svcomp_tool version = (base_tool ''CBMC'' version)
     \<lparr>tl_slicer_options := Some criteria_options,
      tl_instrumentation_options := Some marker_instrumentation,
      tl_passes_before_slicing := Some klee_passes_before_slicing,
      tl_passes_before_verification :=
        Some (super_passes [''-reg2mem'', ''-lowerswitch'', ''-simplifycfg'']),
      tl_actions_before_verification := Some (\<lambda>s p. [to_c []]),
      tl_executable := Lookup ''cbmc'' None,
      tl_cmdline := (\<lambda>s p executable opts tasks.
        Inr ([executable] @ opts @
          (if str_set (p_prpfile p) then [''--propertyfile'', the (p_prpfile p)] else []) @ tasks)),
      tl_determine_result := (\<lambda>s p r out. Inr (cbmc_svcomp_status r out))\<rparr>"

section \<open>ESBMC\<close>

definition esbmc_line :: "string \<Rightarrow> string \<Rightarrow> string" where
  "esbmc_line line status =
     (if is_in ''FALSE_DEREF'' line then RESULT_FALSE_DEREF
      else if is_in ''FALSE_FREE'' line then RESULT_FALSE_FREE
      else if is_in ''FALSE_MEMTRACK'' line then RESULT_FALSE_MEMTRACK
      else if is_in ''FALSE_OVERFLOW'' line then RESULT_FALSE_OVERFLOW
      else if is_in ''FALSE_TERMINATION'' line then RESULT_FALSE_TERMINATION
      else if is_in ''FALSE'' line then RESULT_FALSE_REACH
      else if is_in ''TRUE'' line then RESULT_TRUE_PROP
      else if is_in ''DONE'' line then RESULT_DONE
      else status)"

definition esbmc_status :: "string list \<Rightarrow> string" where
  "esbmc_status output =
     (let lines = map bytes_repr output; status = fold esbmc_line lines RESULT_UNKNOWN
      in if status = RESULT_UNKNOWN \<and> \<not> list_ex (is_in ''Unknown'') lines then ''ERROR'' else status)"

text \<open>The actions of ESBMC, 2LS and (with another conversion) CPAchecker.\<close>

definition exit_functions :: "action" where
  "exit_functions = ActLinkFrom [''verifier''] [''__VERIFIER_silent_exit'', ''__VERIFIER_exit''] False"

definition esbmc_tool :: "string \<Rightarrow> tool" where
  "esbmc_tool version = (base_tool ''ESBMC'' version)
     \<lparr>tl_slicer_options := Some criteria_options,
      tl_instrumentation_options := Some marker_instrumentation,
      tl_passes_before_slicing := Some exits_passes,
      tl_passes_before_verification :=
        Some (super_passes [''-reg2mem'', ''-lowerswitch'', ''-simplifycfg'']),
      tl_actions_before_verification := Some (\<lambda>s p. [exit_functions, to_c [''--add-includes'']]),
      tl_executable := Lookup ''esbmc-wrapper.py'' None,
      tl_cmdline := (\<lambda>s p executable opts tasks.
        bindE (of_opt TypeError (p_prpfile p)) (\<lambda>prp.
        Inr ([executable, ''-p'', prp] @ opts @
          (if ''--arch'' \<in> set opts then [] else [''--arch'', if is32bit s then ''32'' else ''64'']) @ tasks))),
      tl_determine_result := (\<lambda>s p r out. Inr (esbmc_status out))\<rparr>"

section \<open>2LS\<close>

text \<open>\<open>str(output[-1]).strip()\<close> is the text of a \<open>bytes\<close> object, with its quotes.\<close>

definition twols_status :: "int option \<Rightarrow> string list \<Rightarrow> string" where
  "twols_status returncode output =
     (if returncode = Some 0 then RESULT_TRUE_PROP
      else if returncode = Some 10
      then (if output = [] then RESULT_FALSE_REACH
            else (case map_of (false_table [''valid-memtrack'', ''valid-deref'', ''valid-free'',
                     ''no-overflow'', ''termination'', ''valid-memcleanup''])
                     (strip (bytes_repr (last output))) of
                   Some r \<Rightarrow> r | None \<Rightarrow> RESULT_FALSE_REACH))
      else RESULT_UNKNOWN)"

definition twols_tool :: "string \<Rightarrow> tool" where
  "twols_tool version = (base_tool ''2LS'' version)
     \<lparr>tl_slicer_options := Some criteria_options,
      tl_instrumentation_options := Some marker_instrumentation,
      tl_passes_before_slicing := Some exits_passes,
      tl_passes_before_verification :=
        Some (super_passes [''-reg2mem'', ''-lowerswitch'', ''-simplifycfg'']),
      tl_actions_before_verification := Some (\<lambda>s p. [exit_functions, to_c [''--add-includes'']]),
      tl_executable := Lookup ''2ls'' None,
      tl_cmdline := (\<lambda>s p executable opts tasks.
        Inr ([executable] @ opts @
          (if str_set (p_prpfile p) then [''--propertyfile'', the (p_prpfile p)] else []) @
          [if is32bit s then ''--32'' else ''--64''] @ tasks)),
      tl_determine_result := (\<lambda>s p r out. Inr (twols_status r out))\<rparr>"

section \<open>Predator\<close>

definition predator_line :: "string \<Rightarrow> string \<Rightarrow> string" where
  "predator_line line status =
     (if is_in ''UNKNOWN'' line then RESULT_UNKNOWN
      else if is_in ''TRUE'' line then RESULT_TRUE_PROP
      else if is_in ''FALSE(valid-memtrack)'' line then RESULT_FALSE_MEMTRACK
      else if is_in ''FALSE(valid-deref)'' line then RESULT_FALSE_DEREF
      else if is_in ''FALSE(valid-free)'' line then RESULT_FALSE_FREE
      else if is_in ''FALSE(valid-memcleanup)'' line then RESULT_FALSE_MEMCLEANUP
      else if is_in ''FALSE'' line then RESULT_FALSE_REACH
      else status)"

definition predator_status :: "string list \<Rightarrow> exn + string" where
  "predator_status output =
     bindE (mapE decode_ascii output) (\<lambda>lines. Inr (fold predator_line lines ''UNKNOWN''))"

definition predator_tool :: "string \<Rightarrow> tool" where
  "predator_tool version = (base_tool ''predator'' version)
     \<lparr>tl_passes_before_verification :=
        Some (super_passes [''-delete-undefined'', ''-lowerswitch'', ''-simplifycfg'']),
      tl_actions_before_verification := Some (\<lambda>s p. [to_c []]),
      tl_executable := Lookup ''check-property.sh'' (Some ''sl_build/check-property.sh''),
      tl_cmdline := (\<lambda>s p executable opts tasks.
        bindE (of_opt TypeError (p_prpfile p)) (\<lambda>prp.
        Inr ([executable, ''--trace=/dev/null'', ''--propertyfile'', prp, ''--''] @ tasks @
          [if is32bit s then ''-m32'' else ''-m64'']))),
      tl_determine_result := (\<lambda>s p r out. predator_status out)\<rparr>"

section \<open>Ultimate Automizer\<close>

text \<open>The verdict with a property file; the first line that is recognized counts.\<close>

definition ultimate_answers :: "(string \<times> string) list" where
  "ultimate_answers =
     [(''FALSE(valid-free)'', RESULT_FALSE_FREE), (''FALSE(valid-deref)'', RESULT_FALSE_DEREF),
      (''FALSE(valid-memtrack)'', RESULT_FALSE_MEMTRACK),
      (''FALSE(valid-memcleanup)'', RESULT_FALSE_MEMCLEANUP),
      (''FALSE(TERM)'', RESULT_FALSE_TERMINATION), (''FALSE(OVERFLOW)'', RESULT_FALSE_OVERFLOW),
      (''FALSE'', RESULT_FALSE_REACH), (''TRUE'', RESULT_TRUE_PROP), (''UNKNOWN'', RESULT_UNKNOWN),
      (''ERROR: INVALID WITNESS FILE'', RESULT_ERROR @ '' (invalid witness file)''),
      (''ERROR'', RESULT_ERROR)]"

fun ultimate_status :: "string list \<Rightarrow> string" where
  "ultimate_status [] = RESULT_UNKNOWN"
| "ultimate_status (line # ls) =
     (case find (\<lambda>(start, res). startswith line start) ultimate_answers of
        Some (start, res) \<Rightarrow> res | None \<Rightarrow> ultimate_status ls)"

section \<open>Nidhugg\<close>

definition nidhugg_line :: "string \<Rightarrow> string option \<Rightarrow> string option" where
  "nidhugg_line line status =
     (if line = ''No errors were detected.'' then Some RESULT_TRUE_PROP
      else if is_in ''Error: Assertion violation at'' line then Some RESULT_FALSE_REACH
      else status)"

definition nidhugg_status :: "string list \<Rightarrow> int option \<Rightarrow> string list \<Rightarrow> exn + string" where
  "nidhugg_status only_results returncode output =
     bindE (mapE (\<lambda>l. decode (strip_bytes l)) output) (\<lambda>lines.
     Inr (case fold nidhugg_line lines None of
            Some status \<Rightarrow> only_these only_results status
          | None \<Rightarrow>
              if returncode \<noteq> Some 0 then RESULT_ERROR @ ''(returned '' @ str_ret returncode @ '')''
              else RESULT_ERROR))"

definition nidhugg_tool :: "string \<Rightarrow> string list \<Rightarrow> int option \<Rightarrow> tool" where
  "nidhugg_tool version only_results unroll = (base_tool ''nidhugg'' version)
     \<lparr>tl_actions_before_slicing := Some (\<lambda>s p.
        [ActLink (Some [''__VERIFIER_atomic_begin'', ''__VERIFIER_atomic_end''])]),
      tl_actions_after_slicing := Some (\<lambda>s p.
        [ActPasses [''-reg2mem'', ''-sbt-loop-unroll'', ''-sbt-loop-unroll-count'', ''7'',
           ''-sbt-loop-unroll-terminate'', ''-replace-verifier-atomic'']]),
      tl_actions_before_verification := Some (\<lambda>s p.
        case unroll of None \<Rightarrow> [] | Some n \<Rightarrow> if n = 0 then [] else
          [ActConvert (\<lambda>f out. [''nidhugg'', f, ''--unroll'', str_int n, ''--transform'', out])
             (''unrl'' @ str_int n @ ''.bc'')]),
      tl_executable := Lookup ''nidhugg'' None,
      tl_cmdline := (\<lambda>s p executable opts tasks.
        Inr ([executable, ''-sc'', ''-disable-mutex-init-requirement''] @ opts @ tasks)),
      tl_determine_result := (\<lambda>s p r out. nidhugg_status only_results r out)\<rparr>"

section \<open>DIVINE\<close>

record divine_flags =
  dv_error :: bool
  dv_memerr :: bool
  dv_kind :: "string option"
  dv_res :: string

text \<open>One line; \<open>Inl\<close> is an answer that ends the loop.\<close>

definition divine_line :: "string \<Rightarrow> divine_flags \<Rightarrow> string + divine_flags" where
  "divine_line line f0 =
     (let f1 = (if is_in ''error found: yes'' line then f0\<lparr>dv_error := True\<rparr> else f0)
      in if is_in ''error found: boot'' line then Inl RESULT_UNKNOWN
         else if is_in ''error found: no'' line \<and> dv_error f1 then Inl ''parsing error''
         else
           let f2 = (if is_in ''not implemented in userspace'' line
                     then f1\<lparr>dv_res := RESULT_UNKNOWN\<rparr> else f1);
               f3 = (if is_in ''memory error in userspace'' line then f2\<lparr>dv_memerr := True\<rparr> else f2);
               f4 = (if is_in ''__vm_obj_free'' line then f3\<lparr>dv_kind := Some RESULT_FALSE_FREE\<rparr> else f3);
               f5 = (if is_in ''out of bounds'' line then f4\<lparr>dv_kind := Some RESULT_FALSE_DEREF\<rparr> else f4);
               f6 = (if is_in ''memory leak in userspace'' line
                     then f5\<lparr>dv_kind := Some RESULT_FALSE_MEMTRACK\<rparr> else f5)
           in Inr (if is_in ''assertion violation in userspace'' line \<or>
                      is_in ''verifier error called'' line
                   then f6\<lparr>dv_res := RESULT_FALSE_REACH\<rparr> else f6))"

fun divine_lines :: "string list \<Rightarrow> divine_flags \<Rightarrow> string + divine_flags" where
  "divine_lines [] f = Inr f"
| "divine_lines (l # ls) f = (case divine_line l f of Inl r \<Rightarrow> Inl r | Inr f' \<Rightarrow> divine_lines ls f')"

definition divine_status :: "int option \<Rightarrow> string list \<Rightarrow> string" where
  "divine_status returncode output =
     (if output = [] then ''no output''
      else
        case divine_lines (map bytes_repr output)
               \<lparr>dv_error = False, dv_memerr = False, dv_kind = None, dv_res = ''no result''\<rparr> of
          Inl r \<Rightarrow> r
        | Inr f \<Rightarrow>
            if dv_error f then
              (case dv_kind f of Some k \<Rightarrow> if dv_memerr f then k else dv_res f | None \<Rightarrow> dv_res f)
            else if returncode \<noteq> Some 0 then ''returned '' @ str_ret returncode
            else if dv_res f = ''no result'' \<and> \<not> dv_memerr f \<and> dv_kind f = None then RESULT_TRUE_PROP
            else RESULT_UNKNOWN)"

definition divine_cmdline ::
  "options \<Rightarrow> py_prop \<Rightarrow> string \<Rightarrow> string list \<Rightarrow> string list \<Rightarrow> exn + string list" where
  "divine_cmdline s p executable opts tasks =
     Inr ([''divine'', ''check'', ''--lart'', ''stubs'', ''--lart'', ''lowering'', ''--lart'',
           ''svc-trace-nondets'', ''-o'', ''ignore:exit'', ''-o'', ''ignore:control'', ''--svcomp'',
           ''--sequential''] @
       (if unreachcall p then [''-o'', ''ignore:memory'']
        else if memsafety p then [''-o'', ''ignore:diosassert'', ''--leakcheck'', ''exit,state'']
        else []) @ tasks)"

definition divine_tool :: tool where
  "divine_tool = (base_tool ''DIVINE'' ''7.0.1'')
     \<lparr>tl_cc := Some [''clang'', ''--target=x86_64-unknown-none-elf'', ''-fgnu89-inline'', ''-Os''],
      tl_actions_before_slicing := Some (\<lambda>s p.
        [ActLink (Some [''__VERIFIER_atomic_begin'', ''__VERIFIER_atomic_end''])]),
      tl_executable := Lookup ''divine'' None, tl_cmdline := divine_cmdline,
      tl_determine_result := (\<lambda>s p r out. Inr (divine_status r out))\<rparr>"

section \<open>SeaHorn and IKOS\<close>

definition seahorn_status :: "int option \<Rightarrow> string list \<Rightarrow> string" where
  "seahorn_status returncode output =
     (let out = join [CHR 0x0A] (map bytes_repr output)
      in if is_in ''BRUNCH_STAT Result TRUE'' out then RESULT_TRUE_PROP
         else if is_in ''BRUNCH_STAT Result FALSE'' out
         then (if is_in ''BRUNCH_STAT Termination'' out then RESULT_FALSE_TERMINATION
               else RESULT_FALSE_REACH)
         else if is_in ''BRUNCH_STAT Result UNKNOWN'' out then RESULT_UNKNOWN
         else if returncode \<noteq> Some 0 then ''ERROR ('' @ str_ret returncode @ '')''
         else ''FAILURE'')"

definition seahorn_tool :: tool where
  "seahorn_tool = (base_tool ''UNKOWN'' ''10.0.1'')
     \<lparr>tl_compilation_options := Some (\<lambda>s p.
        [''-D__SEAHORN__'', ''-O1'', ''-Xclang'', ''-disable-llvm-optzns'', ''-fgnu89-inline'']),
      tl_actions_before_verification := Some (\<lambda>s p.
        if unreachcall p \<or> assertions p
        then map (\<lambda>f. ActPasses [''-replace-asserts'', ''-replace-asserts-fn='' @ f]) (p_calls p)
        else []),
      tl_executable := Lookup ''sea'' (Some ''bin/sea''),
      tl_cmdline := (\<lambda>s p executable opts tasks.
        if length tasks \<noteq> 1 then Inl AssertionError
        else Inr ([''sea''] @
          (if unreachcall p \<or> assertions p then [''pf''] else if memsafety p then [''smc'']
           else if termination_prp p then [''term''] else []) @
          [''--track=mem'', ''--horn-stats'', if is32bit s then ''-m32'' else ''-m64'', ''--step=large''] @
          opts @ tasks)),
      tl_determine_result := (\<lambda>s p r out. Inr (seahorn_status r out))\<rparr>"

text \<open>The lines of IKOS are \<open>bytes\<close>: the first test raises.\<close>

definition ikos_status :: "string list \<Rightarrow> exn + string" where
  "ikos_status output = (case output of [] \<Rightarrow> Inr RESULT_ERROR | line # ls \<Rightarrow> Inl TypeError)"

definition ikos_tool :: tool where
  "ikos_tool = (base_tool ''ikos'' ''7.0.1'')
     \<lparr>tl_executable := Lookup ''ikos'' None,
      tl_cmdline := (\<lambda>s p executable opts tasks.
        Inr ([executable] @ opts @ [''-d=dbm''] @
          (if assertions p then [''-a=prover'']
           else if memsafety p then [''-a=boa'', ''-a=nullity'', ''-a=dfa'']
           else if signedoverflow p then [''-a=sio''] else []) @ tasks)),
      tl_determine_result := (\<lambda>s p r out. ikos_status out)\<rparr>"

section \<open>The target \<open>cc\<close>\<close>

definition cc_cmdline ::
  "string \<Rightarrow> options \<Rightarrow> py_prop \<Rightarrow> string \<Rightarrow> string list \<Rightarrow> string list \<Rightarrow> exn + string list" where
  "cc_cmdline cwd s p executable opts tasks =
     Inr (if generate_c s
          then [''gen-c'', ''-o'', or_str (final_output s) (path_join cwd ''symbiotic-output.c'')] @
            opts @ tasks
          else
            let output = (case final_output s of Some f \<Rightarrow> f
              | None \<Rightarrow> path_join cwd (if generate_ll s then ''symbiotic-output.ll'' else ''symbiotic-output.bc''))
            in [if generate_ll s then ''llvm-dis'' else ''llvm-link'', ''-o'', output] @ opts @ tasks)"

definition cc_tool :: "string \<Rightarrow> string \<Rightarrow> tool" where
  "cc_tool version cwd = (base_tool ''cc'' version) \<lparr>tl_cmdline := cc_cmdline cwd\<rparr>"

section \<open>CPAchecker\<close>

definition is_word_char :: "char \<Rightarrow> bool" where
  "is_word_char c =
     (let n = of_char c :: nat in is_digit c \<or> 65 \<le> n \<and> n \<le> 90 \<or> 97 \<le> n \<and> n \<le> 122 \<or> n = 95 \<or> n = 45)"

text \<open>The name in \<open>.* Property violation \(([a-zA-Z0-9_-]+)(:.*)?\) found by chosen configuration.*\<close>
  at the last place where the pattern fits.\<close>

definition violation_at :: "string \<Rightarrow> nat \<Rightarrow> string option" where
  "violation_at s i =
     (let start = '' Property violation (''; finish = '') found by chosen configuration'';
          t = drop (i + length start) s; w = takeWhile is_word_char t; r = drop (length w) t
      in if startswith (drop i s) start \<and> w \<noteq> [] \<and>
           (startswith r finish \<or> startswith r '':'' \<and> is_in finish (tl r))
         then Some w else None)"

definition violated :: "string \<Rightarrow> string option" where
  "violated s = foldl (\<lambda>found i. case violation_at s i of None \<Rightarrow> found | Some w \<Rightarrow> Some w) None
     [0..<length s]"

definition out_of_native_memory :: "string \<Rightarrow> bool" where
  "out_of_native_memory line \<longleftrightarrow>
     is_in ''std::bad_alloc'' line \<or> is_in ''Cannot allocate memory'' line \<or>
     is_in ''Native memory allocation (malloc) failed to allocate'' line \<or>
     startswith line ''out of memory''"

definition cpa_error :: "string \<Rightarrow> string" where
  "cpa_error line =
     (if is_in ''Cannot parse witness'' line then RESULT_ERROR @ '' (invalid witness file)''
      else if is_in ''Unsupported'' line
      then (if is_in ''recursion'' line then RESULT_ERROR @ '' (recursion)''
            else if is_in ''threads'' line then RESULT_ERROR @ '' (threads)'' else RESULT_ERROR)
      else if is_in ''Parsing failed'' line then RESULT_ERROR @ '' (parsing failed)''
      else if is_in ''Interpolation failed'' line then RESULT_ERROR @ '' (interpolation failed)''
      else RESULT_ERROR)"

definition cpa_verdict :: "string \<Rightarrow> string" where
  "cpa_verdict text =
     (if is_in ''TRUE'' text then RESULT_TRUE_PROP
      else if is_in ''FALSE'' text
      then (case violated text of None \<Rightarrow> ''false'' | Some w \<Rightarrow> ''false('' @ w @ '')'')
      else RESULT_UNKNOWN)"

text \<open>The loop over the lines, with the status so far; it ends at the verification result.\<close>

fun cpa_lines :: "string list \<Rightarrow> string option \<Rightarrow> string option" where
  "cpa_lines [] status = status"
| "cpa_lines (line # ls) status =
     (if is_in ''java.lang.OutOfMemoryError'' line then cpa_lines ls (Some ''OUT OF JAVA MEMORY'')
      else if out_of_native_memory line then cpa_lines ls (Some ''OUT OF NATIVE MEMORY'')
      else if is_in ''There is insufficient memory for the Java Runtime Environment to continue.'' line \<or>
        is_in ''cannot allocate memory for thread-local data: ABORT'' line
      then cpa_lines ls (Some ''OUT OF MEMORY'')
      else if is_in ''SIGSEGV'' line then cpa_lines ls (Some ''SEGMENTATION FAULT'')
      else if is_in ''java.lang.AssertionError'' line then cpa_lines ls (Some ''ASSERTION'')
      else if (is_in ''Exception:'' line \<or> startswith line ''Exception in thread'') \<and>
        \<not> startswith line ''cbmc'' then cpa_lines ls (Some ''EXCEPTION'')
      else if is_in ''Could not reserve enough space for object heap'' line
      then cpa_lines ls (Some ''JAVA HEAP ERROR'')
      else if startswith line ''Error: '' \<and> status = None then cpa_lines ls (Some (cpa_error line))
      else if startswith line ''Invalid configuration: '' \<and> status = None
      then cpa_lines ls (if is_in ''Cannot parse witness'' line
             then Some (RESULT_ERROR @ '' (invalid witness file)'') else status)
      else if is_in ''Verification result: '' line
      then
        let new = cpa_verdict (strip (drop 21 line))
        in (case status of
              None \<Rightarrow> Some new
            | Some st \<Rightarrow> if new \<noteq> RESULT_UNKNOWN \<and> st \<noteq> new then Some (st @ '' ('' @ new @ '')'')
                         else Some st)
      else if line = ''Finished.'' \<and> status = None then cpa_lines ls (Some RESULT_DONE)
      else cpa_lines ls status)"

definition cpa_status :: "string list \<Rightarrow> string" where
  "cpa_status output =
     (case cpa_lines (map bytes_repr output) None of None \<Rightarrow> RESULT_ERROR | Some st \<Rightarrow> st)"

definition cpa_llvm_backend :: "options \<Rightarrow> bool" where
  "cpa_llvm_backend os \<longleftrightarrow> ''use-llvm-backend'' \<in> set (target_settings os)"

definition cpa_cmdline ::
  "bool \<Rightarrow> options \<Rightarrow> py_prop \<Rightarrow> string \<Rightarrow> string list \<Rightarrow> string list \<Rightarrow> exn + string list" where
  "cpa_cmdline llvm_backend s p executable opts tasks =
     Inr ([executable] @ opts @
       (case p_prpfile p of None \<Rightarrow> [] | Some prp \<Rightarrow> [''-spec'', prp]) @
       (if opts = [] then [''-svcomp21'', ''-heap'', ''10000M'', ''-benchmark'', ''-timelimit'', ''900s'']
        else []) @
       [if is32bit s then ''-32'' else ''-64''] @
       (if llvm_backend then [''-setprop'', ''language=LLVM''] else []) @ tasks)"

definition cpa_slicer_options :: "options \<Rightarrow> py_prop \<Rightarrow> string list \<times> string list" where
  "cpa_slicer_options s p =
     (if \<not> full_instrumentation s \<and> signedoverflow p
      then ([''__symbiotic_check_overflow''], [''-criteria-are-next-instr''])
      else if termination_prp p then ([''__VERIFIER_exit''], [''-cda=ntscd-legacy''])
      else base_slicer_options s p)"

definition cpa_instrumentation_options :: "options \<Rightarrow> py_prop \<Rightarrow> instr" where
  "cpa_instrumentation_options s p =
     (if \<not> full_instrumentation s \<and> signedoverflow p
      then some_instr ''int_overflows'' (or_str (overflow_config_file s) ''config-marker.json'')
             ''overflows-marker.c'' False
      else if termination_prp p then no_instr
      else base_instrumentation_options s p)"

definition cpa_tool :: "string \<Rightarrow> options \<Rightarrow> tool" where
  "cpa_tool version os =
     (let llvm = cpa_llvm_backend os in
      (base_tool ''CPAchecker'' (if llvm then ''3.9.1'' else version))
     \<lparr>tl_slicer_options := Some cpa_slicer_options,
      tl_instrumentation_options := Some cpa_instrumentation_options,
      tl_passes_before_verification :=
        Some (super_passes [''-lowerswitch'', ''-simplifycfg'', ''-reg2mem'', ''-simplifycfg'']),
      tl_actions_before_verification := Some (\<lambda>s p.
        exit_functions # (if llvm then [] else [to_c [''--no-function-call-casts'']])),
      tl_executable := Lookup ''cpa.sh'' (Some ''scripts/cpa.sh''), tl_cmdline := cpa_cmdline llvm,
      tl_determine_result := (\<lambda>s p r out. Inr (cpa_status out))\<rparr>)"

text \<open>The command line depends on the version of Ultimate and is an argument.\<close>

definition uautomizer_tool ::
  "string \<Rightarrow> (options \<Rightarrow> py_prop \<Rightarrow> string \<Rightarrow> string list \<Rightarrow> string list \<Rightarrow> exn + string list) \<Rightarrow> tool" where
  "uautomizer_tool version cmdline = (base_tool ''ULTIMATE Automizer'' version)
     \<lparr>tl_passes_before_verification :=
        Some (super_passes [''-reg2mem'', ''-lowerswitch'', ''-simplifycfg'']),
      tl_actions_before_verification := Some (\<lambda>s p. [to_c []]),
      tl_executable := Lookup ''Ultimate.py'' None, tl_cmdline := cmdline,
      tl_determine_result := (\<lambda>s p r out. Inr (ultimate_status out))\<rparr>"

section \<open>SMACK, DIVINE for the competition, and PredatorHP\<close>

text \<open>The type of the error in \<open>SMACK found an error(:\s+([^\.]+))?\.\<close>, read after its first words:
  \<open>None\<close> when the pattern does not fit, \<open>Some None\<close> when no type is given.\<close>

definition smack_rest :: "string \<Rightarrow> string option option" where
  "smack_rest s =
     (case s of [] \<Rightarrow> None
      | c # cs \<Rightarrow>
          if c = CHR ''.'' then Some None
          else if c = CHR '':'' then
            let spaces = takeWhile is_space cs; rest = dropWhile is_space cs;
                body = takeWhile (\<lambda>x. x \<noteq> CHR ''.'') rest
            in if spaces = [] \<or> body = rest then None
               else if body \<noteq> [] then Some (Some body)
               else if tl spaces \<noteq> [] then Some (Some [last spaces])
               else None
          else None)"

fun smack_search :: "string \<Rightarrow> string option option" where
  "smack_search [] = None"
| "smack_search (c # cs) =
     (if startswith (c # cs) ''SMACK found an error''
      then (case smack_rest (drop 20 (c # cs)) of None \<Rightarrow> smack_search cs | Some r \<Rightarrow> Some r)
      else smack_search cs)"

definition smack_errors :: "(string \<times> string) list" where
  "smack_errors =
     [(''invalid pointer dereference'', RESULT_FALSE_DEREF),
      (''invalid memory deallocation'', RESULT_FALSE_FREE), (''memory leak'', RESULT_FALSE_MEMTRACK),
      (''memory cleanup'', RESULT_FALSE_MEMCLEANUP), (''integer overflow'', RESULT_FALSE_OVERFLOW)]"

definition smack_status :: "string list \<Rightarrow> exn + string" where
  "smack_status output =
     (let splitout = join [CHR 0x0A] output in
      if is_in ''SMACK found no errors'' splitout then Inr RESULT_TRUE_PROP
      else
        bindE (decode splitout) (\<lambda>text.
        Inr (case smack_search text of
               None \<Rightarrow> RESULT_UNKNOWN
             | Some None \<Rightarrow> RESULT_FALSE_REACH
             | Some (Some errtype) \<Rightarrow>
                 (case map_of smack_errors errtype of None \<Rightarrow> RESULT_UNKNOWN | Some r \<Rightarrow> r))))"

definition smack_cmdline ::
  "options \<Rightarrow> py_prop \<Rightarrow> string \<Rightarrow> string list \<Rightarrow> string list \<Rightarrow> exn + string list" where
  "smack_cmdline s p executable opts tasks =
     (if length tasks \<noteq> 1 then Inl AssertionError
      else
        bindE (of_opt AssertionError (p_prpfile p)) (\<lambda>prp.
        Inr ([executable] @ opts @ [''--svcomp-property'', prp] @ tasks @
          (if is32bit s then [''--clang-options=-m32''] else []))))"

definition smack_tool :: tool where
  "smack_tool = (base_tool ''SMACK'' ''10.0.1'')
     \<lparr>tl_executable := Lookup ''smack.sh'' None, tl_cmdline := smack_cmdline,
      tl_determine_result := (\<lambda>s p r out. smack_status out)\<rparr>"

definition divine_results :: "(string \<times> string) list" where
  "divine_results =
     [(''true'', RESULT_TRUE_PROP), (''false'', RESULT_FALSE_REACH), (''false-deref'', RESULT_FALSE_DEREF),
      (''false-free'', RESULT_FALSE_FREE), (''false-memtrack'', RESULT_FALSE_MEMTRACK),
      (''false-term'', RESULT_FALSE_TERMINATION), (''false-deadlock'', ''false(no-deadlock)''),
      (''false-overflow'', RESULT_FALSE_OVERFLOW)]"

definition divine_svcomp_status :: "int option \<Rightarrow> string list \<Rightarrow> exn + string" where
  "divine_svcomp_status returncode output =
     (if output = [] then Inr ''ERROR - no output''
      else
        bindE (decode (last output)) (\<lambda>line.
        Inr (if returncode \<noteq> Some 0 then ''ERROR - '' @ line
             else if is_in ''result:'' line
             then (case map_of divine_results (strip (tl (dropWhile (\<lambda>c. c \<noteq> CHR '':'') line))) of
                     None \<Rightarrow> RESULT_UNKNOWN | Some r \<Rightarrow> r)
             else ''UNKNOWN ERROR'')))"

text \<open>The command is a script beside the program.\<close>

definition divine_svcomp_cmdline ::
  "options \<Rightarrow> py_prop \<Rightarrow> string \<Rightarrow> string list \<Rightarrow> string list \<Rightarrow> exn + string list" where
  "divine_svcomp_cmdline s p executable opts tasks =
     Inr ([path_join (dirname executable) ''divine-svc'', executable, or_str (p_prpfile p) ''-''] @ opts @ tasks)"

definition divine_svcomp_tool :: tool where
  "divine_svcomp_tool = (base_tool ''DIVINE'' ''7.0.1'')
     \<lparr>tl_cc := Some [''clang'', ''--target=x86_64-unknown-none-elf''],
      tl_actions_before_slicing := Some (\<lambda>s p.
        [ActLink (Some [''__VERIFIER_atomic_begin'', ''__VERIFIER_atomic_end''])]),
      tl_executable := Lookup ''divine'' None, tl_cmdline := divine_svcomp_cmdline,
      tl_determine_result := (\<lambda>s p r out. divine_svcomp_status r out)\<rparr>"

definition predatorhp_line :: "string \<Rightarrow> string \<Rightarrow> string" where
  "predatorhp_line line status =
     (if is_in ''UNKNOWN'' line then RESULT_UNKNOWN
      else if is_in ''TRUE'' line then RESULT_TRUE_PROP
      else if is_in ''FALSE(valid-memtrack)'' line then RESULT_FALSE_MEMTRACK
      else if is_in ''FALSE(valid-deref)'' line then RESULT_FALSE_DEREF
      else if is_in ''FALSE(valid-free)'' line then RESULT_FALSE_FREE
      else if is_in ''FALSE(valid-memcleanup)'' line then RESULT_FALSE_MEMCLEANUP
      else if is_in ''FALSE'' line then RESULT_FALSE_REACH
      else status)"

definition predatorhp_status :: "string list \<Rightarrow> exn + string" where
  "predatorhp_status output =
     bindE (mapE decode_ascii output) (\<lambda>lines. Inr (fold predatorhp_line lines ''UNKNOWN''))"

definition predatorhp_tool :: "string \<Rightarrow> tool" where
  "predatorhp_tool version = (base_tool ''PredatorHP'' version)
     \<lparr>tl_passes_before_verification :=
        Some (super_passes [''-lowerswitch'', ''-simplifycfg'', ''-reg2mem'', ''-simplifycfg'']),
      tl_actions_before_verification := Some (\<lambda>s p. [to_c []]),
      tl_executable := Lookup ''predatorHP.py'' None,
      tl_cmdline := (\<lambda>s p executable opts tasks.
        Inr ([executable] @ opts @
          (case p_prpfile p of None \<Rightarrow> [] | Some prp \<Rightarrow> [''--propertyfile'', prp]) @ tasks @
          [if is32bit s then ''--compiler-options=-m32'' else ''--compiler-options=-m64''])),
      tl_determine_result := (\<lambda>s p r out. predatorhp_status out)\<rparr>"

section \<open>Tools that only BenchExec knows\<close>

text \<open>Ceagle, Skink and Map2Check: their command lines and verdicts, for lines that are \<open>bytes\<close>
  objects.\<close>

definition ceagle_cmdline :: "py_prop \<Rightarrow> string \<Rightarrow> string list \<Rightarrow> string list \<Rightarrow> string list" where
  "ceagle_cmdline p executable opts tasks =
     [executable] @ opts @
     (case p_prpfile p of None \<Rightarrow> [] | Some prp \<Rightarrow> [''--property-file='' @ prp]) @ tasks"

definition ceagle_status :: "string list \<Rightarrow> string" where
  "ceagle_status output =
     (let stroutput = ''['' @ join '', '' (map bytes_repr output) @ '']'' in
      if is_in ''TRUE'' stroutput then RESULT_TRUE_PROP
      else if is_in ''FALSE(valid-deref)'' stroutput then RESULT_FALSE_DEREF
      else if is_in ''FALSE(no-overflow)'' stroutput then RESULT_FALSE_OVERFLOW
      else if is_in ''FALSE'' stroutput then RESULT_FALSE_REACH
      else RESULT_UNKNOWN)"

definition skink_cmdline :: "string \<Rightarrow> string list \<Rightarrow> string list" where
  "skink_cmdline found tasks = [found, ''-f'', ''LLVM''] @ tasks"

text \<open>A text cannot join \<open>bytes\<close> objects, nor be looked for in one.\<close>

definition skink_status :: "string list \<Rightarrow> exn + string" where
  "skink_status output = (if output \<noteq> [] then Inl TypeError else Inr RESULT_UNKNOWN)"

definition map2check_status :: "string list \<Rightarrow> exn + string" where
  "map2check_status output = (if output = [] then Inr RESULT_UNKNOWN else Inl TypeError)"

text \<open>Version 6 is the one with a wrapper that is a shell script.\<close>

definition map2check_version :: "(string \<Rightarrow> bool) \<Rightarrow> nat" where
  "map2check_version found = (if found ''map2check-wrapper.sh'' then 6 else 7)"

definition map2check_cmdline ::
  "(string \<Rightarrow> bool) \<Rightarrow> py_prop \<Rightarrow> string \<Rightarrow> string list \<Rightarrow> string list \<Rightarrow> exn + string list" where
  "map2check_cmdline found p executable opts sourcefiles =
     (case sourcefiles of
        [sourcefile] \<Rightarrow>
          (case p_prpfile p of
             None \<Rightarrow> Inl AssertionError
           | Some prp \<Rightarrow>
               if prp = [] then Inl AssertionError
               else Inr ([executable] @ opts @ [if map2check_version found = 6 then ''-c'' else ''-p'', prp, sourcefile]))
      | _ \<Rightarrow> Inl AssertionError)"

text \<open>What SMACK prints about an error.\<close>

lemma smack_examples:
  "smack_status [''SMACK found an error.''] = Inr RESULT_FALSE_REACH"
  "smack_status [''x'', ''SMACK found an error: memory leak.''] = Inr RESULT_FALSE_MEMTRACK"
  "smack_status [''SMACK found an error: something else.''] = Inr RESULT_UNKNOWN"
  "smack_status [''SMACK found an error: memory leak''] = Inr RESULT_UNKNOWN"
  by code_simp+

section \<open>Targets that cannot run\<close>

text \<open>C32: Seven targets ask for passes of the base class that it does not have. Whatever bitcode
  they get, they never start their verifier: the verification phase ends at once with an
  \<open>AttributeError\<close>, which no handler of \<open>run\<close> or of the script is for.\<close>

theorem broken_targets_raise:
  assumes "tt \<in> {cbmc_svcomp_tool v, esbmc_tool v, twols_tool v, predator_tool v, cpa_tool v os,
    uautomizer_tool v cmdline, predatorhp_tool v}"
  shows "verifier_run E (single tt) f override s = (Inl AttributeError, s\<lparr>s_timer := True\<rparr>)"
proof -
  from assms obtain passes where "tl_passes_before_verification tt = Some (super_passes passes)"
    by (auto simp: cbmc_svcomp_tool_def esbmc_tool_def twols_tool_def predator_tool_def cpa_tool_def
        uautomizer_tool_def predatorhp_tool_def Let_def)
  then have "verifier_passes tt s' = (Inl AttributeError, s')" for s'
    by (simp add: verifier_passes_def super_passes_def ask_def bnd_def cmd_run)
  then show ?thesis
    by (simp add: verifier_run_def run_verification_def run_verifier_def handle_def bnd_def sq_run
        restart_counting_time_def cmd_run)
qed

theorem broken_targets_raise_witness:
  "verifier_run probe_env (single (esbmc_tool ''10.0.1'')) ''a.bc'' [] probe_state =
    (Inl AttributeError, probe_state\<lparr>s_timer := True\<rparr>)"
  by (rule broken_targets_raise [where v = "''10.0.1''" and os = plain_options]) simp

text \<open>2LS, were it run, would blame every violation on an error call: its last line is turned into
  text together with the quotes of a \<open>bytes\<close> object, which no entry of the table has.\<close>

lemma twols_only_reach:
  "twols_status returncode output \<in> {RESULT_TRUE_PROP, RESULT_FALSE_REACH, RESULT_UNKNOWN}"
proof -
  have none: "map_of (false_table ns) (strip (bytes_repr b)) = None" for ns b
  proof -
    let ?q = "if CHR 0x27 \<in> set b \<and> CHR 0x22 \<notin> set b then CHR 0x22 else CHR 0x27"
    have spaces: "\<not> is_space (CHR ''b'')" "\<not> is_space (CHR 0x22)" "\<not> is_space (CHR 0x27)"
      by code_simp+
    have "bytes_repr b = CHR ''b'' # (?q # concat (map (repr_byte ?q) b)) @ [?q]"
      by (simp add: bytes_repr_def Let_def)
    moreover have "\<not> is_space ?q" using spaces by simp
    moreover have "strip (x # xs @ [y]) = x # xs @ [y]" if "\<not> is_space x" "\<not> is_space y" for x y xs
      using that by (simp add: strip_def lstrip_def rstrip_def)
    ultimately have "strip (bytes_repr b) = bytes_repr b" using spaces(1) by (simp only:)
    then show ?thesis by (auto simp: map_of_eq_None_iff false_table_def bytes_repr_def Let_def)
  qed
  show ?thesis by (simp add: twols_status_def none)
qed

section \<open>The portfolio of CBMC\<close>

lemma only_these_decided:
  assumes "only_these [r] status = res" "decisive res" "r = ''true'' \<or> r = ''false''"
  shows "startswith (lower res) r"
proof -
  have "\<not> decisive RESULT_UNKNOWN" by code_simp
  with assms(1,2) have "(if startswith (lower status) ''false'' then ''false''
      else if startswith (lower status) ''true'' then ''true'' else lower status) = r" "res = status"
    by (auto simp: only_these_def Let_def split: if_splits)
  with assms(3) show ?thesis by (auto split: if_splits)
qed

lemma true_not_false: "startswith (lower res) ''false'' \<Longrightarrow> \<not> startswith (lower res) ''true''"
  by (cases "lower res") auto

text \<open>What a portfolio of CBMC may still become.\<close>

definition cbmc_rest :: "string \<Rightarrow> portfolio \<Rightarrow> bool" where
  "cbmc_rest v q \<longleftrightarrow>
     (\<exists>bs. set bs \<subseteq> set cbmc_bounds \<and>
       (q = cbmc_tries v bs \<or>
        (\<exists>b \<in> set cbmc_bounds. q = Try (cbmc_tool v [''true'']) (Some [''--unwind'', str_int b, ''--unwinding-assertions''])
               None (\<lambda>_. cbmc_tries v bs))))"

lemma cbmc_rest_tries: "set bs \<subseteq> set cbmc_bounds \<Longrightarrow> cbmc_rest v (cbmc_tries v bs)"
  unfolding cbmc_rest_def by blast

lemma cbmc_rest_next:
  assumes "cbmc_rest v (Try tt add tmo k)"
  shows "cbmc_rest v (k hit)"
proof -
  from assms obtain bs where bs: "set bs \<subseteq> set cbmc_bounds" and
    "Try tt add tmo k = cbmc_tries v bs \<or> k = (\<lambda>_. cbmc_tries v bs)"
    by (auto simp: cbmc_rest_def)
  then consider "k = (\<lambda>_. cbmc_tries v bs)" | "k = (\<lambda>_. Stop)" | b bs' where "bs = b # bs'"
    "k = (\<lambda>_. Try (cbmc_tool v [''true'']) (Some [''--unwind'', str_int b, ''--unwinding-assertions'']) None
      (\<lambda>_. cbmc_tries v bs'))"
    by (cases bs) auto
  then show ?thesis
  proof cases
    case 2
    then show ?thesis using cbmc_rest_tries [of "[]" v] by simp
  next
    case 3
    then show ?thesis using bs unfolding cbmc_rest_def by auto
  qed (simp add: bs cbmc_rest_tries)
qed

lemma cbmc_rest_tried: "tried E tg f override p s rs q s' \<Longrightarrow> cbmc_rest v p \<Longrightarrow> cbmc_rest v q"
  by (induction rule: tried.induct) (simp_all add: cbmc_rest_next)

lemma cbmc_rest_Try:
  assumes "cbmc_rest v (Try tt add tmo k)"
  shows "tmo = None \<and> (\<exists>b \<in> set cbmc_bounds.
    tt = cbmc_tool v [''false''] \<and> add = Some [''--unwind'', str_int b] \<or>
    tt = cbmc_tool v [''true''] \<and> add = Some [''--unwind'', str_int b, ''--unwinding-assertions''])"
proof -
  from assms obtain bs where "set bs \<subseteq> set cbmc_bounds" and
    "Try tt add tmo k = cbmc_tries v bs \<or>
     (\<exists>b \<in> set cbmc_bounds. tt = cbmc_tool v [''true''] \<and> tmo = None \<and>
       add = Some [''--unwind'', str_int b, ''--unwinding-assertions''])"
    by (auto simp: cbmc_rest_def)
  then show ?thesis by (cases bs) auto
qed

text \<open>Every answer of a verifier is a verdict of its tool on the output of the run.\<close>

lemma run_verifier_verdict:
  assumes "run_verifier E tg tt add tmo f override s = (Inr res, s')"
  shows "\<exists>os p status out. tl_determine_result tt os p status out = Inr res"
proof -
  have "\<exists>os p status out. tl_determine_result tt os p status out = Inr res"
    if "run_tool E tt params tmo f2 s2 = (Inr res, s')" for params f2 s2
    using that
    by (auto simp: run_tool_def bnd_def with_state_def sq_def lift_def upd_def split: prod.splits sum.splits)
  then show ?thesis
    using assms unfolding run_verifier_def by (auto simp: bnd_def split: prod.splits sum.splits)
qed

text \<open>C31: In the portfolio of CBMC, whose runs unwind loops up to a bound, a proof always comes from
  a run with unwinding assertions, which fails when the bound is not enough; a run without them
  only ever contributes errors.\<close>

theorem cbmc_true_needs_assertions:
  assumes "run_verification E (cbmc_target v) f override s = (Inr (res, Some tt), s')"
  shows "\<exists>b s1. b \<in> set cbmc_bounds \<and>
    (if startswith (lower res) ''true''
     then run_verifier E (cbmc_target v) (cbmc_tool v [''true''])
       (Some [''--unwind'', str_int b, ''--unwinding-assertions'']) None f override s1 = (Inr res, s')
     else startswith (lower res) ''false'' \<and>
       run_verifier E (cbmc_target v) (cbmc_tool v [''false'']) (Some [''--unwind'', str_int b]) None f
         override s1 = (Inr res, s'))"
proof -
  let ?p = "cbmc_tries v cbmc_bounds"
  from assms have "run_portfolio ?p E (cbmc_target v) f override None (s\<lparr>s_timer := True\<rparr>) =
      (Inr (res, Some tt), s')"
    by (simp add: run_verification_def sq_run restart_counting_time_def upd_def with_state_def
        cbmc_target_def tool.defs)
  from portfolio_runs [OF this] obtain rs add tmo k s1 where "decisive res"
    and tried: "tried E (cbmc_target v) f override ?p (s\<lparr>s_timer := True\<rparr>) rs (Try tt add tmo k) s1"
    and run: "run_verifier E (cbmc_target v) tt add tmo f override s1 = (Inr res, s')" by auto
  have "cbmc_rest v (Try tt add tmo k)"
    using cbmc_rest_tried [OF tried, of v] by (auto simp: cbmc_rest_def)
  from cbmc_rest_Try [OF this] obtain b where b: "b \<in> set cbmc_bounds" "tmo = None" and
    tt: "tt = cbmc_tool v [''false''] \<and> add = Some [''--unwind'', str_int b] \<or>
      tt = cbmc_tool v [''true''] \<and> add = Some [''--unwind'', str_int b, ''--unwinding-assertions'']"
    by auto
  have verdict: "startswith (lower res) r" if "tt = cbmc_tool v [r]" "r = ''true'' \<or> r = ''false''" for r
    using run_verifier_verdict [OF run] that \<open>decisive res\<close>
    by (auto simp: cbmc_tool_def only_these_decided)
  from tt show ?thesis
  proof
    assume "tt = cbmc_tool v [''false''] \<and> add = Some [''--unwind'', str_int b]"
    with verdict [of "''false''"] run b true_not_false [of res] show ?thesis by auto
  next
    assume "tt = cbmc_tool v [''true''] \<and> add = Some [''--unwind'', str_int b, ''--unwinding-assertions'']"
    with verdict [of "''true''"] run b show ?thesis by auto
  qed
qed

text \<open>CBMC reports success in every run.\<close>

definition cbmc_env :: cc_env where
  "cbmc_env = probe_env
     \<lparr>e_world := (e_world probe_env)
        \<lparr>exec := (\<lambda>log cmd. Some (if hd cmd = ''cbmc'' then [''VERIFICATION SUCCESSFUL''] else [], 0))\<rparr>,
      e_depth := Suc 0\<rparr>"

lemma cbmc_env_simps [simp]:
  "exec (e_world cbmc_env) log cmd =
    Some (if hd cmd = ''cbmc'' then [''VERIFICATION SUCCESSFUL''] else [], 0)"
  "w_signal (e_world cbmc_env) log cmd = None" "e_executable cbmc_env = (\<lambda>x fallback. Inr x)" "e_depth cbmc_env = Suc 0"
  by (simp_all add: cbmc_env_def)

lemma cbmc_success:
  "tl_determine_result (cbmc_tool v [''false'']) os p (Some 0) [''VERIFICATION SUCCESSFUL''] = Inr ''unknown''"
  "tl_determine_result (cbmc_tool v [''true'']) os p (Some 0) [''VERIFICATION SUCCESSFUL''] = Inr ''true''"
proof -
  have "cbmc_line p (bytes_repr (strip_bytes ''VERIFICATION SUCCESSFUL'')) RESULT_ERROR = RESULT_TRUE_PROP" 
    unfolding cbmc_line_def
    by code_simp
  then have "cbmc_status p (Some 0) [''VERIFICATION SUCCESSFUL''] = RESULT_TRUE_PROP"
    by (simp add: cbmc_status_def)
  moreover have "only_these [''false''] RESULT_TRUE_PROP = ''unknown''" "only_these [''true''] RESULT_TRUE_PROP = ''true''"
    by code_simp+
  ultimately show
  "tl_determine_result (cbmc_tool v [''false'']) os p (Some 0) [''VERIFICATION SUCCESSFUL''] = Inr ''unknown''"
  "tl_determine_result (cbmc_tool v [''true'']) os p (Some 0) [''VERIFICATION SUCCESSFUL''] = Inr ''true''"
  by (simp_all add: cbmc_tool_def)
qed

lemma cbmc_probe_tool:
  "tl_passes_before_verification (cbmc_tool v rs) = Some (\<lambda>s p.
     Inr ((if termination_prp p then [''-instrument-nontermination''] else []) @
       [''-reg2mem'', ''-lowerswitch'', ''-simplifycfg'']))"
  "tl_actions_before_verification (cbmc_tool v rs) = Some cbmc_actions"
  "tl_cmdline (cbmc_tool v rs) = cbmc_cmdline" "tl_executable (cbmc_tool v rs) = Lookup ''cbmc'' None"
  "tool.truncate (cbmc_target v) = cbmc_tool v []" "\<not> tg_learns (cbmc_target v)"
  "tg_verifiers (cbmc_target v) = (\<lambda>s p. cbmc_tries v cbmc_bounds)"
  by (simp_all add: cbmc_tool_def base_tool_def cbmc_target_def tool.defs)

lemma quiet_run:
  assumes "\<not> s_running s" "\<not> s_alive s" "exec (e_world E) (s_log s) cmd = Some ([], 0)"
    "w_signal (e_world E) (s_log s) cmd = None"
  shows "runcmd (e_world E) cmd w msg s = (Inr w, s\<lparr>s_log := s_log s @ [cmd]\<rparr>)"
  using assms by (simp add: runcmd_def run_process_def process_ended_def cmd_run sq_run bnd_def)

lemma cbmc_pm: "new_pm_args (cbmc_tool ''10.0.1'' []) = Inr []"
  by code_simp

lemma plain_quiet: "\<not> save_files plain_options" "\<not> is32bit plain_options" "tool_params plain_options = []"
  by code_simp+

lemma cbmc_probe_run:
  assumes "\<not> s_running s" "c_opts s = c_opts probe_state" "c_prop s = c_prop probe_state"
    and "\<And>os p. tl_determine_result (cbmc_tool ''10.0.1'' [r]) os p (Some 0) [''VERIFICATION SUCCESSFUL''] =
      Inr answer"
  shows "\<exists>s'. run_verifier cbmc_env (cbmc_target ''10.0.1'') (cbmc_tool ''10.0.1'' [r])
     (Some ps) None ''a.bc'' [] s = (Inr answer, s') \<and>
     \<not> s_running s' \<and> c_opts s' = c_opts probe_state \<and> c_prop s' = c_prop probe_state"
  using assms
  by (simp add: step_eval cbmc_probe_tool cbmc_pm cbmc_actions_def cbmc_cmdline_def save_ll_def
    run_command_def get_undefined_def runcmd_def link_undefs_def print_lines_def to_c_def
    cc_action_def plain_quiet get_lines_def put_line_def watch_parse_def buff_append_def
    is_buffering_def last_n_def signedoverflow_def memcleanup_def)

lemma cbmc_probe:
  "\<exists>s'. run_verification cbmc_env (cbmc_target ''10.0.1'') ''a.bc'' [] probe_state =
    (Inr (''true'', Some (cbmc_tool ''10.0.1'' [''true''])), s')"
proof -
  let ?s = "probe_state\<lparr>s_timer := True\<rparr>" and ?tg = "cbmc_target ''10.0.1''"
  obtain s1 where s1: "run_verifier cbmc_env ?tg (cbmc_tool ''10.0.1'' [''false''])
      (Some [''--unwind'', str_int 2]) None ''a.bc'' [] ?s = (Inr ''unknown'', s1)"
    "\<not> s_running s1" "c_opts s1 = c_opts probe_state" "c_prop s1 = c_prop probe_state"
    using cbmc_probe_run [where ps = "[''--unwind'', str_int 2]" and s = ?s, OF _ _ _ cbmc_success(1)] by auto
  obtain s2 where s2: "run_verifier cbmc_env ?tg (cbmc_tool ''10.0.1'' [''true''])
      (Some [''--unwind'', str_int 2, ''--unwinding-assertions'']) None ''a.bc'' [] s1 = (Inr ''true'', s2)"
    using cbmc_probe_run [OF s1(2-4) cbmc_success(2)] by blast
  have "\<not> decisive ''unknown''" by code_simp
  then have "run_portfolio (cbmc_tries ''10.0.1'' cbmc_bounds) cbmc_env ?tg ''a.bc'' [] None ?s =
      (Inr (''true'', Some (cbmc_tool ''10.0.1'' [''true''])), s2)"
    by (simp add: cbmc_bounds_def bnd_def s1(1) s2 sq_run cmd_run cbmc_probe_tool)
  then show ?thesis
    by (simp add: run_verification_def sq_run restart_counting_time_def cmd_run cbmc_probe_tool)
qed

theorem cbmc_true_needs_assertions_witness:
  "\<exists>b s1 s'. b \<in> set cbmc_bounds \<and>
    run_verifier cbmc_env (cbmc_target ''10.0.1'') (cbmc_tool ''10.0.1'' [''true''])
      (Some [''--unwind'', str_int b, ''--unwinding-assertions'']) None ''a.bc'' [] s1 = (Inr ''true'', s')"
proof -
  from cbmc_probe obtain s' where "run_verification cbmc_env (cbmc_target ''10.0.1'') ''a.bc'' []
      probe_state = (Inr (''true'', Some (cbmc_tool ''10.0.1'' [''true''])), s')" by blast
  from cbmc_true_needs_assertions [OF this] have "startswith (lower ''true'') ''true'' \<longrightarrow> ?thesis"
    by (auto split: if_splits)
  moreover have "startswith (lower ''true'') ''true''" by code_simp
  ultimately show ?thesis by blast
qed

end
