(* ===== verification/Kleetester.thy ===== *)
theory Kleetester
  imports Verifiers
begin

text \<open>
  The generator of tests for TEST-COMP (\<open>scripts/kleetester.py\<close>): it runs KLEE on the bitcode
  and, next to it, on slices for single targets. Time passes with every look at a process; when
  a process ends, with what status and output, is a parameter, so that every interleaving of
  the processes with the script is one of its values. Lists that Python shares are one list.
\<close>

section \<open>Processes\<close>

text \<open>A process is named by its number among the commands that were tried; \<open>te_end\<close> is the time at
  which it ends (\<open>None\<close>: never).\<close>

record tester_env =
  te_start :: "nat \<Rightarrow> bool"
  te_end :: "nat \<Rightarrow> nat option"
  te_code :: "nat \<Rightarrow> int"
  te_out :: "nat \<Rightarrow> string"

text \<open>The commands that were tried, the time, the processes whose output was read and closed, and
  those that got a signal.\<close>

record tester =
  k_cmds :: "string list list"
  k_now :: nat
  k_closed :: "nat list"
  k_killed :: "nat list"

type_synonym 'a tstep = "(tester, 'a) cmd"

definition ended :: "tester_env \<Rightarrow> tester \<Rightarrow> nat \<Rightarrow> bool" where
  "ended T s p \<longleftrightarrow> (case te_end T p of None \<Rightarrow> False | Some t \<Rightarrow> t \<le> k_now s)"

text \<open>\<open>Popen.poll\<close>, \<open>wait\<close>, \<open>communicate\<close> (a closed pipe cannot be read again), \<open>kill\<close>\<close>

definition poll :: "tester_env \<Rightarrow> nat \<Rightarrow> int option tstep" where
  "poll T p = with_state (\<lambda>s.
     sq (upd (k_now_update Suc)) (ret (if ended T s p then Some (te_code T p) else None)))"

definition wait :: "tester_env \<Rightarrow> nat \<Rightarrow> int tstep" where
  "wait T p =
     (case te_end T p of None \<Rightarrow> throw Diverges
      | Some t \<Rightarrow> sq (upd (k_now_update (max t))) (ret (te_code T p)))"

definition communicate :: "tester_env \<Rightarrow> nat \<Rightarrow> string tstep" where
  "communicate T p = with_state (\<lambda>s.
     if p \<in> set (k_closed s) then throw ValueError
     else bnd (wait T p) (\<lambda>_.
       sq (upd (k_closed_update (Cons p))) (ret (te_out T p))))"

definition kill :: "nat \<Rightarrow> unit tstep" where
  "kill p = upd (k_killed_update (Cons p))"

definition sleep :: "nat \<Rightarrow> unit tstep" where
  "sleep n = upd (k_now_update ((+) n))"

text \<open>\<open>runcmd\<close>\<close>

definition popen :: "tester_env \<Rightarrow> string list \<Rightarrow> nat option tstep" where
  "popen T cmd = with_state (\<lambda>s.
     sq (upd (k_cmds_update (\<lambda>l. l @ [cmd])))
        (ret (if te_start T (length (k_cmds s)) then Some (length (k_cmds s)) else None)))"

section \<open>Text\<close>

text \<open>\<open>bytes.splitlines\<close>\<close>

fun split_lines :: "string \<Rightarrow> string \<Rightarrow> string list" where
  "split_lines line [] = (if line = [] then [] else [rev line])"
| "split_lines line (c # cs) =
     (if c = CHR 0x0A then rev line # split_lines [] cs
      else if c = CHR 0x0D
      then rev line # (case cs of d # ds \<Rightarrow> if d = CHR 0x0A then split_lines [] ds else split_lines [] cs
                                 | [] \<Rightarrow> [])
      else split_lines (c # line) cs)"

definition splitlines :: "string \<Rightarrow> string list" where
  "splitlines s = split_lines [] s"

text \<open>\<open>decode('utf-8', 'ignore')\<close>: how many bytes the next character has, or how many bytes of a
  broken one are dropped.\<close>

definition second_ok :: "nat \<Rightarrow> nat \<Rightarrow> bool" where
  "second_ok a b \<longleftrightarrow> cont_byte b \<and> (a = 224 \<longrightarrow> 160 \<le> b) \<and> (a = 237 \<longrightarrow> b \<le> 159) \<and>
     (a = 240 \<longrightarrow> 144 \<le> b) \<and> (a = 244 \<longrightarrow> b \<le> 143)"

definition char_width :: "nat \<Rightarrow> nat" where
  "char_width a = (if a < 128 then 1 else if 194 \<le> a \<and> a \<le> 223 then 2
     else if 224 \<le> a \<and> a \<le> 239 then 3 else if 240 \<le> a \<and> a \<le> 244 then 4 else 0)"

definition well_formed :: "nat list \<Rightarrow> nat" where
  "well_formed bs =
     (case bs of [] \<Rightarrow> 0 | [a] \<Rightarrow> 1
      | a # b # r \<Rightarrow> if char_width a \<le> 1 \<or> \<not> second_ok a b then 1
          else min (char_width a) (2 + length (takeWhile cont_byte r)))"

function decode_ignore :: "string \<Rightarrow> string" where
  "decode_ignore s =
     (if s = [] then []
      else
        let bs = map of_char s; n = max 1 (well_formed bs)
        in (if n = char_width (hd bs) then take n s else []) @ decode_ignore (drop n s))"
  by pat_completeness auto
termination by (relation "measure length") auto

section \<open>The steps\<close>

definition gentest ::
  "tester_env \<Rightarrow> string \<Rightarrow> string \<Rightarrow> string \<Rightarrow> string \<Rightarrow> string list \<Rightarrow> nat option tstep" where
  "gentest T bitcode outdir prp sfx params =
     popen T ([''klee'', ''-output-dir='' @ outdir] @
       (if sfx = [] then [] else [''-testcases-suffix='' @ sfx]) @
       [''-use-forked-solver=0'', ''--use-call-paths=0'', ''--output-stats=0'',
        ''-istats-write-interval=60s'', ''-timer-interval=10'', ''-external-calls=pure'',
        ''-write-testcases'', ''-malloc-symbolic-contents'', ''-max-memory=8000'',
        ''-output-source=false''] @
       (if prp \<noteq> ''coverage''
        then [''-error-fn='' @ prp, ''-exit-on-error-type=Assert'', ''-dump-states-on-halt=0'']
        else [''-only-output-states-covering-new=1'', ''-max-time=840'']) @ params @ [bitcode])"

definition find_criterions :: "tester_env \<Rightarrow> string \<Rightarrow> (string \<times> string list) option tstep" where
  "find_criterions T bitcode =
     (let new = bitcode @ ''.tpr.bc'' in
      bnd (popen T [''opt'', ''-load'', ''LLVMsbt.so'', ''-get-test-targets'', ''-o'', new, bitcode]) (\<lambda>p.
      case p of None \<Rightarrow> ret None
      | Some p \<Rightarrow>
          bnd (communicate T p) (\<lambda>out.
          bnd (poll T p) (\<lambda>code.
          ret (if code \<noteq> Some 0 then None
               else if out \<noteq> [] then Some (new, map decode_ignore (splitlines out)) else None)))))"

definition constrain_to_target :: "tester_env \<Rightarrow> string \<Rightarrow> string \<Rightarrow> string option tstep" where
  "constrain_to_target T bitcode target =
     (let new = bitcode @ ''.opt.bc'' in
      bnd (popen T [''opt'', ''-load'', ''LLVMsbt.so'', ''-constraint-to-target'',
             ''-ctt-target='' @ target, ''-O3'', ''-o'', new, bitcode]) (\<lambda>p.
      case p of None \<Rightarrow> ret None
      | Some p \<Rightarrow>
          bnd (wait T p) (\<lambda>code.
          if code \<noteq> 0 then bnd (communicate T p) (\<lambda>_. ret None) else ret (Some new))))"

definition sliceprocess :: "tester_env \<Rightarrow> string \<Rightarrow> string \<Rightarrow> (nat option \<times> string) tstep" where
  "sliceprocess T bitcode crit =
     bnd (constrain_to_target T bitcode crit) (\<lambda>b.
     case b of None \<Rightarrow> ret (None, [])
     | Some b \<Rightarrow>
         (let out = b @ ''-'' @ crit @ ''.bc'' in
          bnd (popen T [''timeout'', ''120'', ''llvm-slicer'', ''-c'', crit, ''-o'', out, b]) (\<lambda>p.
          ret (p, out))))"

text \<open>\<open>optimize\<close> does not expect that the program cannot be started.\<close>

definition optimize_slice :: "tester_env \<Rightarrow> string \<Rightarrow> string tstep" where
  "optimize_slice T bitcode =
     (let new = bitcode @ ''.opt.bc'' in
      bnd (popen T [''opt'', ''-load'', ''LLVMsbt.so'', ''-O3'', ''-remove-infinite-loops'', ''-O2'',
             ''-o'', new, bitcode]) (\<lambda>p.
      bnd (lift (of_opt AttributeError p)) (\<lambda>p.
      bnd (wait T p) (\<lambda>_. ret new))))"

definition check_error :: "string \<Rightarrow> bool" where
  "check_error outs \<longleftrightarrow> list_ex (is_in ''ASSERTION FAIL: '') (splitlines outs)"

section \<open>The generators\<close>

text \<open>When an error was found, the generators that have already ended are killed.\<close>

definition kill_ended :: "tester_env \<Rightarrow> nat list \<Rightarrow> unit tstep" where
  "kill_ended T gens = each (\<lambda>p. bnd (poll T p) (\<lambda>r. onlyif (r \<noteq> None) (kill p))) gens"

text \<open>A generator has ended; \<open>exit(0)\<close> when it found the error.\<close>

definition harvest :: "tester_env \<Rightarrow> string \<Rightarrow> nat list \<Rightarrow> nat \<Rightarrow> unit tstep" where
  "harvest T prp gens p =
     onlyif (prp \<noteq> ''coverage'')
       (bnd (communicate T p) (\<lambda>out.
        onlyif (check_error out) (sq (kill_ended T gens) (throw (SystemExit ''0'')))))"

text \<open>The loop that collects the running generators in a list of its own.\<close>

fun collect :: "tester_env \<Rightarrow> string \<Rightarrow> nat list \<Rightarrow> nat list \<Rightarrow> nat list tstep" where
  "collect T prp gens [] = ret []"
| "collect T prp gens (p # ps) =
     bnd (poll T p) (\<lambda>r.
     if r \<noteq> None then sq (harvest T prp gens p) (collect T prp gens ps)
     else bnd (collect T prp gens ps) (\<lambda>ns. ret (p # ns)))"

text \<open>The same loop while \<open>newgens\<close> and \<open>generators\<close> are one list: it grows while it is walked
  through.\<close>

fun collect_shared :: "nat \<Rightarrow> tester_env \<Rightarrow> string \<Rightarrow> nat list \<Rightarrow> nat \<Rightarrow> nat list tstep" where
  "collect_shared 0 T prp gens i = throw Diverges"
| "collect_shared (Suc n) T prp gens i =
     (if i < length gens then
        bnd (poll T (gens ! i)) (\<lambda>r.
        if r \<noteq> None then sq (harvest T prp gens (gens ! i)) (collect_shared n T prp gens (Suc i))
        else collect_shared n T prp (gens @ [gens ! i]) (Suc i))
      else ret gens)"

text \<open>\<open>prp == 'coverage' and maingen and maingen.poll() is not None\<close>; the number of the process
  object is not its truth value, an object is true.\<close>

definition main_finished :: "tester_env \<Rightarrow> string \<Rightarrow> nat option \<Rightarrow> bool tstep" where
  "main_finished T prp maingen =
     (if prp = ''coverage'' then
        (case maingen of None \<Rightarrow> ret False | Some p \<Rightarrow> bnd (poll T p) (\<lambda>r. ret (r \<noteq> None)))
      else ret False)"

fun at_most_8 :: "nat \<Rightarrow> tester_env \<Rightarrow> string \<Rightarrow> nat option \<Rightarrow> nat list \<Rightarrow> nat list tstep" where
  "at_most_8 0 T prp maingen gens = throw Diverges"
| "at_most_8 (Suc n) T prp maingen gens =
     (if 8 \<le> length gens then
        bnd (main_finished T prp maingen) (\<lambda>fin.
        if fin then ret gens
        else sq (sleep 2) (bnd (collect_shared n T prp gens 0) (at_most_8 n T prp maingen)))
      else ret gens)"

text \<open>A generator was to be started, after the slicing of a target: the generators then, and whether
  the loop over the targets ends.\<close>

definition new_generator ::
  "nat \<Rightarrow> tester_env \<Rightarrow> string \<Rightarrow> nat option \<Rightarrow> nat list \<Rightarrow> nat option \<Rightarrow> (nat list \<times> bool) tstep" where
  "new_generator fuel T prp maingen gens p =
     (case p of None \<Rightarrow> ret (gens, False)
      | Some p \<Rightarrow>
          bnd (collect T prp (gens @ [p]) (gens @ [p])) (\<lambda>gens1.
          bnd (at_most_8 fuel T prp maingen gens1) (\<lambda>gens2. ret (gens2, False))))"

definition test_slice ::
  "nat \<Rightarrow> tester_env \<Rightarrow> string \<Rightarrow> string \<Rightarrow> nat option \<Rightarrow> nat \<Rightarrow> nat list \<Rightarrow> string \<Rightarrow> nat \<Rightarrow>
   (nat list \<times> bool) tstep" where
  "test_slice fuel T prp outdir maingen n gens sliced slicer =
     bnd (wait T slicer) (\<lambda>code.
     if code \<noteq> 0 then bnd (communicate T slicer) (\<lambda>_. ret (gens, code = 124)) else
     bnd (optimize_slice T sliced) (\<lambda>optimized.
     bnd (main_finished T prp maingen) (\<lambda>fin.
     if fin then ret (gens, True) else
     bnd (gentest T optimized outdir prp (str_int (int n))
            [''--search=dfs'', ''--use-batching-search''])
         (new_generator fuel T prp maingen gens))))"

definition test_target ::
  "nat \<Rightarrow> tester_env \<Rightarrow> string \<Rightarrow> string \<Rightarrow> string \<Rightarrow> nat option \<Rightarrow> nat \<Rightarrow> string \<Rightarrow> nat list \<Rightarrow>
   (nat list \<times> bool) tstep" where
  "test_target fuel T prp outdir bitcode maingen n crit gens =
     bnd (main_finished T prp maingen) (\<lambda>fin.
     if fin then ret (gens, True) else
     bnd (sliceprocess T bitcode crit) (\<lambda>(slicer, sliced).
     case slicer of None \<Rightarrow> ret (gens, False)
     | Some sl \<Rightarrow> test_slice fuel T prp outdir maingen n gens sliced sl))"

fun targets ::
  "nat \<Rightarrow> tester_env \<Rightarrow> string \<Rightarrow> string \<Rightarrow> string \<Rightarrow> nat option \<Rightarrow> nat \<Rightarrow> string list \<Rightarrow> nat list \<Rightarrow>
   nat list tstep" where
  "targets fuel T prp outdir bitcode maingen n [] gens = ret gens"
| "targets fuel T prp outdir bitcode maingen n (crit # crits) gens =
     bnd (test_target fuel T prp outdir bitcode maingen n crit gens) (\<lambda>(gens', stop).
     if stop then ret gens' else targets fuel T prp outdir bitcode maingen (Suc n) crits gens')"

text \<open>The last loop.\<close>

fun drain :: "nat \<Rightarrow> tester_env \<Rightarrow> string \<Rightarrow> nat list \<Rightarrow> unit tstep" where
  "drain 0 T prp gens = throw Diverges"
| "drain (Suc n) T prp gens =
     onlyif (gens \<noteq> [])
       (bnd (collect T prp gens gens) (\<lambda>gens'.
        onlyif (gens' \<noteq> []) (sq (sleep 2) (drain n T prp gens'))))"

text \<open>\<open>main\<close> up to the last loop, and all of it; \<open>fuel\<close> bounds the loops that wait for processes.\<close>

definition start_generators ::
  "nat \<Rightarrow> tester_env \<Rightarrow> string \<Rightarrow> string \<Rightarrow> string \<Rightarrow> nat list tstep" where
  "start_generators fuel T prp outdir bitcode =
     bnd (gentest T bitcode outdir prp [] []) (\<lambda>maingen.
     bnd (find_criterions T bitcode) (\<lambda>found.
     let gens = [] @ (case maingen of None \<Rightarrow> [] | Some p \<Rightarrow> [p])
     in case found of
          None \<Rightarrow> ret gens
        | Some (withcrits, crits) \<Rightarrow>
            targets fuel T prp outdir withcrits maingen 0 (rev crits) gens))"

definition kleetester :: "nat \<Rightarrow> tester_env \<Rightarrow> string list \<Rightarrow> unit tstep" where
  "kleetester fuel T args =
     (case args of
        [prog, prp, outdir, bitcode] \<Rightarrow>
          bnd (start_generators fuel T prp outdir bitcode) (\<lambda>gens.
          sq (drain fuel T prp gens)
             (onlyif (prp = ''coverage'')
               (bnd (popen T [''rm'', ''-f'', outdir @ ''/test*.*.xml'']) (\<lambda>_. ret ()))))
      | _ \<Rightarrow> throw (SystemExit ''1''))"

section \<open>Single operations\<close>

lemma poll_run [cmd_simps]:
  "poll T p s = (Inr (if ended T s p then Some (te_code T p) else None), s\<lparr>k_now := Suc (k_now s)\<rparr>)"
  by (simp add: poll_def sq_run cmd_run)

lemma sleep_run [cmd_simps]: "sleep n s = (Inr (), s\<lparr>k_now := n + k_now s\<rparr>)"
  by (simp add: sleep_def cmd_run)

lemma wait_run:
  "wait T p s = (case te_end T p of None \<Rightarrow> (Inl Diverges, s)
    | Some t \<Rightarrow> (Inr (te_code T p), s\<lparr>k_now := max t (k_now s)\<rparr>))"
  by (simp add: wait_def sq_run cmd_run split: option.split)

lemma popen_run:
  "popen T cmd s = (Inr (if te_start T (length (k_cmds s)) then Some (length (k_cmds s)) else None),
    s\<lparr>k_cmds := k_cmds s @ [cmd]\<rparr>)"
  by (simp add: popen_def sq_run cmd_run)

lemma communicate_closed: "p \<in> set (k_closed s) \<Longrightarrow> communicate T p s = (Inl ValueError, s)"
  by (simp add: communicate_def cmd_run)

lemma communicate_ended:
  assumes "p \<notin> set (k_closed s)" and "ended T s p"
  shows "communicate T p s = (Inr (te_out T p), s\<lparr>k_closed := p # k_closed s\<rparr>)"
  using assms by (auto simp: communicate_def cmd_run bnd_def sq_run wait_run ended_def max_def split: option.splits)

lemma kill_ended_run: "\<exists>s'. kill_ended T gens s = (Inr (), s')"
proof (induction gens arbitrary: s)
  case (Cons p gens)
  have "\<exists>s1. bnd (poll T p) (\<lambda>r. onlyif (r \<noteq> None) (kill p)) s = (Inr (), s1)"
    by (simp add: bnd_def poll_run kill_def cmd_run)
  with Cons show ?case by (auto simp: kill_ended_def sq_run)
qed (simp add: kill_ended_def cmd_run)

text \<open>Looking at a generator that has ended.\<close>

lemma harvest_ended:
  assumes "prp \<noteq> ''coverage''" and "p \<notin> set (k_closed s)" and "ended T s p"
  shows "if check_error (te_out T p) then fst (harvest T prp gens p s) = Inl (SystemExit ''0'')
    else harvest T prp gens p s = (Inr (), s\<lparr>k_closed := p # k_closed s\<rparr>)"
proof -
  obtain s1 where "kill_ended T gens (s\<lparr>k_closed := p # k_closed s\<rparr>) = (Inr (), s1)"
    using kill_ended_run by blast
  then show ?thesis
    using assms(1) by (simp add: harvest_def bnd_def communicate_ended [OF assms(2,3)] sq_run cmd_run)
qed

lemma harvest_closed:
  assumes "prp \<noteq> ''coverage''" and "p \<in> set (k_closed s)"
  shows "harvest T prp gens p s = (Inl ValueError, s)"
  using assms by (simp add: harvest_def bnd_def communicate_closed)

section \<open>The loop that shares its list\<close>

text \<open>How long the processes of a list still run, and how many there are.\<close>

definition work :: "tester_env \<Rightarrow> nat \<Rightarrow> nat list \<Rightarrow> nat" where
  "work T now ps = (\<Sum>p\<leftarrow>ps. Suc (the (te_end T p) - now))"

lemma work_mono: "now \<le> now' \<Longrightarrow> work T now' ps \<le> work T now ps"
  unfolding work_def by (rule sum_list_mono) simp

lemma work_running:
  assumes "\<not> ended T s p" and "te_end T p \<noteq> None"
  shows "work T (Suc (k_now s)) (ps @ [p]) < work T (k_now s) (p # ps)"
  using assms work_mono [of "k_now s" "Suc (k_now s)" T ps]
  by (auto simp: work_def ended_def)

lemma work_finished: "work T (Suc now) ps < work T now (p # ps)"
  using work_mono [of now "Suc now" T ps] by (simp add: work_def)

text \<open>The generators that are still to be looked at: all of them end, and nobody read their
  output.\<close>

definition unread :: "tester_env \<Rightarrow> tester \<Rightarrow> nat list \<Rightarrow> bool" where
  "unread T s ps \<longleftrightarrow> distinct ps \<and> set ps \<inter> set (k_closed s) = {} \<and> (\<forall>p \<in> set ps. te_end T p \<noteq> None)"

text \<open>The loop goes through all of them, or ends the script at an error one of them has found.\<close>

definition scanned :: "tester_env \<Rightarrow> nat list \<Rightarrow> nat list \<Rightarrow> tester \<Rightarrow> (exn + nat list) \<times> tester \<Rightarrow> bool" where
  "scanned T ps gens s r \<longleftrightarrow>
     (case r of
        (Inl e, s') \<Rightarrow> e = SystemExit ''0'' \<and> (\<exists>p \<in> set ps. check_error (te_out T p))
      | (Inr gens', s') \<Rightarrow> (\<exists>more. gens' = gens @ more) \<and> set (k_closed s) \<union> set ps \<subseteq> set (k_closed s') \<and>
          k_now s \<le> k_now s' \<and> (\<forall>p \<in> set ps. ended T s' p \<and> \<not> check_error (te_out T p)))"

lemma scanned_shared:
  assumes "prp \<noteq> ''coverage''" and "unread T s (drop i gens)"
  shows "\<exists>n r. (\<forall>m \<ge> n. collect_shared m T prp gens i s = r) \<and> scanned T (drop i gens) gens s r"
  using assms(2)
proof (induction "work T (k_now s) (drop i gens)" arbitrary: gens i s rule: less_induct)
  case less
  show ?case
  proof (cases "i < length gens")
    case False
    then have "collect_shared m T prp gens i s = (Inr gens, s)" if "1 \<le> m" for m
      using that by (cases m) (simp_all add: cmd_run)
    moreover have "scanned T (drop i gens) gens s (Inr gens, s)" using False by (simp add: scanned_def)
    ultimately show ?thesis by blast
  next
    case True
    let ?p = "gens ! i" and ?s = "s\<lparr>k_now := Suc (k_now s)\<rparr>"
    have d: "drop i gens = ?p # drop (Suc i) gens" using True by (rule Cons_nth_drop_Suc [symmetric])
    note u = less.prems [unfolded d]
    have goes_on: ?thesis
      if "work T (k_now s1) (drop (Suc i) gens1) < work T (k_now s) (drop i gens)"
        and "unread T s1 (drop (Suc i) gens1)"
        and step: "\<And>m. collect_shared (Suc m) T prp gens i s = collect_shared m T prp gens1 (Suc i) s1"
        and kept: "\<And>r. scanned T (drop (Suc i) gens1) gens1 s1 r \<Longrightarrow> scanned T (drop i gens) gens s r"
      for gens1 s1
    proof -
      from less.hyps [OF that(1,2)] obtain n r where
        r: "\<forall>m \<ge> n. collect_shared m T prp gens1 (Suc i) s1 = r" and "scanned T (drop (Suc i) gens1) gens1 s1 r"
        by blast
      then have "collect_shared m T prp gens i s = r" if "Suc n \<le> m" for m
        using that step by (cases m) auto
      with kept \<open>scanned T (drop (Suc i) gens1) gens1 s1 r\<close> show ?thesis by blast
    qed
    show ?thesis
    proof (cases "ended T s ?p")
      case False
      have "drop (Suc i) (gens @ [?p]) = drop (Suc i) gens @ [?p]" using True by simp
      moreover have "collect_shared (Suc m) T prp gens i s =
          collect_shared m T prp (gens @ [?p]) (Suc i) ?s" for m
        using True False by (simp add: bnd_def poll_run)
      moreover have "scanned T (drop i gens) gens s r"
        if "scanned T (drop (Suc i) gens @ [?p]) (gens @ [?p]) ?s r" for r
        using that d by (auto simp: scanned_def split: prod.splits sum.splits)
      ultimately show ?thesis
        using goes_on [of ?s "gens @ [?p]"] work_running [OF False, of "drop (Suc i) gens"] u d
        by (auto simp: unread_def)
    next
      case True
      have e: "ended T ?s ?p" using True by (auto simp: ended_def split: option.splits)
      have h: "if check_error (te_out T ?p) then fst (harvest T prp gens ?p ?s) = Inl (SystemExit ''0'')
          else harvest T prp gens ?p ?s = (Inr (), ?s\<lparr>k_closed := ?p # k_closed s\<rparr>)"
        using harvest_ended [OF assms(1) _ e, of gens] u by (simp add: unread_def)
      have c: "collect_shared (Suc m) T prp gens i s =
          sq (harvest T prp gens ?p) (collect_shared m T prp gens (Suc i)) ?s" for m
        using True \<open>i < length gens\<close> by (simp add: bnd_def poll_run)
      show ?thesis
      proof (cases "check_error (te_out T ?p)")
        case True
        with h obtain s1 where "harvest T prp gens ?p ?s = (Inl (SystemExit ''0''), s1)"
          by (cases "harvest T prp gens ?p ?s") auto
        then have "collect_shared m T prp gens i s = (Inl (SystemExit ''0''), s1)" if "1 \<le> m" for m
          using that c by (cases m) (auto simp: sq_run)
        moreover have "scanned T (drop i gens) gens s (Inl (SystemExit ''0''), s1)"
          using True d by (simp add: scanned_def)
        ultimately show ?thesis by blast
      next
        case False
        let ?s1 = "?s\<lparr>k_closed := ?p # k_closed s\<rparr>"
        have "collect_shared (Suc m) T prp gens i s = collect_shared m T prp gens (Suc i) ?s1" for m
          using c False h by (simp add: sq_run)
        moreover have "scanned T (drop i gens) gens s r" if "scanned T (drop (Suc i) gens) gens ?s1 r" for r
          using that d True False by (auto simp: scanned_def ended_def split: prod.splits sum.splits option.splits)
        ultimately show ?thesis
          using goes_on [of ?s1 gens] work_finished [of T "k_now s" "drop (Suc i) gens" ?p] u d
          by (auto simp: unread_def)
      qed
    qed
  qed
qed

text \<open>C34: The loop that is to keep at most eight generators running never lets the script go on
  when an error is looked for. Eight or more generators that run at its start, and whose
  outputs nobody has read yet, all end at some time; then the script is over: it exits with
  status 0 when one of them has found the error, otherwise it fails with \<open>ValueError\<close>, because
  the generators that have ended stay in the list and their closed outputs are read again.\<close>

theorem at_most_8_is_the_end:
  assumes "prp \<noteq> ''coverage''" and "8 \<le> length gens" and "distinct gens"
    and "set gens \<inter> set (k_closed s) = {}" and "\<forall>p \<in> set gens. te_end T p \<noteq> None"
  shows "\<exists>n. \<forall>fuel \<ge> n. fst (at_most_8 fuel T prp maingen gens s) =
    Inl (if \<exists>p \<in> set gens. check_error (te_out T p) then SystemExit ''0'' else ValueError)"
proof -
  let ?s = "s\<lparr>k_now := 2 + k_now s\<rparr>"
  have "unread T ?s (drop 0 gens)" using assms by (simp add: unread_def)
  from scanned_shared [OF assms(1) this] obtain n x s1 where
    r: "\<And>m. n \<le> m \<Longrightarrow> collect_shared m T prp gens 0 ?s = (x, s1)" and "scanned T gens gens ?s (x, s1)"
    by auto
  have round: "at_most_8 (Suc m) T prp maingen gs t =
      bnd (collect_shared m T prp gs 0) (at_most_8 m T prp maingen) (t\<lparr>k_now := 2 + k_now t\<rparr>)"
    if "8 \<le> length gs" for m gs t
    using assms(1) that by (simp add: main_finished_def sq_run sleep_run)
  show ?thesis
  proof (cases x)
    case (Inl e)
    with \<open>scanned T gens gens ?s (x, s1)\<close>
    have "e = SystemExit ''0''" "\<exists>p \<in> set gens. check_error (te_out T p)" by (auto simp: scanned_def)
    moreover have "fst (at_most_8 m T prp maingen gens s) = Inl e" if "Suc n \<le> m" for m
      using that round [OF assms(2)] r Inl by (cases m) (auto simp: bnd_def)
    ultimately show ?thesis by auto
  next
    case (Inr gens')
    with \<open>scanned T gens gens ?s (x, s1)\<close> obtain more where gens': "gens' = gens @ more"
      and closed: "set gens \<subseteq> set (k_closed s1)"
      and all: "\<forall>p \<in> set gens. ended T s1 p \<and> \<not> check_error (te_out T p)" by (auto simp: scanned_def)
    let ?p = "gens' ! 0"
    have p: "?p \<in> set gens" "0 < length gens'" using assms(2) gens' by (auto simp: nth_append)
    have "fst (at_most_8 m T prp maingen gens' s1) = Inl ValueError" if m: "2 \<le> m" for m
    proof -
      obtain k where k: "m = Suc (Suc k)" using le_Suc_ex [OF m] by auto
      let ?t = "s1\<lparr>k_now := 2 + k_now s1\<rparr>" and ?u = "s1\<lparr>k_now := Suc (2 + k_now s1)\<rparr>"
      have "ended T ?t ?p" using all p(1) by (auto simp: ended_def split: option.splits)
      moreover have "harvest T prp gens' ?p ?u = (Inl ValueError, ?u)"
        using harvest_closed [OF assms(1)] closed p(1) by auto
      ultimately have "collect_shared (Suc k) T prp gens' 0 ?t = (Inl ValueError, ?u)"
        using p(2) by (simp add: bnd_def poll_run sq_run)
      then show ?thesis
        using round [of gens' "Suc k" s1] assms(2) gens' k by (simp add: bnd_def)
    qed
    then have "fst (at_most_8 m T prp maingen gens s) = Inl ValueError" if "Suc (max n 2) \<le> m" for m
      using that round [OF assms(2)] r Inr by (cases m) (auto simp: bnd_def)
    with all show ?thesis by auto
  qed
qed

section \<open>What a step does to the processes\<close>

text \<open>Time does not run backwards, and no other KLEE is started.\<close>

definition no_new_klee :: "tester \<Rightarrow> tester \<Rightarrow> bool" where
  "no_new_klee s0 s \<longleftrightarrow> k_now s0 \<le> k_now s \<and>
     (\<exists>more. k_cmds s = k_cmds s0 @ more \<and> (\<forall>c \<in> set more. hd c \<noteq> ''klee''))"

lemma no_new_klee_refl [simp]: "no_new_klee s s"
  by (simp add: no_new_klee_def)

lemma no_new_klee_trans: "no_new_klee a b \<Longrightarrow> no_new_klee b c \<Longrightarrow> no_new_klee a c"
  by (fastforce simp: no_new_klee_def)

lemma no_new_klee_updates:
  assumes "no_new_klee s0 s"
  shows "no_new_klee s0 (k_killed_update f s)" "no_new_klee s0 (k_closed_update g s)"
    "(\<And>n. n \<le> h n) \<Longrightarrow> no_new_klee s0 (k_now_update h s)"
    "hd c \<noteq> ''klee'' \<Longrightarrow> no_new_klee s0 (k_cmds_update (\<lambda>l. l @ [c]) s)"
  using assms by (auto simp: no_new_klee_def intro: order_trans)

lemma keeps_sleep: "keeps (no_new_klee s0) (sleep n)"
  unfolding sleep_def by (intro inv_intros no_new_klee_updates le_add2)

lemma keeps_kill: "keeps (no_new_klee s0) (kill p)"
  unfolding kill_def by (intro inv_intros no_new_klee_updates)

lemma keeps_poll: "keeps (no_new_klee s0) (poll T p)"
  unfolding poll_def by (intro inv_intros no_new_klee_updates) simp_all

lemma keeps_wait: "keeps (no_new_klee s0) (wait T p)"
  unfolding wait_def by (cases "te_end T p") (auto intro!: inv_intros no_new_klee_updates)

lemma keeps_communicate: "keeps (no_new_klee s0) (communicate T p)"
  unfolding communicate_def by (intro inv_intros keeps_wait no_new_klee_updates) simp_all

lemma keeps_popen: "hd cmd \<noteq> ''klee'' \<Longrightarrow> keeps (no_new_klee s0) (popen T cmd)"
  unfolding popen_def by (intro inv_intros no_new_klee_updates) simp_all

lemmas quiet = keeps_sleep keeps_kill keeps_poll keeps_wait keeps_communicate keeps_popen

lemma keeps_kill_ended: "keeps (no_new_klee s0) (kill_ended T gens)"
  unfolding kill_ended_def by (intro inv_intros quiet)

lemma keeps_harvest: "keeps (no_new_klee s0) (harvest T prp gens p)"
  unfolding harvest_def by (intro inv_intros quiet keeps_kill_ended)

lemma keeps_main_finished: "keeps (no_new_klee s0) (main_finished T prp maingen)"
  unfolding main_finished_def by (cases maingen) (auto intro!: inv_intros quiet)

lemma keeps_find_criterions: "keeps (no_new_klee s0) (find_criterions T bitcode)"
  unfolding find_criterions_def Let_def
  by (intro inv_intros quiet) (auto intro!: inv_intros quiet split: option.split)

lemma keeps_constrain: "keeps (no_new_klee s0) (constrain_to_target T bitcode crit)"
  unfolding constrain_to_target_def Let_def
  by (intro inv_intros quiet) (auto intro!: inv_intros quiet split: option.split)

lemma keeps_sliceprocess: "keeps (no_new_klee s0) (sliceprocess T bitcode crit)"
  unfolding sliceprocess_def Let_def
  by (intro inv_intros keeps_constrain) (auto intro!: inv_intros quiet split: option.split)

lemma keeps_optimize_slice: "keeps (no_new_klee s0) (optimize_slice T bitcode)"
  unfolding optimize_slice_def Let_def by (intro inv_intros quiet) simp

lemma keeps_collect: "keeps (no_new_klee s0) (collect T prp gens ps)"
proof (induction ps)
  case (Cons p ps)
  then show ?case unfolding collect.simps by (intro inv_intros quiet keeps_harvest)
qed (simp add: keeps_ret)

lemma keeps_collect_shared: "keeps (no_new_klee s0) (collect_shared n T prp gens i)"
proof (induction n arbitrary: gens i)
  case (Suc n)
  then show ?case unfolding collect_shared.simps by (intro inv_intros quiet keeps_harvest)
qed (simp add: keeps_throw)

lemma keeps_at_most_8: "keeps (no_new_klee s0) (at_most_8 n T prp maingen gens)"
proof (induction n arbitrary: gens)
  case (Suc n)
  then show ?case unfolding at_most_8.simps
    by (intro inv_intros quiet keeps_main_finished keeps_collect_shared)
qed (simp add: keeps_throw)

lemma keeps_drain: "keeps (no_new_klee s0) (drain n T prp gens)"
proof (induction n arbitrary: gens)
  case (Suc n)
  then show ?case unfolding drain.simps by (intro inv_intros quiet keeps_collect)
qed (simp add: keeps_throw)

lemma no_new_kleeD: "(\<And>s0. keeps (no_new_klee s0) m) \<Longrightarrow> m s = (r, s') \<Longrightarrow> no_new_klee s s'"
  using keepsD [of "no_new_klee s" m s] by simp

lemma ended_later: "ended T s p \<Longrightarrow> no_new_klee s s' \<Longrightarrow> ended T s' p"
  by (auto simp: ended_def no_new_klee_def split: option.splits)

section \<open>No generator is lost\<close>

text \<open>Every KLEE that was started is in the list or has ended.\<close>

definition klee_started :: "tester_env \<Rightarrow> tester \<Rightarrow> nat set" where
  "klee_started T s = {p. p < length (k_cmds s) \<and> te_start T p \<and> hd (k_cmds s ! p) = ''klee''}"

definition tracked :: "tester_env \<Rightarrow> nat list \<Rightarrow> tester \<Rightarrow> bool" where
  "tracked T gens s \<longleftrightarrow> (\<forall>p \<in> klee_started T s. p \<in> set gens \<or> ended T s p)"

lemma klee_started_quiet: "no_new_klee s s' \<Longrightarrow> klee_started T s' = klee_started T s"
proof -
  assume "no_new_klee s s'"
  then obtain more where m: "k_cmds s' = k_cmds s @ more" "\<forall>c \<in> set more. hd c \<noteq> ''klee''"
    by (auto simp: no_new_klee_def)
  show ?thesis
  proof (rule set_eqI)
    fix p show "p \<in> klee_started T s' \<longleftrightarrow> p \<in> klee_started T s"
    proof (cases "p < length (k_cmds s)")
      case False
      then have "hd (k_cmds s' ! p) \<noteq> ''klee''" if "p < length (k_cmds s')"
        using m that nth_mem [of "p - length (k_cmds s)" more] by (simp add: nth_append)
      with False show ?thesis by (simp add: klee_started_def)
    qed (simp add: klee_started_def m(1) nth_append)
  qed
qed

lemma tracked_quiet:
  assumes "tracked T gens s" and "no_new_klee s s'"
    and "\<And>p. p \<in> set gens \<Longrightarrow> p \<in> set gens' \<or> ended T s' p"
  shows "tracked T gens' s'"
  using assms ended_later [OF _ assms(2)] unfolding tracked_def klee_started_quiet [OF assms(2)] by blast

lemma tracked_gentest:
  assumes "gentest T f outdir prp sfx params s = (Inr r, s')" and "tracked T gens s"
  shows "tracked T (gens @ (case r of None \<Rightarrow> [] | Some p \<Rightarrow> [p])) s'"
proof -
  let ?n = "length (k_cmds s)"
  from assms(1) have "\<exists>cmd. s' = s\<lparr>k_cmds := k_cmds s @ [cmd]\<rparr> \<and> r = (if te_start T ?n then Some ?n else None)"
    unfolding gentest_def popen_run by blast
  then obtain cmd where s': "s' = s\<lparr>k_cmds := k_cmds s @ [cmd]\<rparr>"
    and r: "r = (if te_start T ?n then Some ?n else None)" by blast
  have "p = ?n \<and> te_start T ?n \<or> p \<in> klee_started T s" if "p \<in> klee_started T s'" for p
    using that s' by (auto simp: klee_started_def nth_append less_Suc_eq split: if_splits)
  then show ?thesis
    using assms(2) r s' by (fastforce simp: tracked_def ended_def split: option.splits)
qed

lemma collect_tracks:
  "collect T prp gens ps s = (Inr ps', s') \<Longrightarrow> p \<in> set ps \<Longrightarrow> p \<in> set ps' \<or> ended T s' p"
proof (induction ps arbitrary: ps' s)
  case (Cons q ps)
  let ?s = "s\<lparr>k_now := Suc (k_now s)\<rparr>"
  show ?case
  proof (cases "ended T s q")
    case True
    with Cons.prems(1) obtain s1 where h: "harvest T prp gens q ?s = (Inr (), s1)"
      and c: "collect T prp gens ps s1 = (Inr ps', s')"
      by (auto simp: bnd_def poll_run sq_run split: prod.splits sum.splits)
    have "no_new_klee s ?s" by (simp add: no_new_klee_def)
    then have "no_new_klee s s'"
      using no_new_kleeD [OF keeps_harvest h] no_new_kleeD [OF keeps_collect c]
      by (blast intro: no_new_klee_trans)
    with True have "ended T s' q" by (rule ended_later)
    with Cons.IH [OF c] Cons.prems(2) show ?thesis by auto
  next
    case False
    with Cons.prems(1) obtain qs where "collect T prp gens ps ?s = (Inr qs, s')" "ps' = q # qs"
      by (auto simp: bnd_def poll_run cmd_run split: prod.splits sum.splits)
    with Cons.IH [OF this(1)] Cons.prems(2) show ?thesis by auto
  qed
qed simp

lemma collect_shared_grows:
  "collect_shared n T prp gens i s = (Inr gens', s') \<Longrightarrow> set gens \<subseteq> set gens'"
proof (induction n arbitrary: gens i s)
  case (Suc n)
  show ?case
  proof (cases "i < length gens")
    case True
    show ?thesis
    proof (cases "ended T s (gens ! i)")
      case True
      with Suc.prems \<open>i < length gens\<close> obtain s1 where "collect_shared n T prp gens (Suc i) s1 = (Inr gens', s')"
        by (auto simp: bnd_def poll_run sq_run split: prod.splits sum.splits)
      then show ?thesis by (rule Suc.IH)
    next
      case False
      with Suc.prems \<open>i < length gens\<close> obtain s1 where
        "collect_shared n T prp (gens @ [gens ! i]) (Suc i) s1 = (Inr gens', s')"
        by (auto simp: bnd_def poll_run)
      from Suc.IH [OF this] show ?thesis by simp
    qed
  qed (use Suc.prems in \<open>simp add: cmd_run\<close>)
qed (simp add: cmd_run)

lemma at_most_8_grows:
  "at_most_8 n T prp maingen gens s = (Inr gens', s') \<Longrightarrow> set gens \<subseteq> set gens'"
proof (induction n arbitrary: gens s)
  case (Suc n)
  show ?case
  proof (cases "8 \<le> length gens")
    case True
    with Suc.prems obtain fin s1 where f: "main_finished T prp maingen s = (Inr fin, s1)"
      and r: "(if fin then ret gens else sq (sleep 2)
        (bnd (collect_shared n T prp gens 0) (at_most_8 n T prp maingen))) s1 = (Inr gens', s')"
      by (auto simp: bnd_def split: prod.splits sum.splits)
    show ?thesis
    proof (cases fin)
      case False
      with r obtain g s2 s3 where "collect_shared n T prp gens 0 s2 = (Inr g, s3)"
        and "at_most_8 n T prp maingen g s3 = (Inr gens', s')"
        by (auto simp: bnd_def sq_run sleep_run split: prod.splits sum.splits)
      with collect_shared_grows Suc.IH show ?thesis by blast
    qed (use r in \<open>simp add: cmd_run\<close>)
  qed (use Suc.prems in \<open>simp add: cmd_run\<close>)
qed (simp add: cmd_run)

lemma drain_ends:
  "drain n T prp gens s = (Inr (), s') \<Longrightarrow> p \<in> set gens \<Longrightarrow> ended T s' p"
proof (induction n arbitrary: gens s)
  case (Suc n)
  then have "gens \<noteq> []" by auto
  with Suc.prems obtain gens' s1 where c: "collect T prp gens gens s = (Inr gens', s1)"
    and r: "onlyif (gens' \<noteq> []) (sq (sleep 2) (drain n T prp gens')) s1 = (Inr (), s')"
    by (auto simp: bnd_def split: prod.splits sum.splits)
  have q: "no_new_klee s1 s'"
    using no_new_kleeD [OF keeps_onlyif [OF keeps_sq [OF keeps_sleep keeps_drain]] r] .
  from collect_tracks [OF c Suc.prems(2)] show ?case
  proof
    assume "p \<in> set gens'"
    with r Suc.IH show ?case by (cases "gens' = []") (auto simp: sq_run sleep_run)
  next
    assume "ended T s1 p"
    then show ?case using q by (rule ended_later)
  qed
qed (simp add: cmd_run)

subsection \<open>The composition\<close>

lemma tracks_quiet:
  assumes "\<And>s0. keeps (no_new_klee s0) m"
  shows "triple (tracked T gens) m (\<lambda>_. tracked T gens) (\<lambda>_ _. True)"
proof -
  have "tracked T gens s'" if "m s = (r, s')" "tracked T gens s" for r s s'
    using tracked_quiet [OF that(2) no_new_kleeD [OF assms that(1)]] by blast
  then show ?thesis by (auto simp: triple_def split: prod.splits sum.splits)
qed

lemma tracks_gentest:
  "triple (tracked T gens) (gentest T f outdir prp sfx params)
     (\<lambda>r. tracked T (gens @ (case r of None \<Rightarrow> [] | Some p \<Rightarrow> [p]))) (\<lambda>_ _. True)"
  using tracked_gentest by (fastforce simp: triple_def split: prod.splits sum.splits)

lemma tracks_collect: "triple (tracked T gens) (collect T prp gens gens) (tracked T) (\<lambda>_ _. True)"
proof -
  have "tracked T gens' s'" if c: "collect T prp gens gens s = (Inr gens', s')" and "tracked T gens s" for gens' s s'
    using tracked_quiet [OF that(2) no_new_kleeD [OF keeps_collect c] collect_tracks [OF c]] .
  then show ?thesis by (auto simp: triple_def split: prod.splits sum.splits)
qed

lemma tracks_at_most_8:
  "triple (tracked T gens) (at_most_8 n T prp maingen gens) (tracked T) (\<lambda>_ _. True)"
proof -
  have "tracked T gens' s'" if c: "at_most_8 n T prp maingen gens s = (Inr gens', s')" and "tracked T gens s" for gens' s s'
    using tracked_quiet [OF that(2) no_new_kleeD [OF keeps_at_most_8 c]] at_most_8_grows [OF c] by blast
  then show ?thesis by (auto simp: triple_def split: prod.splits sum.splits)
qed

lemma tracks_new_generator:
  "triple (tracked T (gens @ (case r of None \<Rightarrow> [] | Some p \<Rightarrow> [p])))
     (new_generator fuel T prp maingen gens r) (\<lambda>x. tracked T (fst x)) (\<lambda>_ _. True)"
  unfolding new_generator_def
  by (cases r) (auto intro!: triple_ret triple_bnd [OF tracks_collect] triple_bnd [OF tracks_at_most_8])

lemma tracks_target:
  "triple (tracked T gens) (test_target fuel T prp outdir bitcode maingen n crit gens)
     (\<lambda>r. tracked T (fst r)) (\<lambda>_ _. True)"
  unfolding test_target_def test_slice_def
  by (rule triple_bnd [OF tracks_gentest tracks_new_generator] triple_bnd triple_if triple_option triple_pair
      tracks_quiet keeps_main_finished keeps_sliceprocess keeps_wait keeps_communicate keeps_optimize_slice |
      (rule triple_ret, simp; fail))+

lemma tracks_targets:
  "triple (tracked T gens) (targets fuel T prp outdir bitcode maingen n crits gens) (tracked T) (\<lambda>_ _. True)"
proof (induction crits arbitrary: n gens)
  case (Cons crit crits)
  show ?case unfolding targets.simps
    by (rule triple_bnd [OF tracks_target] triple_pair triple_if triple_ret | simp add: Cons)+
qed (simp add: triple_ret)

lemma tracks_start:
  "triple (tracked T []) (start_generators fuel T prp outdir bitcode) (tracked T) (\<lambda>_ _. True)"
  unfolding start_generators_def Let_def
  by (rule triple_bnd [OF tracks_gentest] triple_bnd [OF tracks_quiet] keeps_find_criterions
      triple_option triple_pair tracks_targets | (rule triple_ret, simp; fail))+

text \<open>The script returns without \<open>exit\<close> only when every KLEE it has started has ended, whatever
  the processes do: the main one, those for the targets, and those that were running when the
  loop over the targets was left early. With coverage the last thing it does, and so after the
  main KLEE, is to remove the tests of the others.\<close>

lemma returns_when_all_ended:
  assumes "kleetester fuel T args s = (Inr (), s')" and "k_cmds s = []"
  shows "\<exists>prog prp outdir bitcode. args = [prog, prp, outdir, bitcode] \<and>
    (\<forall>p < length (k_cmds s'). te_start T p \<and> hd (k_cmds s' ! p) = ''klee'' \<longrightarrow>
       (\<exists>t. te_end T p = Some t \<and> t \<le> k_now s')) \<and>
    (prp = ''coverage'' \<longrightarrow> last (k_cmds s') = [''rm'', ''-f'', outdir @ ''/test*.*.xml''])"
proof -
  from assms(1) obtain prog prp outdir bitcode where args: "args = [prog, prp, outdir, bitcode]"
    by (auto simp: kleetester_def cmd_run split: list.splits)
  with assms(1) obtain gens s1 s2 where g: "start_generators fuel T prp outdir bitcode s = (Inr gens, s1)"
    and d: "drain fuel T prp gens s1 = (Inr (), s2)"
    and r: "onlyif (prp = ''coverage'') (bnd (popen T [''rm'', ''-f'', outdir @ ''/test*.*.xml'']) (\<lambda>_. ret ())) s2 =
      (Inr (), s')"
    by (auto simp: kleetester_def bnd_def sq_run split: prod.splits sum.splits)
  have "tracked T [] s" using assms(2) by (simp add: tracked_def klee_started_def)
  with g tracks_start [of T fuel prp outdir bitcode] have "tracked T gens s1"
    by (auto simp: triple_def split: prod.splits sum.splits)
  then have "tracked T [] s2"
    using tracked_quiet [OF _ no_new_kleeD [OF keeps_drain d]] drain_ends [OF d] by blast
  moreover have "no_new_klee s2 s'"
    using no_new_kleeD [OF keeps_onlyif [OF keeps_bnd [OF keeps_popen keeps_ret]] r] by simp
  ultimately have "tracked T [] s'" using tracked_quiet by blast
  moreover have "last (k_cmds s') = [''rm'', ''-f'', outdir @ ''/test*.*.xml'']" if "prp = ''coverage''"
    using r that by (auto simp: bnd_def popen_run cmd_run)
  ultimately show ?thesis
    using args by (auto simp: tracked_def klee_started_def ended_def split: option.splits)
qed

section \<open>With coverage the script ends\<close>

text \<open>Every program can be started and ends.\<close>

definition all_end :: "tester_env \<Rightarrow> bool" where
  "all_end T \<longleftrightarrow> (\<forall>p. te_start T p \<and> te_end T p \<noteq> None)"

text \<open>From every state with \<open>P\<close>, the commands all do the same from some bound on: they return, with
  \<open>Q\<close>.\<close>

definition settles :: "(tester \<Rightarrow> bool) \<Rightarrow> (nat \<Rightarrow> 'a tstep) \<Rightarrow> ('a \<Rightarrow> tester \<Rightarrow> bool) \<Rightarrow> bool" where
  "settles P m Q \<longleftrightarrow> (\<forall>s. P s \<longrightarrow> (\<exists>n x s'. Q x s' \<and> (\<forall>k \<ge> n. m k s = (Inr x, s'))))"

lemma settlesI: "(\<And>s. P s \<Longrightarrow> \<exists>x s'. m s = (Inr x, s') \<and> Q x s') \<Longrightarrow> settles P (\<lambda>_. m) Q"
  unfolding settles_def by blast

lemma settles_bnd:
  assumes "settles P m R" and "\<And>x. settles (R x) (\<lambda>k. f k x) Q"
  shows "settles P (\<lambda>k. bnd (m k) (f k)) Q"
  unfolding settles_def
proof (intro allI impI)
  fix s assume "P s"
  with assms(1) obtain n x s1 where "R x s1" and m: "\<And>k. n \<le> k \<Longrightarrow> m k s = (Inr x, s1)"
    unfolding settles_def by metis
  with assms(2) obtain n' y s' where "Q y s'" and f: "\<And>k. n' \<le> k \<Longrightarrow> f k x s1 = (Inr y, s')"
    unfolding settles_def by metis
  moreover have "bnd (m k) (f k) s = (Inr y, s')" if "max n n' \<le> k" for k
    using that m f by (simp add: bnd_def)
  ultimately show "\<exists>n y s'. Q y s' \<and> (\<forall>k \<ge> n. bnd (m k) (f k) s = (Inr y, s'))" by blast
qed

lemma settles_sq: "settles P m (\<lambda>_. R) \<Longrightarrow> settles R f Q \<Longrightarrow> settles P (\<lambda>k. sq (m k) (f k)) Q"
  unfolding sq_def by (rule settles_bnd)

lemma settles_if:
  "(b \<Longrightarrow> settles P m Q) \<Longrightarrow> (\<not> b \<Longrightarrow> settles P m' Q) \<Longrightarrow> settles P (\<lambda>k. if b then m k else m' k) Q"
  by (cases b) auto

lemma settles_option:
  "(x = None \<Longrightarrow> settles P m Q) \<Longrightarrow> (\<And>y. x = Some y \<Longrightarrow> settles P (\<lambda>k. f k y) Q) \<Longrightarrow>
    settles P (\<lambda>k. case x of None \<Rightarrow> m k | Some y \<Rightarrow> f k y) Q"
  by (cases x) auto

lemma settles_pair:
  "(\<And>a b. x = (a, b) \<Longrightarrow> settles P (\<lambda>k. f k a b) Q) \<Longrightarrow> settles P (\<lambda>k. case x of (a, b) \<Rightarrow> f k a b) Q"
  by (cases x) auto

lemma settles_ret: "(\<And>s. P s \<Longrightarrow> Q x s) \<Longrightarrow> settles P (\<lambda>_. ret x) Q"
  by (rule settlesI) (simp add: cmd_run)

text \<open>A loop with a bound of its own, and a step for which one more unit of it is needed.\<close>

lemma settles_Suc:
  assumes "settles P (\<lambda>k. m (Suc k)) Q"
  shows "settles P m Q"
  unfolding settles_def
proof (intro allI impI)
  fix s assume "P s"
  with assms obtain n x s' where "Q x s'" and m: "\<And>k. n \<le> k \<Longrightarrow> m (Suc k) s = (Inr x, s')"
    unfolding settles_def by metis
  moreover have "m k s = (Inr x, s')" if "Suc n \<le> k" for k using that m by (cases k) auto
  ultimately show "\<exists>n x s'. Q x s' \<and> (\<forall>k \<ge> n. m k s = (Inr x, s'))" by blast
qed

text \<open>No output of a process that is still to be started was read.\<close>

definition fresh :: "tester \<Rightarrow> bool" where
  "fresh s \<longleftrightarrow> (\<forall>p \<in> set (k_closed s). p < length (k_cmds s))"

definition fresh_since :: "nat \<Rightarrow> tester \<Rightarrow> bool" where
  "fresh_since t s \<longleftrightarrow> fresh s \<and> t \<le> k_now s"

lemma settles_poll:
  "settles (fresh_since t) (\<lambda>_. poll T p) (\<lambda>r s. fresh_since (Suc t) s \<and> (r = None \<longrightarrow> \<not> (\<exists>e. te_end T p = Some e \<and> e \<le> t)))"
  by (rule settlesI) (auto simp: poll_run fresh_since_def fresh_def ended_def split: option.splits)

lemma settles_sleep: "settles (fresh_since t) (\<lambda>_. sleep n) (\<lambda>_. fresh_since (n + t))"
  by (rule settlesI) (auto simp: sleep_run fresh_since_def fresh_def)

text \<open>The process was started and its output not read.\<close>

definition open_since :: "nat \<Rightarrow> nat \<Rightarrow> tester \<Rightarrow> bool" where
  "open_since t p s \<longleftrightarrow> fresh_since t s \<and> p \<notin> set (k_closed s) \<and> p < length (k_cmds s)"

lemma settles_wait:
  assumes "all_end T"
  shows "settles (fresh_since t) (\<lambda>_. wait T p) (\<lambda>_. fresh_since t)"
    and "settles (open_since t q) (\<lambda>_. wait T p) (\<lambda>_. open_since t q)"
  using assms
  by (auto intro!: settlesI simp: wait_run open_since_def fresh_since_def fresh_def all_end_def split: option.split)

lemma settles_communicate:
  assumes "all_end T"
  shows "settles (open_since t p) (\<lambda>_. communicate T p) (\<lambda>_. fresh_since t)"
  using assms
  by (auto intro!: settlesI simp: communicate_def bnd_def sq_run cmd_run wait_run open_since_def fresh_since_def
      fresh_def all_end_def split: option.split)

lemma settles_popen:
  assumes "all_end T"
  shows "settles (fresh_since t) (\<lambda>_. popen T cmd) (\<lambda>r s. \<exists>p. r = Some p \<and> open_since t p s)"
  using assms
  by (auto intro!: settlesI less_SucI simp: popen_run open_since_def fresh_since_def fresh_def all_end_def)

lemma settles_weaken:
  "settles P m Q \<Longrightarrow> (\<And>s. P' s \<Longrightarrow> P s) \<Longrightarrow> (\<And>x s. Q x s \<Longrightarrow> Q' x s) \<Longrightarrow> settles P' m Q'"
  unfolding settles_def by metis

lemma settles_started:
  assumes "\<And>p. settles (open_since t p) (\<lambda>k. f k p) Q"
  shows "settles (\<lambda>s. \<exists>p. r = Some p \<and> open_since t p s) (\<lambda>k. case r of None \<Rightarrow> m k | Some p \<Rightarrow> f k p) Q"
  using assms by (cases r) (auto simp: settles_def)

lemma open_fresh: "open_since t p s \<Longrightarrow> fresh_since t s"
  by (simp add: open_since_def)

lemma fresh_Suc: "fresh_since (Suc t) s \<Longrightarrow> fresh_since t s"
  by (simp add: fresh_since_def)

lemma settles_find_criterions:
  assumes "all_end T"
  shows "settles (fresh_since t) (\<lambda>_. find_criterions T bitcode) (\<lambda>_. fresh_since t)"
  unfolding find_criterions_def Let_def
  by (rule settles_bnd [OF settles_popen [OF assms] settles_started] settles_bnd
        [OF settles_communicate [OF assms]] settles_bnd [OF settles_poll])+
    (auto intro!: settles_ret dest: fresh_Suc)

lemma settles_constrain:
  assumes "all_end T"
  shows "settles (fresh_since t) (\<lambda>_. constrain_to_target T bitcode crit) (\<lambda>_. fresh_since t)"
  unfolding constrain_to_target_def Let_def
  by (rule settles_bnd [OF settles_popen [OF assms] settles_started] settles_bnd [OF settles_wait(2) [OF assms]]
        settles_bnd [OF settles_communicate [OF assms]] settles_if | (rule settles_ret, erule open_fresh)
      | (rule settles_ret, assumption))+

lemma settles_sliceprocess:
  assumes "all_end T"
  shows "settles (fresh_since t) (\<lambda>_. sliceprocess T bitcode crit)
    (\<lambda>r s. case fst r of None \<Rightarrow> fresh_since t s | Some p \<Rightarrow> open_since t p s)"
  unfolding sliceprocess_def Let_def
  by (rule settles_bnd [OF settles_constrain [OF assms]] settles_option settles_bnd [OF settles_popen [OF assms]]
        settles_ret | auto)+

lemma settles_optimize:
  assumes "all_end T"
  shows "settles (fresh_since t) (\<lambda>_. optimize_slice T bitcode) (\<lambda>_. fresh_since t)"
proof -
  have "settles (\<lambda>s. \<exists>p. r = Some p \<and> open_since t p s)
      (\<lambda>_. bnd (lift (of_opt AttributeError r)) (\<lambda>p. bnd (wait T p) (\<lambda>_. ret out))) (\<lambda>_. fresh_since t)" for r out
  proof (cases r)
    case (Some p)
    have "(lift (Inr p) :: nat tstep) = ret p" by (simp add: lift_def ret_def)
    then show ?thesis
      using Some by (auto intro!: settles_bnd [OF settles_wait(2) [OF assms]] settles_ret dest: open_fresh)
  qed (simp add: settles_def)
  then show ?thesis unfolding optimize_slice_def Let_def by (rule settles_bnd [OF settles_popen [OF assms]])
qed

lemma settles_main_finished:
  "settles (fresh_since t) (\<lambda>_. main_finished T ''coverage'' (Some p))
    (\<lambda>fin s. fresh_since t s \<and> (\<not> fin \<longrightarrow> \<not> (\<exists>e. te_end T p = Some e \<and> e \<le> t)))"
  unfolding main_finished_def option.case if_P [OF refl]
  by (rule settles_bnd [OF settles_poll]) (auto intro!: settles_ret dest: fresh_Suc)

lemma still_running:
  assumes "all_end T" and "\<not> (\<exists>e. te_end T p = Some e \<and> e \<le> t)"
  shows "t < the (te_end T p)"
proof -
  obtain e where "te_end T p = Some e" using assms(1) unfolding all_end_def by blast
  with assms(2) show ?thesis by auto
qed

lemma harvest_coverage [simp]: "harvest T ''coverage'' gens p = ret ()"
  by (simp add: harvest_def)

lemma settles_collect:
  "settles (fresh_since t) (\<lambda>_. collect T ''coverage'' gens ps) (\<lambda>ps' s. fresh_since t s \<and>
     (\<forall>p \<in> set ps'. p \<in> set ps \<and> \<not> (\<exists>e. te_end T p = Some e \<and> e \<le> t)))"
proof (induction ps)
  case (Cons p ps)
  show ?case unfolding collect.simps harvest_coverage sq_ret
  proof (rule settles_bnd [OF settles_poll], rule settles_if)
    fix r show "settles (\<lambda>s. fresh_since (Suc t) s \<and> (r = None \<longrightarrow> \<not> (\<exists>e. te_end T p = Some e \<and> e \<le> t)))
        (\<lambda>_. collect T ''coverage'' gens ps)
        (\<lambda>ps' s. fresh_since t s \<and> (\<forall>q \<in> set ps'. q \<in> set (p # ps) \<and> \<not> (\<exists>e. te_end T q = Some e \<and> e \<le> t)))"
      by (rule settles_weaken [OF Cons]) (auto dest: fresh_Suc)
  next
    fix r :: "int option" assume r: "\<not> r \<noteq> None"
    show "settles (\<lambda>s. fresh_since (Suc t) s \<and> (r = None \<longrightarrow> \<not> (\<exists>e. te_end T p = Some e \<and> e \<le> t)))
        (\<lambda>_. bnd (collect T ''coverage'' gens ps) (\<lambda>ns. ret (p # ns)))
        (\<lambda>ps' s. fresh_since t s \<and> (\<forall>q \<in> set ps'. q \<in> set (p # ps) \<and> \<not> (\<exists>e. te_end T q = Some e \<and> e \<le> t)))"
    proof (cases "\<exists>e. te_end T p = Some e \<and> e \<le> t")
      case True
      with r show ?thesis by (simp add: settles_def)
    next
      case False
      then show ?thesis
        by (intro settles_bnd [OF settles_weaken [OF Cons]] settles_ret) (auto dest: fresh_Suc)
    qed
  qed
qed (simp add: settles_ret)

lemma settles_collect_shared:
  assumes "all_end T"
  shows "settles (fresh_since t) (\<lambda>k. collect_shared k T ''coverage'' gens i) (\<lambda>_. fresh_since t)"
proof (induction "work T t (drop i gens)" arbitrary: gens i t rule: less_induct)
  case less
  show ?case
  proof (rule settles_Suc, unfold collect_shared.simps harvest_coverage sq_ret, rule settles_if)
    assume i: "i < length gens"
    then have d: "drop i gens = gens ! i # drop (Suc i) gens" by (rule Cons_nth_drop_Suc [symmetric])
    show "settles (fresh_since t) (\<lambda>k. bnd (poll T (gens ! i)) (\<lambda>r. if r \<noteq> None
          then collect_shared k T ''coverage'' gens (Suc i)
          else collect_shared k T ''coverage'' (gens @ [gens ! i]) (Suc i))) (\<lambda>_. fresh_since t)"
    proof (rule settles_bnd [OF settles_poll], rule settles_if)
      fix r
      show "settles (\<lambda>s. fresh_since (Suc t) s \<and> (r = None \<longrightarrow> \<not> (\<exists>e. te_end T (gens ! i) = Some e \<and> e \<le> t)))
          (\<lambda>k. collect_shared k T ''coverage'' gens (Suc i)) (\<lambda>_. fresh_since t)"
        using less [of "Suc t" "Suc i" gens] work_finished [of T t "drop (Suc i) gens" "gens ! i"] d
        by (auto intro: settles_weaken dest: fresh_Suc)
    next
      fix r :: "int option" assume r: "\<not> r \<noteq> None"
      show "settles (\<lambda>s. fresh_since (Suc t) s \<and> (r = None \<longrightarrow> \<not> (\<exists>e. te_end T (gens ! i) = Some e \<and> e \<le> t)))
          (\<lambda>k. collect_shared k T ''coverage'' (gens @ [gens ! i]) (Suc i)) (\<lambda>_. fresh_since t)"
      proof (cases "\<exists>e. te_end T (gens ! i) = Some e \<and> e \<le> t")
        case True
        with r show ?thesis by (simp add: settles_def)
      next
        case False
        then have "work T (Suc t) (drop (Suc i) gens @ [gens ! i]) < work T t (drop i gens)"
          using work_running [of T "\<lparr>k_cmds = [], k_now = t, k_closed = [], k_killed = []\<rparr>" "gens ! i" "drop (Suc i) gens"]
            assms d by (auto simp: ended_def all_end_def split: option.splits)
        with less [of "Suc t" "Suc i" "gens @ [gens ! i]"] i show ?thesis
          by (auto intro: settles_weaken dest: fresh_Suc)
      qed
    qed
  qed (rule settles_ret)
qed

lemma settles_at_most_8:
  assumes "all_end T"
  shows "settles (fresh_since t) (\<lambda>k. at_most_8 k T ''coverage'' (Some p) gens) (\<lambda>_. fresh_since t)"
proof (induction "Suc (the (te_end T p)) - t" arbitrary: gens t rule: less_induct)
  case less
  show ?case
  proof (rule settles_Suc, unfold at_most_8.simps, rule settles_if, rule settles_bnd [OF settles_main_finished],
      rule settles_if)
    fix fin assume "\<not> fin"
    show "settles (\<lambda>s. fresh_since t s \<and> (\<not> fin \<longrightarrow> \<not> (\<exists>e. te_end T p = Some e \<and> e \<le> t)))
        (\<lambda>k. sq (sleep 2) (bnd (collect_shared k T ''coverage'' gens 0) (at_most_8 k T ''coverage'' (Some p))))
        (\<lambda>_. fresh_since t)"
    proof (cases "\<exists>e. te_end T p = Some e \<and> e \<le> t")
      case True
      with \<open>\<not> fin\<close> show ?thesis by (simp add: settles_def)
    next
      case False
      then have "Suc (the (te_end T p)) - (2 + t) < Suc (the (te_end T p)) - t"
        using still_running [OF assms False] by simp
      note less [OF this]
      then have "settles (fresh_since t)
          (\<lambda>k. sq (sleep 2) (bnd (collect_shared k T ''coverage'' gens 0) (at_most_8 k T ''coverage'' (Some p))))
          (\<lambda>_. fresh_since (2 + t))"
        by (intro settles_sq [OF settles_sleep] settles_bnd [OF settles_collect_shared [OF assms]])
      then show ?thesis by (rule settles_weaken) (auto simp: fresh_since_def)
    qed
  qed (auto intro: settles_ret)
qed

lemma settles_drain:
  assumes "all_end T" and "\<forall>p \<in> set gens. the (te_end T p) \<le> M"
  shows "settles (fresh_since t) (\<lambda>k. drain k T ''coverage'' gens) (\<lambda>_. fresh_since t)"
  using assms(2)
proof (induction "Suc M - t" arbitrary: gens t rule: less_induct)
  case less
  show ?case
  proof (rule settles_Suc, unfold drain.simps onlyif_def, rule settles_if,
      rule settles_bnd [OF settles_collect], rule settles_if)
    fix gens'
    let ?P = "\<lambda>s. fresh_since t s \<and> (\<forall>p \<in> set gens'. p \<in> set gens \<and> \<not> (\<exists>e. te_end T p = Some e \<and> e \<le> t))"
    assume "gens' \<noteq> []"
    show "settles ?P (\<lambda>k. sq (sleep 2) (drain k T ''coverage'' gens')) (\<lambda>_. fresh_since t)"
    proof (cases "\<forall>p \<in> set gens'. p \<in> set gens \<and> \<not> (\<exists>e. te_end T p = Some e \<and> e \<le> t)")
      case True
      moreover from \<open>gens' \<noteq> []\<close> obtain p where "p \<in> set gens'" by (cases gens') auto
      ultimately have "p \<in> set gens" "t < the (te_end T p)" using still_running [OF assms(1)] by blast+
      then have "Suc M - (2 + t) < Suc M - t" using less.prems by fastforce
      moreover have "\<forall>p \<in> set gens'. the (te_end T p) \<le> M" using True less.prems by blast
      ultimately have "settles (fresh_since t) (\<lambda>k. sq (sleep 2) (drain k T ''coverage'' gens'))
          (\<lambda>_. fresh_since (2 + t))"
        using less.hyps by (intro settles_sq [OF settles_sleep])
      then show ?thesis by (rule settles_weaken) (auto simp: fresh_since_def)
    qed (auto simp: settles_def)
  qed (auto intro: settles_ret)
qed

lemma settles_new_generator:
  assumes "all_end T"
  shows "settles (\<lambda>s. \<exists>p. r = Some p \<and> open_since t p s)
    (\<lambda>k. new_generator k T ''coverage'' (Some m) gens r) (\<lambda>_. fresh_since t)"
proof -
  have "settles (fresh_since t) (\<lambda>_. collect T ''coverage'' g g) (\<lambda>_. fresh_since t)" for g
    by (rule settles_weaken [OF settles_collect]) auto
  then have pool: "settles (fresh_since t) (\<lambda>k. bnd (collect T ''coverage'' g g) (\<lambda>gens1.
      bnd (at_most_8 k T ''coverage'' (Some m) gens1) (\<lambda>gens2. ret (gens2, False)))) (\<lambda>_. fresh_since t)" for g
    by (intro settles_bnd [OF _ settles_bnd [OF settles_at_most_8 [OF assms]]] settles_ret)
  show ?thesis unfolding new_generator_def
    by (rule settles_started, rule settles_weaken [OF pool]) (auto dest: open_fresh)
qed

lemma settles_main_checked:
  "settles (fresh_since t) (\<lambda>_. main_finished T ''coverage'' (Some m)) (\<lambda>_. fresh_since t)"
  by (rule settles_weaken [OF settles_main_finished]) auto

lemma settles_slice:
  assumes "all_end T"
  shows "settles (open_since t sl) (\<lambda>k. test_slice k T ''coverage'' outdir (Some m) n gens sliced sl)
    (\<lambda>_. fresh_since t)"
proof -
  have opt: "settles (open_since t sl) (\<lambda>_. optimize_slice T sliced) (\<lambda>_. fresh_since t)"
    by (rule settles_weaken [OF settles_optimize [OF assms]]) (auto dest: open_fresh)
  show ?thesis unfolding test_slice_def gentest_def
    by (rule settles_bnd [OF settles_wait(2) [OF assms]] settles_if settles_bnd [OF settles_communicate [OF assms]]
        settles_bnd [OF settles_main_checked]
        settles_bnd [OF settles_popen [OF assms] settles_new_generator [OF assms]]
        settles_bnd [OF opt] settles_ret | assumption)+
qed

lemma settles_target:
  assumes "all_end T"
  shows "settles (fresh_since t)
    (\<lambda>k. test_target k T ''coverage'' outdir bitcode (Some m) n crit gens) (\<lambda>_. fresh_since t)"
  unfolding test_target_def
proof (rule settles_bnd [OF settles_main_checked], rule settles_if, rule settles_ret, assumption,
    rule settles_bnd [OF settles_sliceprocess [OF assms]], rule settles_pair)
  fix r slicer sliced
  assume r: "r = (slicer :: nat option, sliced :: string)"
  show "settles (\<lambda>s. case fst r of None \<Rightarrow> fresh_since t s | Some p \<Rightarrow> open_since t p s)
    (\<lambda>k. case slicer of None \<Rightarrow> ret (gens, False)
      | Some sl \<Rightarrow> test_slice k T ''coverage'' outdir (Some m) n gens sliced sl) (\<lambda>_. fresh_since t)"
    using settles_slice [OF assms] r by (cases slicer) (auto intro: settles_ret)
qed

lemma settles_targets:
  assumes "all_end T"
  shows "settles (fresh_since t)
    (\<lambda>k. targets k T ''coverage'' outdir bitcode (Some m) n crits gens) (\<lambda>_. fresh_since t)"
proof (induction crits arbitrary: n gens)
  case (Cons crit crits)
  show ?case unfolding targets.simps
    by (rule settles_bnd [OF settles_target [OF assms]] settles_pair settles_if settles_ret Cons | assumption)+
qed (simp add: settles_ret)

lemma settles_kleetester:
  assumes "all_end T"
  shows "settles (fresh_since t) (\<lambda>k. kleetester k T [prog, ''coverage'', outdir, bitcode]) (\<lambda>_ _. True)"
proof -
  have rest: "settles (fresh_since t) (\<lambda>k. sq (drain k T ''coverage'' gens) (onlyif (''coverage'' = ''coverage'')
      (bnd (popen T [''rm'', ''-f'', outdir @ ''/test*.*.xml'']) (\<lambda>_. ret ())))) (\<lambda>_ _. True)" for gens
  proof -
    have "\<forall>p \<in> set gens. the (te_end T p) \<le> Max (set (map (\<lambda>p. the (te_end T p)) gens))" by simp
    from settles_drain [OF assms this] show ?thesis
      by (rule settles_sq) (simp add: settles_def bnd_def popen_run cmd_run)
  qed
  have main: "settles (\<lambda>s. \<exists>p. maingen = Some p \<and> open_since t p s) (\<lambda>k. bnd (find_criterions T bitcode) (\<lambda>found.
      let gens = [] @ (case maingen of None \<Rightarrow> [] | Some p \<Rightarrow> [p])
      in case found of None \<Rightarrow> ret gens
         | Some (withcrits, crits) \<Rightarrow> targets k T ''coverage'' outdir withcrits maingen 0 (rev crits) gens))
      (\<lambda>_. fresh_since t)" for maingen
  proof (cases maingen)
    case (Some p)
    have "settles (fresh_since t) (\<lambda>k. bnd (find_criterions T bitcode) (\<lambda>found. case found of None \<Rightarrow> ret [p]
         | Some (withcrits, crits) \<Rightarrow> targets k T ''coverage'' outdir withcrits (Some p) 0 (rev crits) [p]))
        (\<lambda>_. fresh_since t)"
      by (rule settles_bnd [OF settles_find_criterions [OF assms]] settles_option settles_pair
          settles_targets [OF assms] settles_ret | assumption)+
    then show ?thesis using Some by (auto simp: Let_def intro: settles_weaken dest: open_fresh)
  qed (simp add: settles_def)
  show ?thesis
    unfolding kleetester_def list.case start_generators_def gentest_def
    by (rule settles_bnd [OF settles_bnd [OF settles_popen [OF assms] main] rest])
qed

lemma coverage_settles:
  assumes "\<forall>p. te_start T p \<and> te_end T p \<noteq> None" and "k_cmds s = []" and "k_closed s = []"
  shows "\<exists>n s'. (\<forall>fuel \<ge> n. kleetester fuel T [prog, ''coverage'', outdir, bitcode] s = (Inr (), s')) \<and>
    (\<forall>p < length (k_cmds s'). hd (k_cmds s' ! p) = ''klee'' \<longrightarrow>
       (\<exists>t. te_end T p = Some t \<and> t \<le> k_now s')) \<and>
    last (k_cmds s') = [''rm'', ''-f'', outdir @ ''/test*.*.xml'']"
proof -
  have "all_end T" "fresh_since 0 s" using assms by (simp_all add: all_end_def fresh_since_def fresh_def)
  with settles_kleetester obtain n s' where
    r: "\<forall>fuel \<ge> n. kleetester fuel T [prog, ''coverage'', outdir, bitcode] s = (Inr (), s')"
    unfolding settles_def by (metis (full_types) old.unit.exhaust)
  then have "kleetester n T [prog, ''coverage'', outdir, bitcode] s = (Inr (), s')" by simp
  from returns_when_all_ended [OF this assms(2)] r assms(1) show ?thesis by auto
qed

text \<open>C33: Started by the target of TEST-COMP for coverage, the generation of tests ends when every
  program it runs can be started and ends (KLEE has a time limit then): the loops that wait for
  generators finish after finitely many rounds, whatever the order in which the processes end. It
  returns without an exception; every KLEE it has started has ended by then, and the last thing
  it does, so after the main KLEE, is to remove the tests of the others.\<close>

theorem coverage_run_ends:
  assumes "testcomp_cmdline os p prog opts tasks = Inr args" and "args ! 1 = ''coverage''"
    and "\<forall>p. te_start T p \<and> te_end T p \<noteq> None" and "k_cmds s = []" and "k_closed s = []"
  shows "\<exists>n s'. (\<forall>fuel \<ge> n. kleetester fuel T args s = (Inr (), s')) \<and>
    (\<forall>p < length (k_cmds s'). hd (k_cmds s' ! p) = ''klee'' \<longrightarrow>
       (\<exists>t. te_end T p = Some t \<and> t \<le> k_now s')) \<and>
    last (k_cmds s') = [''rm'', ''-f'', testsuite_output os @ ''/test*.*.xml'']"
proof -
  from assms(1,2) obtain f where "args = [prog, ''coverage'', testsuite_output os, f]"
    by (auto simp: testcomp_cmdline_def length_Suc_conv split: if_splits)
  with coverage_settles [OF assms(3-5)] show ?thesis by blast
qed

section \<open>Concrete runs\<close>

text \<open>All programs start and have ended at time 5; there is one target.\<close>

definition quick_env :: tester_env where
  "quick_env = \<lparr>te_start = (\<lambda>_. True), te_end = (\<lambda>_. Some 5), te_code = (\<lambda>_. 0), te_out = (\<lambda>_. ''main'')\<rparr>"

definition quick_state :: tester where
  "quick_state = \<lparr>k_cmds = [], k_now = 0, k_closed = [], k_killed = []\<rparr>"

theorem at_most_8_is_the_end_witness:
  "\<exists>n. \<forall>fuel. fst (at_most_8 (n + fuel) quick_env ''__VERIFIER_error'' (Some 0) [0, 3, 6, 9, 12, 15, 18, 21]
    quick_state) = Inl ValueError"
proof -
  have "\<not> check_error ''main''" by code_simp
  then obtain n where "\<forall>fuel \<ge> n. fst (at_most_8 fuel quick_env ''__VERIFIER_error'' (Some 0)
      [0, 3, 6, 9, 12, 15, 18, 21] quick_state) = Inl ValueError"
    using at_most_8_is_the_end [of "''__VERIFIER_error''" "[0, 3, 6, 9, 12, 15, 18, 21]" quick_state quick_env "Some 0"]
    by (auto simp: quick_env_def quick_state_def)
  then show ?thesis by (metis le_add1)
qed

theorem coverage_run_ends_witness:
  "\<exists>n s'. kleetester n quick_env [''kleetester.py'', ''coverage'', testsuite_output plain_options, ''a.bc''] quick_state =
      (Inr (), s') \<and> last (k_cmds s') = [''rm'', ''-f'', testsuite_output plain_options @ ''/test*.*.xml'']"
proof -
  have "testcomp_cmdline plain_options (make_prop TerminationProp None) ''kleetester.py'' [] [''a.bc''] =
      Inr [''kleetester.py'', ''coverage'', testsuite_output plain_options, ''a.bc'']"
    by (simp add: testcomp_cmdline_def errorcall_def make_prop_def)
  moreover have "\<forall>p. te_start quick_env p \<and> te_end quick_env p \<noteq> None" "k_cmds quick_state = []"
    "k_closed quick_state = []" by (simp_all add: quick_env_def quick_state_def)
  ultimately show ?thesis using coverage_run_ends [of plain_options "make_prop TerminationProp None"
      "''kleetester.py''" "[]" "[''a.bc'']" _ quick_env quick_state] by fastforce
qed

end
