(* ===== verification/SearchPath.thy ===== *)
theory SearchPath
  imports Environ
begin

text \<open>
  What the environment is for: \<open>PATH\<close> as a list of directories (\<open>environment.py\<close> and
  \<open>set_environment\<close> of \<open>witchklee.py\<close>), which the texts of the variables refine.
\<close>

section \<open>Search paths\<close>

text \<open>A variable as a list of directories.\<close>

definition search_path :: "(string \<rightharpoonup> string) \<Rightarrow> string \<Rightarrow> string list" where
  "search_path vars k = (case vars k of None \<Rightarrow> [] | Some v \<Rightarrow> split_on (CHR '':'') v)"

text \<open>The operations on the texts refine operations on lists.\<close>

lemma search_path_prepended:
  "search_path (prepended k w vars) = (search_path vars)(k := split_on (CHR '':'') w @ search_path vars k)"
  by (auto simp: search_path_def prepended_def split_on_join2 fun_eq_iff split: option.split)

lemma search_path_appended:
  "search_path (appended k w vars) = (search_path vars)(k := search_path vars k @ split_on (CHR '':'') w)"
  by (auto simp: search_path_def appended_def split_on_join2 fun_eq_iff split: option.split)

text \<open>The directories of \<open>PATH\<close>, newest first, for a development directory or a distribution.\<close>

definition own_dirs :: "bool \<Rightarrow> string \<Rightarrow> string \<Rightarrow> string list" where
  "own_dirs devel d v =
     (if devel then map (\<lambda>t. d @ t) [''/predator-'' @ v @ ''/sl_build/'', ''/llvm2c/build-'' @ v @ ''/'',
        ''/sbt-instrumentation/analyses'', ''/sbt-instrumentation/build-'' @ v @ ''/src'',
        ''/sbt-slicer/build-'' @ v @ ''/src'', ''/dg/build-'' @ v @ ''/tools'',
        ''/llvm-'' @ v @ ''/build/bin'', ''/scripts'']
      else [d @ ''/llvm-'' @ v @ ''/bin'', d @ ''/bin''])"

definition witch_dirs :: "bool \<Rightarrow> string \<Rightarrow> string \<Rightarrow> string list" where
  "witch_dirs devel d v =
     [if devel then d @ ''/witch-klee/build-'' @ v @ ''/bin'' else d @ ''/llvm-'' @ v @ ''/witch-klee/bin'']"

definition path_is :: "string list \<Rightarrow> setup_state \<Rightarrow> bool" where
  "path_is P s \<longleftrightarrow> search_path (v_environ s) ''PATH'' = P"

definition path_of :: "bool \<Rightarrow> string list \<Rightarrow> setup_state \<Rightarrow> bool" where
  "path_of D P s \<longleftrightarrow> v_devel s = D \<and> path_is P s"

text \<open>A block of steps; the texts have no separator in them.\<close>

lemma path_steps:
  "CHR '':'' \<notin> set w \<Longrightarrow> triple (path_of D (w # P)) (steps ms) Q (\<lambda>_ _. True) \<Longrightarrow>
    triple (path_of D P) (steps (prepend ''PATH'' w # ms)) Q (\<lambda>_ _. True)"
  "k \<noteq> ''PATH'' \<Longrightarrow> triple (path_of D P) (steps ms) Q E \<Longrightarrow> triple (path_of D P) (steps (prepend k w # ms)) Q E"
  "triple (path_of D P) (steps ms) Q E \<Longrightarrow> triple (path_of D P) (steps (upd (v_instr_files_update f) # ms)) Q E"
  "P = P' \<Longrightarrow> triple (path_of D P) (steps []) (\<lambda>_. path_of D P') E"
  unfolding steps.simps prepend_def
  by (auto elim!: triple_upd_sq intro!: triple_ret simp: path_of_def path_is_def search_path_prepended split_on_free)

lemma path_if:
  "(D \<Longrightarrow> triple (path_of D P) m Q E) \<Longrightarrow> (\<not> D \<Longrightarrow> triple (path_of D P) n Q E) \<Longrightarrow>
    triple (path_of D P) (with_state (\<lambda>s. if v_devel s then m else n)) Q E"
  by (cases D) (auto simp: triple_def cmd_run path_of_def)

lemma path_set_paths:
  assumes "CHR '':'' \<notin> set (u_dir U @ v)"
  shows "triple (path_of D P) (set_paths U v p) (\<lambda>_. path_of D (own_dirs D (u_dir U) v @ P)) (\<lambda>_ _. True)"
  unfolding set_paths_def Let_def
  by (rule path_if; intro path_steps)
    (use assms in \<open>auto simp: own_dirs_def\<close>)


lemma path_tool:
  assumes "CHR '':'' \<notin> set (u_dir U @ v)"
  shows "triple (path_of D P) (witch_environment U v) (\<lambda>_. path_of D (witch_dirs D (u_dir U) v @ P)) (\<lambda>_ _. True)"
  using assms
  by (auto simp: triple_def path_of_def path_is_def witch_environment_def cmd_run prepend_def sq_run
      search_path_prepended split_on_free witch_dirs_def)

text \<open>The rest does not touch \<open>PATH\<close>.\<close>

lemma path_other [inv_intros]: "k \<noteq> ''PATH'' \<Longrightarrow> keeps (path_of D P) (prepend k w)"
  "k \<noteq> ''PATH'' \<Longrightarrow> keeps (path_of D P) (append_env k w)"
  unfolding prepend_def append_env_def
  by (auto intro!: keeps_upd simp: path_of_def path_is_def search_path_prepended search_path_appended)

lemma path_process [inv_intros]: "keeps (path_of D P) (run_process W cmd w)"
proof (rule keepsI)
  fix s assume "path_of D P s"
  then show "path_of D P (snd (run_process W cmd w s))"
    by (cases rule: run_process_cases [of s W cmd w]) (auto simp: path_of_def path_is_def)
qed

interpretation path_kept: process_invariant "path_of D P" for D P
  by unfold_locales (rule path_process)

definition installed_dir :: "setup_env \<Rightarrow> string \<Rightarrow> string" where
  "installed_dir U v = (u_dir U @ ''/install/llvm-'' @ v) @ ''/bin''"

definition path_found :: "bool \<Rightarrow> setup_env \<Rightarrow> string \<Rightarrow> string list \<Rightarrow> setup_state \<Rightarrow> bool" where
  "path_found D U v P s \<longleftrightarrow> path_of D P s \<or> path_of D (installed_dir U v # P) s"

lemma path_find_llvm:
  assumes "CHR '':'' \<notin> set (u_dir U @ v)"
  shows "triple (path_of D P) (find_llvm U v) (\<lambda>_. path_found D U v P) (\<lambda>_ _. True)"
proof -
  have pre: "triple (path_of D P) (prepend ''PATH'' (installed_dir U v)) (\<lambda>_. path_of D (installed_dir U v # P)) (\<lambda>_ _. True)"
    using assms by (simp add: triple_def prepend_def cmd_run path_of_def path_is_def search_path_prepended
        split_on_free installed_dir_def)
  have fails: "triple (path_of D Q) (lift (err m)) (\<lambda>_. path_found D U v P) (\<lambda>_ _. True)" for m Q
    by (simp add: triple_def cmd_run err_def)
  have again: "triple (path_of D (installed_dir U v # P)) (bnd (check_clang_in_path U v) (\<lambda>ok.
      if ok then ret q else lift (err m))) (\<lambda>_. path_found D U v P) (\<lambda>_ _. True)" for q m
    by (rule triple_bnd [OF keeps_post [OF path_kept.keeps_check_clang]], rule triple_if [OF triple_ret fails])
      (simp add: path_found_def)
  have first: "triple (path_of D P) (bnd (check_clang_in_path U v) (\<lambda>ok. if ok then ret q
      else sq (prepend ''PATH'' (installed_dir U v)) (bnd (check_clang_in_path U v) (\<lambda>ok.
        if ok then ret q' else lift (err m))))) (\<lambda>_. path_found D U v P) (\<lambda>_ _. True)" for q q' m
    by (rule triple_bnd [OF keeps_post [OF path_kept.keeps_check_clang]],
        rule triple_if [OF triple_ret triple_sq [OF pre again]]) (simp add: path_found_def)
  have "triple (path_of D P) (ret q) (\<lambda>_. path_found D U v P) (\<lambda>_ _. True)" for q
    by (rule triple_ret) (simp add: path_found_def)
  from triple_if [OF this first [unfolded installed_dir_def]] show ?thesis
    unfolding find_llvm_def Let_def .
qed

lemma path_of_is: "(\<lambda>s. \<exists>D. path_of D P s) = path_is P"
  by (auto simp: path_of_def)

lemma path_environ:
  assumes "CHR '':'' \<notin> set (u_dir U @ v)"
  shows "triple (path_is P) (set_environ U v (Some (witch_environment U v)))
    (\<lambda>_ s. \<exists>D. path_of D (witch_dirs D (u_dir U) v @ own_dirs D (u_dir U) v @ P) s \<or>
       path_of D (witch_dirs D (u_dir U) v @ own_dirs D (u_dir U) v @ installed_dir U v # P) s) (\<lambda>_ _. True)"
proof -
  have searched: "keeps (path_of D Q) (onlyif b (bnd (include_paths U) (\<lambda>ps. each (f ''C_INCLUDE_DIR'') ps)))"
    if "\<And>p. keeps (path_of D Q) (f ''C_INCLUDE_DIR'' p)" for D Q b f
    using that by (intro inv_intros path_kept.keeps_include_paths)
  let ?own = "\<lambda>D. witch_dirs D (u_dir U) v @ own_dirs D (u_dir U) v"
  let ?final = "\<lambda>s. \<exists>D. path_of D (?own D @ P) s \<or> path_of D (?own D @ installed_dir U v # P) s"
  have flags: "keeps ?final parse_environ_vars"
    unfolding parse_environ_vars_def by (intro inv_intros) (simp add: path_of_def path_is_def)
  let ?rest = "\<lambda>b q. steps [prepend ''C_INCLUDE_DIR'' (u_dir U @ ''/include''), set_paths U v q,
      onlyif b (bnd (include_paths U) (\<lambda>ps. each (append_env ''C_INCLUDE_DIR'') ps)),
      witch_environment U v]"
  have rest: "triple (path_of D Q) (?rest b q) (\<lambda>_. path_of D (?own D @ Q)) (\<lambda>_ _. True)" for D Q b q
    unfolding steps.simps
    apply (rule triple_sq [OF keeps_post], rule path_other, simp)
    apply (rule triple_sq [OF path_set_paths [OF assms]])
    apply (rule triple_sq [OF keeps_post [OF searched]], rule path_other, simp)
    by (rule triple_sq [OF path_tool [OF assms] triple_ret], simp)
  have "triple (path_found D U v P) (?rest b q) (\<lambda>_. ?final) (\<lambda>_ _. True)" for D b q
    using rest [where D = D and Q = P and b = b and q = q]
      rest [where D = D and Q = "installed_dir U v # P" and b = b and q = q]
    unfolding triple_def path_found_def by (fastforce split: prod.splits sum.splits)
  then have found: "triple (path_of D P) (bnd (find_llvm U v) (?rest b)) (\<lambda>_. ?final) (\<lambda>_ _. True)" for D b
    by (rule triple_bnd [OF path_find_llvm [OF assms]])
  have devel: "triple (path_is P) (with_state (\<lambda>s. upd (v_devel_update (\<lambda>_. f s)))) (\<lambda>_ s. \<exists>D. path_of D P s)
      (\<lambda>_ _. True)" for f
    by (simp add: triple_def cmd_run path_of_def path_is_def)
  have incl: "triple (path_is P) (onlyif b (bnd (include_paths U) (\<lambda>ps. each (prepend ''C_INCLUDE_DIR'') ps)))
      (\<lambda>_. path_is P) (\<lambda>_ _. True)" for b
    unfolding path_of_is [symmetric]
    by (intro triple_ex triple_weaken [OF keeps_post [OF searched]] path_other) auto
  have "triple (path_is P) (set_symbiotic_environ U v (Some (witch_environment U v))) (\<lambda>_. ?final) (\<lambda>_ _. True)"
    unfolding set_symbiotic_environ_def Let_def option.case
  proof (rule triple_upd_sq)
    show "triple (path_is P) (with_state (\<lambda>s. sq (onlyif (search_include_paths (v_opts s))
        (bnd (include_paths U) (\<lambda>ps. each (prepend ''C_INCLUDE_DIR'') ps)))
      (sq (with_state (\<lambda>s. upd (\<lambda>s'. s'\<lparr>v_devel := isfile (u_world U) (s_log s) (u_dir U @ ''/build.sh'')\<rparr>)))
      (bnd (find_llvm U v) (?rest (search_include_paths (v_opts s))))))) (\<lambda>_. ?final) (\<lambda>_ _. True)"
      by (intro triple_with_state triple_sq [OF incl] triple_sq [OF devel] triple_ex found)
  qed (simp add: path_is_def)
  then show ?thesis
    unfolding set_environ_def append_assoc [symmetric]
    by (rule triple_sq [OF _ keeps_post [OF flags]])
qed

text \<open>Looking for a program, on lists of directories.\<close>

definition find_in :: "(string \<Rightarrow> bool) \<Rightarrow> string list \<Rightarrow> string \<Rightarrow> string option \<Rightarrow> exn + string" where
  "find_in ex dirs x fallback =
     (case filter ex (map (\<lambda>d. path_join d x) (dirs @ [''.'']) @ (case fallback of None \<Rightarrow> [] | Some f \<Rightarrow> [f])) of
        f # _ \<Rightarrow> Inr f
      | [] \<Rightarrow> err (''ERROR: Could not find '' @ quoted x @ '' executable''))"

lemma find_executable_refines:
  assumes "vars ''PATH'' \<noteq> None"
  shows "find_executable ex vars x fallback = find_in ex (search_path vars ''PATH'') x fallback"
proof -
  have first: "find P xs = (case filter P xs of [] \<Rightarrow> None | y # _ \<Rightarrow> Some y)" for P xs and y :: string
    by (induction xs) auto
  from assms show ?thesis
    by (auto simp: find_executable_def find_in_def search_path_def first of_opt_def split: option.split list.split)
qed

lemma find_in_first: "ex (path_join d x) \<Longrightarrow> find_in ex (d # dirs) x fallback = Inr (path_join d x)"
  by (simp add: find_in_def)

lemma witch_path:
  assumes "set_environ U v (Some (witch_environment U v)) s = (Inr (), s')"
    and "CHR '':'' \<notin> set (u_dir U @ v)"
  obtains llvm where "llvm \<in> {[], [installed_dir U v]}" and "search_path (v_environ s') ''PATH'' =
    witch_dirs (v_devel s') (u_dir U) v @ own_dirs (v_devel s') (u_dir U) v @ llvm @ search_path (v_environ s) ''PATH''"
proof -
  have "path_is (search_path (v_environ s) ''PATH'') s" by (simp add: path_is_def)
  with path_environ [OF assms(2)] assms(1)
  have "\<exists>D. path_of D (witch_dirs D (u_dir U) v @ own_dirs D (u_dir U) v @ search_path (v_environ s) ''PATH'') s' \<or>
    path_of D (witch_dirs D (u_dir U) v @ own_dirs D (u_dir U) v @ installed_dir U v # search_path (v_environ s) ''PATH'') s'"
    unfolding triple_def by fastforce
  then show ?thesis using that [of "[]"] that [of "[installed_dir U v]"] by (auto simp: path_of_def path_is_def)
qed

text \<open>C35: The texts of the environment refine lists of directories: after setting the environment
  for the witness validator, \<open>PATH\<close> is, for a directory without colons, the validator's directory,
  then those of Symbiotic for its layout, newest first, then the directory of the installed LLVM
  when that was needed, then what the user had; and \<open>find_executable\<close> on the texts is the search for
  the first executable file in these directories, the current one, or the fallback.\<close>

theorem search_path_refined:
  assumes "set_environ U v (Some (witch_environment U v)) s = (Inr (), s')"
    and "CHR '':'' \<notin> set (u_dir U @ v)"
  shows "\<exists>llvm \<in> {[], [(u_dir U @ ''/install/llvm-'' @ v) @ ''/bin'']}.
    let dirs = witch_dirs (v_devel s') (u_dir U) v @ own_dirs (v_devel s') (u_dir U) v @ llvm @
      search_path (v_environ s) ''PATH''
    in search_path (v_environ s') ''PATH'' = dirs \<and>
       (\<forall>ex x fallback. find_executable ex (v_environ s') x fallback = find_in ex dirs x fallback)"
proof -
  obtain llvm where l: "llvm \<in> {[], [installed_dir U v]}" and p: "search_path (v_environ s') ''PATH'' =
    witch_dirs (v_devel s') (u_dir U) v @ own_dirs (v_devel s') (u_dir U) v @ llvm @ search_path (v_environ s) ''PATH''"
    by (rule witch_path [OF assms])
  then have "v_environ s' ''PATH'' \<noteq> None" by (auto simp: search_path_def witch_dirs_def split: option.splits)
  note found = find_executable_refines [of "v_environ s'", OF this, unfolded p]
  show ?thesis unfolding Let_def installed_dir_def [symmetric]
    by (rule bexI [OF _ l], intro conjI allI) (rule p, rule found)
qed

text \<open>So the validator that is run is Symbiotic's own one, whatever the user has installed.\<close>

lemma own_validator_found:
  assumes "set_environ U v (Some (witch_environment U v)) s = (Inr (), s')"
    and "CHR '':'' \<notin> set (u_dir U @ v)"
    and "ex (path_join (hd (witch_dirs (v_devel s') (u_dir U) v)) ''witch-klee'')"
  shows "find_executable ex (v_environ s') ''witch-klee'' None =
    Inr (path_join (hd (witch_dirs (v_devel s') (u_dir U) v)) ''witch-klee'')"
proof -
  obtain llvm where p: "search_path (v_environ s') ''PATH'' =
    witch_dirs (v_devel s') (u_dir U) v @ own_dirs (v_devel s') (u_dir U) v @ llvm @ search_path (v_environ s) ''PATH''"
    using witch_path [OF assms(1,2)] by metis
  then have "v_environ s' ''PATH'' \<noteq> None" by (auto simp: search_path_def witch_dirs_def split: option.splits)
  note found = find_executable_refines [of "v_environ s'", OF this, unfolded p]
  from assms(3) show ?thesis unfolding found by (simp add: find_in_first witch_dirs_def)
qed

text \<open>A distribution in \<open>/opt\<close>.\<close>

definition opt_setup :: setup_env where
  "opt_setup = \<lparr>u_world = e_world quiet_env, u_dir = ''/opt'', u_isdir = (\<lambda>d. True), u_getcwd = ''/''\<rparr>"

definition opt_state :: setup_state where
  "opt_state = \<lparr>s_running = False, s_alive = False, s_timer = False, s_log = [], v_environ = [''PATH'' \<mapsto> ''/bin:/usr/bin''],
     v_opts = plain_options\<lparr>search_include_paths := False\<rparr>, v_devel = False, v_instr_files = [], v_cwd = None\<rparr>"

theorem search_path_refined_witness:
  "\<exists>s' llvm. set_environ opt_setup ''10.0.1'' (Some (witch_environment opt_setup ''10.0.1'')) opt_state = (Inr (), s') \<and>
    search_path (v_environ s') ''PATH'' = witch_dirs (v_devel s') ''/opt'' ''10.0.1'' @
      own_dirs (v_devel s') ''/opt'' ''10.0.1'' @ llvm @ [''/bin'', ''/usr/bin''] \<and>
    find_executable (\<lambda>f. f = ''/usr/bin/java'') (v_environ s') ''java'' None = Inr ''/usr/bin/java''"
proof -
  have "fst (set_environ opt_setup ''10.0.1'' (Some (witch_environment opt_setup ''10.0.1'')) opt_state) = Inr ()"
    by (simp add: set_environ_def set_symbiotic_environ_def cmd_run sq_run find_llvm_def opt_setup_def
        opt_state_def prepend_def set_paths_def witch_environment_def parse_environ_vars_def quiet_env_def bnd_def)
  then obtain s' where run: "set_environ opt_setup ''10.0.1'' (Some (witch_environment opt_setup ''10.0.1''))
      opt_state = (Inr (), s')"
    by (metis prod.collapse)
  have c: "CHR '':'' \<notin> set (u_dir opt_setup @ ''10.0.1'')" "u_dir opt_setup = ''/opt''" by (simp_all add: opt_setup_def)
  have user: "search_path (v_environ opt_state) ''PATH'' = [''/bin'', ''/usr/bin'']"
    by (simp add: search_path_def opt_state_def)
  have java: "find_in (\<lambda>f. f = ''/usr/bin/java'') (ds @ [''/bin'', ''/usr/bin'']) ''java'' None = Inr ''/usr/bin/java''"
    for ds
  proof -
    have "path_join ''/usr/bin'' ''java'' = ''/usr/bin/java''" by code_simp
    then have "\<exists>k. filter (\<lambda>f. f = ''/usr/bin/java'') (map (\<lambda>d. path_join d ''java'') ((ds @ [''/bin'', ''/usr/bin'']) @ [''.''])) =
      ''/usr/bin/java'' # k"
      by (induction ds) (auto split: if_splits)
    then show ?thesis by (auto simp: find_in_def)
  qed
  from search_path_refined [OF run c(1)] obtain llvm where "search_path (v_environ s') ''PATH'' =
      witch_dirs (v_devel s') ''/opt'' ''10.0.1'' @ own_dirs (v_devel s') ''/opt'' ''10.0.1'' @ llvm @ [''/bin'', ''/usr/bin'']"
    "find_executable (\<lambda>f. f = ''/usr/bin/java'') (v_environ s') ''java'' None = find_in (\<lambda>f. f = ''/usr/bin/java'')
      (witch_dirs (v_devel s') ''/opt'' ''10.0.1'' @ own_dirs (v_devel s') ''/opt'' ''10.0.1'' @ llvm @ [''/bin'', ''/usr/bin'']) ''java'' None"
    unfolding user c(2) Let_def by blast
  with run java [of "witch_dirs (v_devel s') ''/opt'' ''10.0.1'' @ own_dirs (v_devel s') ''/opt'' ''10.0.1'' @ llvm" for llvm]
  show ?thesis by (metis append.assoc)
qed

end
