(* ===== verification/Witnesses.thy ===== *)
theory Witnesses
  imports Driver Ktest YamlWriter
begin

text \<open>
  What a run writes about its answer: the GraphML witness (\<open>GraphMLWriter\<close> of
  \<open>witnesses/witnesses.py\<close>), the file of the YAML witness, the executable witness and the error
  trace (\<open>targets/kleebase.py\<close>, \<open>witchklee.py\<close>, \<open>slowbeast.py\<close>), the metadata of a test suite
  (\<open>testsuits/metadata.py\<close>), and the whole script that produces them after the reports the driver
  recorded. XML documents are trees; their text form, the parser for them, the hash function, the
  time and the identifier are arguments. The files are the list of those written, in order.
\<close>

section \<open>XML\<close>

datatype xml = Elem (x_tag: string) (x_attrs: "(string \<times> string) list") (x_text: "string option") (x_children: "xml list")

definition sub_element :: "xml \<Rightarrow> xml \<Rightarrow> xml" where
  "sub_element parent child =
     (case parent of Elem t a x cs \<Rightarrow> Elem t a x (cs @ [child]))"

definition text_element :: "string \<Rightarrow> (string \<times> string) list \<Rightarrow> string \<Rightarrow> xml" where
  "text_element t a x = Elem t a (Some x) []"

section \<open>Files and their hash\<close>

text \<open>Iterating a file opened as text: line ends become line feeds.\<close>

fun universal_newlines :: "string \<Rightarrow> string" where
  "universal_newlines [] = []"
| "universal_newlines (c # cs) =
     (if c = CHR 0x0D
      then CHR 0x0A # (case cs of d # ds \<Rightarrow> if d = CHR 0x0A then universal_newlines ds else universal_newlines cs
                       | [] \<Rightarrow> [])
      else c # universal_newlines cs)"

definition read_text :: "byte list \<Rightarrow> exn + string" where
  "read_text bs = bindE (decode (map char_of_byte bs)) (\<lambda>t. Inr (universal_newlines t))"

text \<open>\<open>readlines\<close>: the lines with their line feeds.\<close>

fun keep_lines :: "string \<Rightarrow> string list" where
  "keep_lines [] = []"
| "keep_lines (c # cs) =
     (if c = CHR 0x0A then [c] # keep_lines cs
      else case keep_lines cs of [] \<Rightarrow> [[c]] | l # ls \<Rightarrow> (c # l) # ls)"

record wit_env =
  we_cc :: cc_env
  we_bytes :: "string list list \<Rightarrow> string \<Rightarrow> byte list option"
  we_lxml :: bool
  we_xml :: "string list list \<Rightarrow> string \<Rightarrow> exn + xml"
  we_sha256 :: "string \<Rightarrow> string"
  we_time :: "string \<Rightarrow> string"
  we_uuid :: string
  we_version :: string

definition wit_time :: "wit_env \<Rightarrow> string" where
  "wit_time V = we_time V ''%Y-%m-%dT%T'' @ ''Z''"

definition open_text :: "wit_env \<Rightarrow> string list list \<Rightarrow> string \<Rightarrow> exn + string" where
  "open_text V log path = bindE (of_opt OSError (we_bytes V log path)) read_text"

definition get_hash :: "wit_env \<Rightarrow> string list list \<Rightarrow> string \<Rightarrow> exn + string" where
  "get_hash V log source = bindE (open_text V log source) (\<lambda>t. Inr (we_sha256 V t))"

section \<open>GraphML\<close>

text \<open>\<open>self._graph\<close> is the first child of \<open>self._root\<close>.\<close>

record graphml_writer =
  gw_source :: string
  gw_prps :: "string list"
  gw_is32bit :: bool
  gw_correctness :: bool
  gw_root :: "xml option"

definition init_graphml :: "string \<Rightarrow> string list \<Rightarrow> bool \<Rightarrow> bool \<Rightarrow> graphml_writer" where
  "init_graphml source prps bits32 is_correctness_wit =
     \<lparr>gw_source = source, gw_prps = prps, gw_is32bit = bits32, gw_correctness = is_correctness_wit,
      gw_root = None\<rparr>"

definition in_graph :: "(xml \<Rightarrow> xml) \<Rightarrow> xml \<Rightarrow> xml" where
  "in_graph f root =
     (case root of Elem t a x (g # cs) \<Rightarrow> Elem t a x (f g # cs) | _ \<Rightarrow> root)"

definition add_key :: "string \<Rightarrow> string \<Rightarrow> xml \<Rightarrow> xml" where
  "add_key what name root =
     sub_element root (Elem ''key''
       [(''id'', name), (''for'', what), (''attr.type'', ''string''), (''attr.name'', name)] None [])"

definition add_bool_key :: "string \<Rightarrow> string \<Rightarrow> xml \<Rightarrow> xml" where
  "add_bool_key what name root =
     sub_element root (Elem ''key''
       [(''id'', name), (''for'', what), (''attr.type'', ''boolean''), (''attr.name'', name)] None
       [text_element ''default'' [] ''false''])"

definition graph_keys :: "string list" where
  "graph_keys = [''witness-type'', ''specification'', ''programfile'', ''sourcecodelang'', ''producer'',
     ''creationtime'', ''architecture'', ''programhash'']"

definition node_keys :: "string list" where
  "node_keys = [''entry'', ''violation'', ''invariant'', ''invariant.scope'']"

definition edge_keys :: "string list" where
  "edge_keys = [''assumption'', ''assumption.resultfunction'', ''startline'', ''endline'', ''threadId'',
     ''createThread'']"

definition add_keys :: "xml \<Rightarrow> xml" where
  "add_keys root =
     add_bool_key ''edge'' ''enterLoopHead'' (add_bool_key ''node'' ''cyclehead''
       (fold (add_key ''edge'') edge_keys (fold (add_key ''node'') node_keys
         (fold (add_key ''graph'') graph_keys root))))"

definition datum :: "string \<Rightarrow> string \<Rightarrow> xml" where
  "datum k v = text_element ''data'' [(''key'', k)] v"

definition arch_of :: "bool \<Rightarrow> string" where
  "arch_of bits32 = (if bits32 then ''32bit'' else ''64bit'')"

definition c_info :: "graphml_writer \<Rightarrow> string \<Rightarrow> string \<Rightarrow> xml list" where
  "c_info w hash time =
     [datum ''witness-type'' (if gw_correctness w then ''correctness_witness'' else ''violation_witness''),
      datum ''sourcecodelang'' ''C'', datum ''producer'' ''Symbiotic''] @
     map (datum ''specification'') (gw_prps w) @
     [datum ''programfile'' (gw_source w), datum ''programhash'' hash,
      datum ''architecture'' (arch_of (gw_is32bit w)), datum ''creationtime'' time]"

definition add_c_info :: "wit_env \<Rightarrow> string list list \<Rightarrow> graphml_writer \<Rightarrow> exn + graphml_writer" where
  "add_c_info V log w =
     bindE (of_opt AssertionError (gw_root w)) (\<lambda>root.
     bindE (get_hash V log (gw_source w)) (\<lambda>hash.
     Inr (w\<lparr>gw_root := Some (add_keys
       (in_graph (\<lambda>g. fold (\<lambda>d e. sub_element e d) (c_info w hash (wit_time V)) g) root))\<rparr>)))"

text \<open>The tag of the root declares the name spaces when \<open>lxml\<close> is there.\<close>

definition create_trivial_witness :: "wit_env \<Rightarrow> string list list \<Rightarrow> graphml_writer \<Rightarrow> exn + graphml_writer" where
  "create_trivial_witness V log w =
     (let root = Elem ''graphml''
            (if we_lxml V then [(''xmlns'', ''http://graphml.graphdrawing.org/xmlns''),
               (''xmlns:xsi'', ''http://www.w3.org/2001/XMLSchema-instance'')] else []) None [];
          entry = sub_element (Elem ''node'' [(''id'', ''0'')] None []) (datum ''entry'' ''true'');
          graph = sub_element (Elem ''graph'' [(''edgedefault'', ''directed'')] None []) entry
      in add_c_info V log (w\<lparr>gw_root := Some (sub_element root graph)\<rparr>))"

text \<open>Only the elements of \<open>lxml\<close> have \<open>getchildren\<close>; those of the standard library lost it in
  Python 3.9.\<close>

definition generate_witness ::
  "wit_env \<Rightarrow> string list list \<Rightarrow> string \<Rightarrow> graphml_writer \<Rightarrow> exn + graphml_writer" where
  "generate_witness V log path w =
     bindE (we_xml V log path) (\<lambda>root.
     bindE (guardE (we_lxml V) AttributeError) (\<lambda>_.
     bindE (guardE (length (x_children root) = 1) AssertionError) (\<lambda>_.
     add_c_info V log (w\<lparr>gw_root := Some root\<rparr>))))"

section \<open>Writing\<close>

datatype out_file = GraphML xml | YamlWitness "out_entry list" | TestMetadata xml

record reporting = sys +
  w_files :: "(string \<times> out_file) list"
  w_printed :: "string list"

type_synonym 'a wstep = "(reporting, 'a) cmd"

definition write_file :: "string \<Rightarrow> out_file \<Rightarrow> unit wstep" where
  "write_file path content = upd (\<lambda>s. s\<lparr>w_files := w_files s @ [(path, content)]\<rparr>)"

definition on_printed :: "'a printing \<Rightarrow> 'a wstep" where
  "on_printed m = (\<lambda>s. case m (w_printed s) of (r, ls) \<Rightarrow> (r, s\<lparr>w_printed := ls\<rparr>))"

text \<open>\<open>write\<close>\<close>

definition write_graphml :: "graphml_writer \<Rightarrow> string \<Rightarrow> unit wstep" where
  "write_graphml w saveto = bnd (lift (of_opt AttributeError (gw_root w))) (\<lambda>root. write_file saveto (GraphML root))"

definition generate_graphml ::
  "wit_env \<Rightarrow> string option \<Rightarrow> string \<Rightarrow> bool \<Rightarrow> options \<Rightarrow> py_prop \<Rightarrow> string \<Rightarrow> unit wstep" where
  "generate_graphml V path source is_correctness_wit os p saveto =
     with_state (\<lambda>s.
       let gen = init_graphml source (p_ltl p) (is32bit os) is_correctness_wit in
       bnd (lift
              (if \<not> is_correctness_wit
               then bindE (of_opt TypeError path) (\<lambda>f. generate_witness V (s_log s) f gen)
               else bindE (create_trivial_witness V (s_log s) gen) (\<lambda>w.
                    bindE (guardE (path = None) AssertionError) (\<lambda>_. Inr w)))) (\<lambda>w.
       write_graphml w saveto))"

section \<open>The path of the source in a YAML witness\<close>

text \<open>\<open>os.path.relpath\<close>\<close>

definition path_parts :: "string \<Rightarrow> string list" where
  "path_parts p = filter (\<lambda>x. x \<noteq> []) (split_on (CHR ''/'') p)"

definition relative :: "string list \<Rightarrow> string list \<Rightarrow> string list" where
  "relative from to =
     (let n = length (longest_common_prefix from to)
      in replicate (length from - n) ''..'' @ drop n to)"

definition relpath :: "wit_env \<Rightarrow> string \<Rightarrow> string \<Rightarrow> exn + string" where
  "relpath V path start =
     (let absolute = (\<lambda>p. path_parts (abspath (e_world (we_cc V)) p));
          rel = relative (absolute start) (absolute path)
      in if path = [] then Inl ValueError
         else Inr (if rel = [] then ''.'' else join ''/'' rel))"

definition new_yaml_writer ::
  "wit_env \<Rightarrow> string \<Rightarrow> py_prop \<Rightarrow> bool \<Rightarrow> bool \<Rightarrow> string \<Rightarrow> shift_map option \<Rightarrow> exn + yaml_writer" where
  "new_yaml_writer V source p bits32 is_correctness_wit saveto sh =
     bindE (relpath V source (dirname saveto)) (\<lambda>relsource.
     Inr (init_writer source relsource (p_ltl p) (termination_prp p) bits32 is_correctness_wit sh))"

definition yaml_violation :: "wit_env \<Rightarrow> string list list \<Rightarrow> string \<Rightarrow> yaml_writer \<Rightarrow> exn + yaml_writer" where
  "yaml_violation V log path w =
     bindE (open_text V log path) (\<lambda>t.
     generate_violation_witness (keep_lines t) (wit_time V) (we_version V) (we_uuid V)
       (get_hash V log (yw_source w)) (fst (e_clang (we_cc V) (yw_source w))) w)"

definition generate_yaml ::
  "wit_env \<Rightarrow> string option \<Rightarrow> string \<Rightarrow> bool \<Rightarrow> options \<Rightarrow> py_prop \<Rightarrow> string \<Rightarrow> shift_map option \<Rightarrow> unit wstep" where
  "generate_yaml V path source is_correctness_wit os p saveto sh =
     with_state (\<lambda>s.
       bnd (lift (bindE (new_yaml_writer V source p (is32bit os) is_correctness_wit saveto sh) (\<lambda>gen.
              if \<not> is_correctness_wit
              then bindE (of_opt TypeError path) (\<lambda>f. yaml_violation V (s_log s) f gen)
              else bindE (generate_correctness_witness (wit_time V) (we_version V) (we_uuid V)
                            (get_hash V (s_log s) source) gen) (\<lambda>w.
                   bindE (guardE (path = None) AssertionError) (\<lambda>_. Inr w))))) (\<lambda>w.
       write_file saveto (YamlWitness (yw_witness w))))"

section \<open>KLEE\<close>

text \<open>\<open>os.path.splitext(path)[0]\<close>: leading dots of the last component do not count.\<close>

definition splitext_root :: "string \<Rightarrow> string" where
  "splitext_root p =
     (let sep = py_rfind p (CHR ''/''); dot = py_rfind p (CHR ''.'')
      in if sep < dot \<and> list_ex (\<lambda>c. c \<noteq> CHR ''.'') (slice_from (slice_to p dot) (sep + 1))
         then slice_to p dot else p)"

definition generate_graphml_witness ::
  "wit_env \<Rightarrow> string \<Rightarrow> string list \<Rightarrow> bool \<Rightarrow> options \<Rightarrow> py_prop \<Rightarrow> string \<Rightarrow> unit wstep" where
  "generate_graphml_witness V bindir sources is_correctness_wit os p saveto =
     sq (assertc (length sources = 1))
       (if is_correctness_wit then generate_graphml V None (hd sources) is_correctness_wit os p saveto
        else with_state (\<lambda>s.
          bnd (lift (get_ktest (we_cc V) (s_log s) (path_join bindir ''klee-last''))) (\<lambda>pth.
          generate_graphml V (Some (splitext_root pth @ ''.graphml'')) (hd sources)
            is_correctness_wit os p saveto)))"

definition generate_yaml_witness ::
  "wit_env \<Rightarrow> string \<Rightarrow> string list \<Rightarrow> bool \<Rightarrow> options \<Rightarrow> py_prop \<Rightarrow> string \<Rightarrow> unit wstep" where
  "generate_yaml_witness V bindir sources is_correctness_wit os p saveto =
     sq (assertc (length sources = 1))
       (if is_correctness_wit then generate_yaml V None (hd sources) is_correctness_wit os p saveto None
        else onlyif (\<not> memcleanup p) (with_state (\<lambda>s.
          bnd (lift (get_ktest (we_cc V) (s_log s) (path_join bindir ''klee-last''))) (\<lambda>pth.
          generate_yaml V (Some (splitext_root pth @ ''.waypoints'')) (hd sources)
            is_correctness_wit os p saveto None))))"

definition klee_generate_witness ::
  "wit_env \<Rightarrow> string \<Rightarrow> string list \<Rightarrow> bool \<Rightarrow> options \<Rightarrow> py_prop \<Rightarrow> unit wstep" where
  "klee_generate_witness V llvmfile sources has_err os p =
     steps
       [onlyif (str_set (witness_output os))
          (generate_yaml_witness V (dirname llvmfile) sources (\<not> has_err) os p (the (witness_output os))),
        onlyif (str_set (graphml_witness_output os))
          (generate_graphml_witness V (dirname llvmfile) sources (\<not> has_err) os p
             (the (graphml_witness_output os)))]"

definition get_harness_file :: "cc_env \<Rightarrow> string list list \<Rightarrow> string \<Rightarrow> exn + string" where
  "get_harness_file E log bindir =
     bindE (of_opt TypeError (get_testcase E log bindir)) (\<lambda>test. Inr (test @ ''.harness.c''))"

definition exec_flags :: "py_prop \<Rightarrow> string list" where
  "exec_flags p =
     [''-D__inline=''] @
     (if memsafety p then [''-fsanitize=address'']
      else if signedoverflow p \<or> undefinedness p then [''-fsanitize=undefined''] else [])"

definition generate_exec_witness ::
  "wit_env \<Rightarrow> string \<Rightarrow> string list \<Rightarrow> options \<Rightarrow> py_prop \<Rightarrow> string \<Rightarrow> unit wstep" where
  "generate_exec_witness V bindir sources os p saveto =
     sq (assertc (length sources = 1)) (with_state (\<lambda>s.
     bnd (lift (get_harness_file (we_cc V) (s_log s)
            (if test_comp os then testsuite_output os else path_join bindir ''klee-last''))) (\<lambda>pth.
     handle
       (bnd (runcmd (e_world (we_cc V)) ([''clang'', ''-g'', pth, hd sources, ''-o'', saveto] @ exec_flags p)
               compile_watch ''Generating executable witness failed'') (\<lambda>_. ret ()))
       (\<lambda>e. case e of SymbioticException m \<Rightarrow> ret () | _ \<Rightarrow> throw e))))"

text \<open>The method of the tool: without \<open>witness_output\<close>, \<open>None.rfind\<close> is an \<open>AttributeError\<close>.\<close>

definition klee_exec_witness :: "wit_env \<Rightarrow> string \<Rightarrow> string list \<Rightarrow> options \<Rightarrow> py_prop \<Rightarrow> unit wstep" where
  "klee_exec_witness V bitcode sources os p =
     bnd (lift (of_opt AttributeError (witness_output os))) (\<lambda>f.
     generate_exec_witness V (dirname bitcode) sources os p
       (slice_to f (py_rfind f (CHR ''.'') + 1) @ ''exe''))"

section \<open>The other verifiers\<close>

definition describe_error :: "wit_env \<Rightarrow> string \<Rightarrow> options \<Rightarrow> unit wstep" where
  "describe_error V llvmfile os =
     with_state (\<lambda>s. let log = s_log s in
       on_printed (dump_errors
         \<lparr>f_text = (\<lambda>f. bindE (open_text V log f) (\<lambda>t. Inr (keep_lines t))), f_bytes = we_bytes V log,
          f_listdir = e_listdir (we_cc V) log, f_abspath = abspath (e_world (we_cc V))\<rparr>
         (if test_comp os then testsuite_output os else path_join (dirname llvmfile) ''klee-last'')))"

text \<open>Witch-KLEE writes the witness of an error that it found on the way of the given one.\<close>

definition witch_generate_witness ::
  "wit_env \<Rightarrow> string \<Rightarrow> string list \<Rightarrow> bool \<Rightarrow> options \<Rightarrow> py_prop \<Rightarrow> bool \<Rightarrow> string option \<Rightarrow> shift_map \<Rightarrow>
   unit wstep" where
  "witch_generate_witness V llvmfile sources has_err os p new og_file shifted =
     onlyif (new \<and> has_err)
       (sq (assertc (length sources = 1))
       (onlyif (\<not> memcleanup p) (with_state (\<lambda>s.
          bnd (lift (get_ktest (we_cc V) (s_log s) (path_join (dirname llvmfile) ''klee-last''))) (\<lambda>pth.
          bnd (lift (of_opt AssertionError (witness_output os))) (\<lambda>saveto.
          bnd (lift (of_opt TypeError og_file)) (\<lambda>source.
          generate_yaml V (Some (splitext_root pth @ ''.waypoints'')) source (\<not> has_err) os p saveto
            (Some shifted))))))))"

definition slowbeast_generate_witness ::
  "wit_env \<Rightarrow> string \<Rightarrow> string list \<Rightarrow> bool \<Rightarrow> options \<Rightarrow> py_prop \<Rightarrow> unit wstep" where
  "slowbeast_generate_witness V llvmfile sources has_err os p =
     onlyif (str_set (graphml_witness_output os)) (with_state (\<lambda>s.
       let sbdir = path_join (dirname llvmfile) ''sb-out'';
           witnesses = map (\<lambda>f. abspath (e_world (we_cc V)) (path_join sbdir f))
             (filter (\<lambda>f. endswith f ''.graphml'') (e_listdir (we_cc V) (s_log s) sbdir));
           gen = init_graphml (hd sources) (p_ltl p) (is32bit os) (\<not> has_err)
       in sq (assertc (length sources = 1))
         (bnd (lift (if length witnesses \<noteq> 1 then create_trivial_witness V (s_log s) gen
                     else generate_witness V (s_log s) (hd witnesses) gen)) (\<lambda>w.
          write_graphml w (the (graphml_witness_output os))))))"

section \<open>Test suites\<close>

definition metadata :: "wit_env \<Rightarrow> string \<Rightarrow> string list \<Rightarrow> bool \<Rightarrow> string \<Rightarrow> xml" where
  "metadata V source prps bits32 hash =
     fold (\<lambda>(t, x) e. sub_element e (text_element t [] x))
       ([(''sourcecodelang'', ''C''), (''producer'', ''Symbiotic'')] @
        map (\<lambda>p. (''specification'', p)) prps @
        [(''programfile'', source), (''programhash'', hash), (''architecture'', arch_of bits32),
         (''entryfunction'', ''main''), (''creationtime'', we_time V ''%Y-%m-%d %T'' @ ''Z'')])
       (Elem ''test-metadata'' [] None [])"

text \<open>A directory that exists is no error.\<close>

definition create_testcomp_metadata ::
  "wit_env \<Rightarrow> string \<Rightarrow> string \<Rightarrow> string list \<Rightarrow> bool \<Rightarrow> unit wstep" where
  "create_testcomp_metadata V where_to source prps bits32 =
     with_state (\<lambda>s.
       bnd (lift (get_hash V (s_log s) source)) (\<lambda>hash.
       write_file (abspath (e_world (we_cc V)) (where_to @ ''/metadata.xml''))
         (TestMetadata (metadata V source prps bits32 hash))))"

section \<open>The script\<close>

text \<open>One of the reports that the driver recorded in the state \<open>c\<close>; \<open>sources\<close> is the list of the
  driver, which the compiler object leaves as it is.\<close>

definition carry_out :: "wit_env \<Rightarrow> cc \<Rightarrow> string list \<Rightarrow> report \<Rightarrow> unit wstep" where
  "carry_out V c sources r =
     (case r of
        DescribeError f \<Rightarrow> describe_error V f (c_opts c)
      | ExecWitness f \<Rightarrow> klee_exec_witness V f sources (c_opts c) (c_prop c)
      | WitnessFile name f bad \<Rightarrow>
          if name = ''witch-klee'' then
            witch_generate_witness V f sources bad (c_opts c) (c_prop c) (c_new_witness c)
              (c_og_file c) (c_shifted c)
          else if name = ''slowbeast'' then slowbeast_generate_witness V f sources bad (c_opts c) (c_prop c)
          else klee_generate_witness V f sources bad (c_opts c) (c_prop c))"

definition start_report :: "cc \<Rightarrow> reporting \<Rightarrow> reporting" where
  "start_report c s = s\<lparr>s_running := s_running c, s_alive := s_alive c, s_timer := s_timer c, s_log := s_log c\<rparr>"

text \<open>The run of the driver with the reports in their place, at its end and under its handler.\<close>

definition run_reporting :: "wit_env \<Rightarrow> target \<Rightarrow> options \<Rightarrow> py_prop \<Rightarrow> string list \<Rightarrow> string wstep" where
  "run_reporting V tg os p sources =
     (\<lambda>s. case run_symbiotic (we_cc V) tg (init_cc (main_settings os p) p sources) of
        (Inl e, c) \<Rightarrow> (Inl e, start_report c s)
      | (Inr res, c) \<Rightarrow>
          handle (sq (each (carry_out V c sources) (c_reports c)) (ret res)) symbiotic_handler (start_report c s))"

definition script_start :: reporting where
  "script_start = \<lparr>s_running = False, s_alive = False, s_timer = False, s_log = [], w_files = [], w_printed = []\<rparr>"

text \<open>For a test suite the metadata come first; an exception there ends the script. Whatever the run
  does, a program that is still registered is killed afterwards.\<close>

definition script_run ::
  "wit_env \<Rightarrow> target \<Rightarrow> options \<Rightarrow> py_prop \<Rightarrow> string list \<Rightarrow> (exn + string) \<times> reporting" where
  "script_run V tg os p args =
     (let sources = map (abspath (e_world (we_cc V))) args in
      bnd (onlyif (test_comp os)
             (sq (assertc (length sources = 1))
                (create_testcomp_metadata V (testsuite_output os) (hd sources) (p_ltl p) (is32bit os))))
        (\<lambda>_. finally_do (run_reporting V tg os p sources) kill_running) script_start)"

text \<open>The lines that are printed at the end and the exit status (\<open>None\<close>: a traceback), and the
  files and the error traces.\<close>

definition script ::
  "wit_env \<Rightarrow> target \<Rightarrow> options \<Rightarrow> py_prop \<Rightarrow> string list \<Rightarrow> (string list \<times> int) option \<times> reporting" where
  "script V tg os p args = (case script_run V tg os p args of (r, s) \<Rightarrow> (main_report r, s))"

section \<open>Declared keys\<close>

text \<open>The keys a document declares, with the kind of element they are for, and those its data uses.\<close>

definition attr :: "string \<Rightarrow> xml \<Rightarrow> string option" where
  "attr name e = map_of (x_attrs e) name"

definition declared :: "xml \<Rightarrow> (string option \<times> string option) list" where
  "declared root = map (\<lambda>e. (attr ''for'' e, attr ''id'' e)) (filter (\<lambda>e. x_tag e = ''key'') (x_children root))"

fun used_keys :: "xml \<Rightarrow> (string option \<times> string option) list" where
  "used_keys (Elem t a x cs) =
     map (\<lambda>d. (Some t, attr ''key'' d)) (filter (\<lambda>d. x_tag d = ''data'') cs) @ concat (map used_keys cs)"

definition witness_keys :: "(string option \<times> string option) list" where
  "witness_keys =
     map (\<lambda>k. (Some ''graph'', Some k)) graph_keys @ map (\<lambda>k. (Some ''node'', Some k)) node_keys @
     map (\<lambda>k. (Some ''edge'', Some k)) edge_keys @
     [(Some ''node'', Some ''cyclehead''), (Some ''edge'', Some ''enterLoopHead'')]"

definition well_keyed :: "xml \<Rightarrow> bool" where
  "well_keyed root \<longleftrightarrow> distinct (declared root) \<and> set (used_keys root) \<subseteq> set (declared root)"

lemma sub_element_simps [simp]:
  "x_tag (sub_element e c) = x_tag e" "x_attrs (sub_element e c) = x_attrs e"
  "x_text (sub_element e c) = x_text e" "x_children (sub_element e c) = x_children e @ [c]"
  by (cases e; simp add: sub_element_def)+

lemma used_sub_element:
  "set (used_keys (sub_element e c)) =
    set (used_keys e) \<union> set (used_keys c) \<union> (if x_tag c = ''data'' then {(Some (x_tag e), attr ''key'' c)} else {})"
  by (cases e) (auto simp: sub_element_def)

lemma keys_one:
  "declared (add_key what k r) = declared r @ [(Some what, Some k)]"
  "declared (add_bool_key what k r) = declared r @ [(Some what, Some k)]"
  "set (used_keys (add_key what k r)) = set (used_keys r)"
  "set (used_keys (add_bool_key what k r)) = set (used_keys r)"
  by (cases r; simp add: add_key_def add_bool_key_def declared_def attr_def sub_element_def text_element_def)+

lemma keys_many:
  "declared (fold (add_key what) ks r) = declared r @ map (\<lambda>k. (Some what, Some k)) ks"
  "set (used_keys (fold (add_key what) ks r)) = set (used_keys r)"
  by (induction ks arbitrary: r) (simp_all add: keys_one)

lemma add_keys_all:
  "declared (add_keys r) = declared r @ witness_keys" "set (used_keys (add_keys r)) = set (used_keys r)"
  by (simp_all add: add_keys_def keys_one keys_many witness_keys_def)

lemma data_fold:
  "x_tag (fold (\<lambda>d e. sub_element e d) ds g) = x_tag g"
  "x_attrs (fold (\<lambda>d e. sub_element e d) ds g) = x_attrs g"
  "\<forall>d \<in> set ds. x_tag d = ''data'' \<and> used_keys d = [] \<Longrightarrow>
    set (used_keys (fold (\<lambda>d e. sub_element e d) ds g)) =
      set (used_keys g) \<union> (\<lambda>d. (Some (x_tag g), attr ''key'' d)) ` set ds"
  by (induction ds arbitrary: g) (auto simp: used_sub_element)

lemma c_info_keys:
  "\<forall>d \<in> set (c_info w h t). x_tag d = ''data'' \<and> used_keys d = [] \<and> (Some ''graph'', attr ''key'' d) \<in> set witness_keys"
  by (auto simp: c_info_def datum_def text_element_def attr_def witness_keys_def graph_keys_def)

lemma witness_keys_distinct: "distinct witness_keys"
  by code_simp

text \<open>The keys the script itself uses: all of the graph, but that of the specification only for a property
  with a formula.\<close>

definition info_keys :: "string list \<Rightarrow> string set" where
  "info_keys prps = set (filter (\<lambda>k. k = ''specification'' \<longrightarrow> prps \<noteq> []) graph_keys)"

lemma attr_datum: "attr ''key'' (datum k v) = Some k"
  by (simp add: datum_def text_element_def attr_def)

lemma c_info_used:
  "(\<lambda>d. (Some tag, attr ''key'' d)) ` set (c_info w h t) = (\<lambda>k. (Some tag, Some k)) ` info_keys (gw_prps w)"
proof (cases "gw_prps w")
  case Nil
  then show ?thesis
    by (simp add: c_info_def info_keys_def graph_keys_def attr_datum insert_commute)
next
  case (Cons p ps)
  then show ?thesis
    by (cases "ps = []")
      (simp_all add: c_info_def info_keys_def graph_keys_def attr_datum image_image image_constant_conv insert_commute)
qed

lemma one_child_keys:
  assumes "x_children root = [g]"
    and r_def: "r = add_keys (in_graph (\<lambda>g. fold (\<lambda>d e. sub_element e d) (c_info w h t) g) root)"
  shows "declared r = declared root @ witness_keys"
    and "set (used_keys r) = set (used_keys root) \<union> (\<lambda>k. (Some (x_tag g), Some k)) ` info_keys (gw_prps w)"
proof -
  let ?g = "fold (\<lambda>d e. sub_element e d) (c_info w h t) g"
  obtain tg a x where root: "root = Elem tg a x [g]" using assms(1) by (cases root) simp
  have u: "set (used_keys ?g) = set (used_keys g) \<union> (\<lambda>k. (Some (x_tag g), Some k)) ` info_keys (gw_prps w)"
    using c_info_keys by (subst data_fold(3)) (auto simp: c_info_used)
  show "declared r = declared root @ witness_keys"
    unfolding r_def add_keys_all(1)
    by (simp add: root in_graph_def declared_def data_fold(1) attr_def data_fold(2))
  show "set (used_keys r) = set (used_keys root) \<union> (\<lambda>k. (Some (x_tag g), Some k)) ` info_keys (gw_prps w)"
    by (auto simp: r_def add_keys_all root in_graph_def data_fold(1) u attr_def data_fold(2))
qed

lemma info_keys_known: "(\<lambda>k. (Some ''graph'', Some k)) ` info_keys prps \<subseteq> set witness_keys"
  by (auto simp: info_keys_def witness_keys_def)

lemma graph_well_keyed:
  assumes "x_children root = [g]" and "x_tag g = ''graph''" and "declared r = declared root @ witness_keys"
    and "set (used_keys r) = set (used_keys root) \<union> (\<lambda>k. (Some (x_tag g), Some k)) ` info_keys prps"
  shows "well_keyed r \<longleftrightarrow> set (used_keys root) \<subseteq> set witness_keys"
proof -
  have "declared root = []" using assms(1,2) by (simp add: declared_def)
  with assms(2-4) info_keys_known [of prps] show ?thesis
    by (simp add: well_keyed_def witness_keys_distinct)
qed


text \<open>A document of KLEE with an edge that names a line.\<close>

definition klee_doc :: xml where
  "klee_doc = Elem ''graphml'' [] None [Elem ''graph'' [] None
     [Elem ''edge'' [] None [datum ''startline'' ''7'']]]"

definition wit_example :: wit_env where
  "wit_example = \<lparr>we_cc = quiet_env, we_bytes = (\<lambda>log f. Some [105, 10]), we_lxml = True,
     we_xml = (\<lambda>log f. Inr klee_doc), we_sha256 = (\<lambda>t. ''00''), we_time = (\<lambda>f. ''now''), we_uuid = ''u'',
     we_version = ''1''\<rparr>"

lemma wit_example_simps [simp]:
  "we_lxml wit_example" "we_xml wit_example log f = Inr klee_doc" "we_cc wit_example = quiet_env"
  "open_text wit_example log f = Inr (map char_of_byte [105, 10])"
proof -
  have "read_text [105, 10] = Inr (map char_of_byte [105, 10])" by code_simp
  then show "open_text wit_example log f = Inr (map char_of_byte [105, 10])"
    by (simp add: open_text_def wit_example_def)
qed (simp_all add: wit_example_def)


section \<open>The path of the source\<close>

text \<open>Following a relative path from a directory.\<close>

definition follow :: "string list \<Rightarrow> string list \<Rightarrow> string list" where
  "follow dir rel = foldl (\<lambda>d x. if x = ''..'' then butlast d else d @ [x]) dir rel"

lemma follow_up: "follow dir (replicate n ''..'' @ rel) = follow (take (length dir - n) dir) rel"
  by (induction n arbitrary: dir) (simp_all add: follow_def butlast_conv_take)

lemma follow_down: "''..'' \<notin> set rel \<Longrightarrow> follow dir rel = dir @ rel"
  by (induction rel arbitrary: dir) (auto simp: follow_def)

lemma common_part:
  "take (length (longest_common_prefix xs ys)) xs = longest_common_prefix xs ys"
  "take (length (longest_common_prefix xs ys)) ys = longest_common_prefix xs ys"
  "length (longest_common_prefix xs ys) \<le> length xs"
proof -
  have p: "take (length p) zs = p \<and> length p \<le> length zs" if "prefix p zs" for p zs :: "'a list"
    using that by (auto simp: prefix_def)
  show "take (length (longest_common_prefix xs ys)) xs = longest_common_prefix xs ys"
    "take (length (longest_common_prefix xs ys)) ys = longest_common_prefix xs ys"
    "length (longest_common_prefix xs ys) \<le> length xs"
    using p [OF longest_common_prefix_prefix1 [of xs ys]] p [OF longest_common_prefix_prefix2 [of xs ys]] by blast+
qed

lemma relative_leads: "''..'' \<notin> set to \<Longrightarrow> follow from (relative from to) = to"
proof -
  assume "''..'' \<notin> set to"
  then have d: "''..'' \<notin> set (drop n to)" for n by (meson in_set_dropD)
  let ?c = "longest_common_prefix from to"
  have "follow from (relative from to) = take (length ?c) from @ drop (length ?c) to"
    using common_part(3) [of "from" to] by (simp add: relative_def Let_def follow_up follow_down [OF d])
  also have "\<dots> = take (length ?c) to @ drop (length ?c) to"
    using common_part(1,2) [of "from" to] by simp
  finally show ?thesis by simp
qed

lemma split_on_clean: "\<forall>w \<in> set (split_on c s). c \<notin> set w"
  by (induction c s rule: split_on.induct) (auto split: list.splits)

lemma path_parts_clean: "x \<in> set (path_parts p) \<Longrightarrow> x \<noteq> [] \<and> CHR ''/'' \<notin> set x"
  using split_on_clean [of "CHR ''/''" p] by (simp add: path_parts_def)

lemma path_parts_join: "\<forall>x \<in> set ps. x \<noteq> [] \<and> CHR ''/'' \<notin> set x \<Longrightarrow> path_parts (join ''/'' ps) = ps"
  using split_on_join [of ps "CHR ''/''"]
  by (cases "ps = []") (auto simp: path_parts_def filter_id_conv)

text \<open>The path of the source, followed from the directory of the witness, leads to the source; when
  that directory is the source itself the path is a dot.\<close>

lemma relpath_leads:
  assumes "relpath V path start = Inr rel"
    and "''..'' \<notin> set (path_parts (abspath (e_world (we_cc V)) path))"
  shows "rel = ''.'' \<and> path_parts (abspath (e_world (we_cc V)) start) = path_parts (abspath (e_world (we_cc V)) path) \<or>
    follow (path_parts (abspath (e_world (we_cc V)) start)) (path_parts rel) =
      path_parts (abspath (e_world (we_cc V)) path)"
proof -
  let ?p = "path_parts (abspath (e_world (we_cc V)) path)" and ?s = "path_parts (abspath (e_world (we_cc V)) start)"
  have l: "follow ?s (relative ?s ?p) = ?p" by (rule relative_leads [OF assms(2)])
  have "\<forall>x \<in> set (relative ?s ?p). x \<noteq> [] \<and> CHR ''/'' \<notin> set x"
    using path_parts_clean [of _ "abspath (e_world (we_cc V)) path"]
    by (auto simp: relative_def Let_def dest!: in_set_dropD)
  from path_parts_join [OF this] l assms(1) show ?thesis
    by (auto simp: relpath_def Let_def follow_def split: if_splits)
qed

section \<open>An executable witness without a place for it\<close>

text \<open>The exceptions that the script or the driver handles.\<close>

definition handled :: "exn \<Rightarrow> bool" where
  "handled e = 
     (case e of SymbioticException m \<Rightarrow> True | SystemExit m \<Rightarrow> True | SymbioticExceptionalResult m \<Rightarrow> True
      | Timeout \<Rightarrow> True | KeyboardInterrupt \<Rightarrow> True | _ \<Rightarrow> False)"

lemma finally_kill: "fst (finally_do m kill_running s) = fst (m s)"
  by (auto simp: finally_do_def kill_running_def cmd_run onlyif_def split: prod.split)

lemma main_report_unhandled: "\<not> handled e \<Longrightarrow> main_report (Inl e) = None"
  by (cases e) (simp_all add: handled_def main_report_def)

lemma never_read:
  assumes "handled e"
  shows "never_raises e (file_read n)" "never_raises e read_int" "never_raises e read_block"
proof -
  have u: "unpack_be bs \<noteq> Inl e" for bs
    using assms by (auto simp: unpack_be_def unpack_native_def handled_def)
  show r: "never_raises e (file_read n)" for n
    using assms unfolding file_read_def Let_def by (intro never_intros) (auto simp: handled_def)
  show i: "never_raises e read_int" unfolding read_int_def by (intro never_intros r u)
  show "never_raises e read_block" unfolding read_block_def by (intro never_intros r i)
qed

lemma never_parse_ktest: "handled e \<Longrightarrow> never_raises e parse_ktest"
  unfolding parse_ktest_def
  by (intro never_intros never_read) (auto simp: handled_def)

lemma never_print_object: "handled e \<Longrightarrow> never_raises e (print_object obj)"
  unfolding print_object_def print_line_def
  by (cases obj) (auto intro!: never_intros simp: decode_name_def handled_def)

lemma never_print_nonzero: "handled e \<Longrightarrow> never_raises e (print_nonzero objs n)"
  by (induction objs arbitrary: n)
    (auto intro!: never_intros never_print_object simp: is_zero_def handled_def)

lemma never_dump_objects: "handled e \<Longrightarrow> never_raises e (dump_objects objs)"
  unfolding dump_objects_def print_line_def
  by (intro never_intros never_print_object never_print_nonzero)

lemma never_describe: "handled e \<Longrightarrow> never_raises e (describe_error V f os)"
proof -
  assume h: "handled e"
  have o: "open_text V log g \<noteq> Inl e" for log g
    using h by (cases "we_bytes V log g")
      (auto simp: open_text_def read_text_def decode_def handled_def bindE_def split: sum.splits)
  have p: "fst (parse_ktest bs) \<noteq> Inl e" for bs
    using never_raisesD [OF never_parse_ktest [OF h]] .
  have "never_raises e (dump_errors
      \<lparr>f_text = (\<lambda>f. bindE (open_text V log f) (\<lambda>t. Inr (keep_lines t))), f_bytes = we_bytes V log,
       f_listdir = ls, f_abspath = ab\<rparr> d)" for log ls ab d
    unfolding dump_errors_def dump_error_def dump_ktest_def print_lines_of_def print_line_def Let_def
    using h o p
    by (intro never_intros never_dump_objects h; force simp: bindE_def of_opt_def handled_def
        intro!: never_intros never_dump_objects split: sum.splits option.splits exn.splits)
  then show ?thesis
    unfolding describe_error_def Let_def
    by (intro never_intros) (simp add: never_raises_def on_printed_def split: prod.splits, metis fst_conv)
qed

text \<open>The settings never get a place for the witness during a run.\<close>

definition no_output :: "cc \<Rightarrow> bool" where
  "no_output s \<longleftrightarrow> witness_output (c_opts s) = None"

interpretation no_output_kept: symbiotic_invariant E no_output for E
proof (rule symbiotic_invariant.intro)
  fix tg :: target
  show "driver_invariant E tg no_output"
  proof unfold_locales
    fix cmd w
    show "keeps no_output (run_process (e_world E) cmd w)"
    proof (rule keepsI)
      fix s assume "no_output s"
      then show "no_output (snd (run_process (e_world E) cmd w s))"
        by (cases rule: run_process_cases [of s "e_world E" cmd w]) (auto simp: no_output_def)
    qed
  qed (simp_all add: no_output_def)
qed

text \<open>C37: An executable witness is asked for without a place for witnesses, which the command line
  accepts. When the verifier finds an error, the error trace is dumped, and then the script ends in
  an uncaught exception: no verdict is printed, although the run had one.\<close>

theorem executable_witness_loses_verdict:
  assumes "run_symbiotic (we_cc V) tg
      (init_cc (main_settings os p) p (map (abspath (e_world (we_cc V))) args)) = (Inr res, c)"
    and "c_reports c = DescribeError f # ExecWitness g # rs" and "witness_output os = None"
  shows "fst (script V tg os p args) = None"
proof -
  let ?sources = "map (abspath (e_world (we_cc V))) args"
  have "no_output (init_cc (main_settings os p) p ?sources)"
    using assms(3) by (simp add: no_output_def init_cc_def main_settings_def)
  from keepsD [OF no_output_kept.keeps_run_symbiotic this] assms(1) have n: "witness_output (c_opts c) = None"
    by (metis no_output_def snd_conv)
  have lost: "main_report (fst (run_reporting V tg os p ?sources s)) = None" for s
  proof -
    obtain r s2 where d: "describe_error V f (c_opts c) (start_report c s) = (r, s2)" by (cases "describe_error V f (c_opts c) (start_report c s)")
    have "r \<noteq> Inl e" if "handled e" for e using never_raises_run [OF never_describe [OF that] d] .
    then have d': "\<not> handled e" if "r = Inl e" for e using that by blast
    then have "main_report (case r of Inl e \<Rightarrow> Inl e | Inr _ \<Rightarrow> Inl AttributeError) = None"
      by (cases r) (simp_all add: main_report_unhandled, simp add: main_report_def)
    moreover have "fst (run_reporting V tg os p ?sources s) = (case r of Inl e \<Rightarrow> Inl e | Inr _ \<Rightarrow> Inl AttributeError)"
      using d' by (cases r) (simp_all add: run_reporting_def assms(1,2) carry_out_def klee_exec_witness_def n sq_run d
          throw_def cmd_run bnd_def handle_def symbiotic_handler_def handled_def split: exn.splits)
    ultimately show ?thesis by simp
  qed
  have meta: "never_raises e (create_testcomp_metadata V d x ps b)" if "handled e" for e d x ps b
  proof -
    have "get_hash V log x \<noteq> Inl e" for log
      using that by (cases "we_bytes V log x")
        (auto simp: get_hash_def open_text_def read_text_def decode_def handled_def bindE_def split: sum.splits)
    then show ?thesis unfolding create_testcomp_metadata_def write_file_def by (intro never_intros)
  qed
  have meta': "never_raises e (onlyif b (sq (assertc a) (create_testcomp_metadata V d x ps b')))"
    if "handled e" for e a b d x ps b'
    using that by (intro never_intros meta) (auto simp: handled_def)
  let ?meta = "onlyif (test_comp os) (sq (assertc (length ?sources = 1))
    (create_testcomp_metadata V (testsuite_output os) (hd ?sources) (p_ltl p) (is32bit os)))"
  obtain r s where m: "?meta script_start = (r, s)" by (cases "?meta script_start")
  have "\<not> handled e" if "r = Inl e" for e
    using never_raises_run [OF meta' m] that by blast
  then have "main_report (fst (script_run V tg os p args)) = None"
    using m lost by (cases r) (simp_all add: script_run_def Let_def bnd_def finally_kill main_report_unhandled)
  then show ?thesis by (simp add: script_def split: prod.split) (metis fst_conv)
qed

section \<open>A run with a crash\<close>

text \<open>An error is found by a tool that has the reports of KLEE; an executable witness is asked for.\<close>

definition crash_options :: options where
  "crash_options = plain_options\<lparr>linkundef := [], link_files_before_slicing := [], no_optimize := True, no_instrument := True, 
     noslice := True, executable_witness := True\<rparr>"

definition crash_tool :: tool where
  "crash_tool = (probe_tool ''false'')
     \<lparr>tl_compilation_options := None, tl_slicer_options := None, tl_passes_before_slicing := None,
      tl_describes_error := True, tl_writes_exec_witness := True\<rparr>"

lemma crash_numbers: "llvm_numbers crash_tool = Inr (10, 0)" "new_pm_args crash_tool = Inr []"
  by code_simp+

lemma crash_options_simps [simp]:
  "linkundef crash_options = []" "no_optimize crash_options" "no_instrument crash_options" "noslice crash_options"
  "executable_witness crash_options" "\<not> witness_check crash_options" "\<not> save_files crash_options" "\<not> stats crash_options"
  "\<not> source_is_bc crash_options" "unroll_count crash_options = 0" "link_files crash_options = []"
  "link_files_before_slicing crash_options = []" "\<not> require_slicer crash_options" "final_output crash_options = None"
  "optlevel crash_options = optlevel plain_options" "witness_output crash_options = None" "\<not> test_comp crash_options"
  "\<not> no_verification crash_options" "\<not> sv_comp crash_options" "tool_params crash_options = []" "nowitness crash_options"
  by (simp_all add: crash_options_def plain_options_def SymbioticOptions_def)

lemma crash_tool_simps [simp]:
  "tl_compilation_options crash_tool = None" "tl_passes_after_compilation crash_tool = None"
  "tl_actions_after_compilation crash_tool = None" "tl_passes_after_instrumentation crash_tool = None"
  "tl_actions_before_slicing crash_tool = None" "tl_passes_before_slicing crash_tool = None"
  "tl_actions_after_slicing crash_tool = None" "tl_passes_after_slicing crash_tool = None"
  "tl_passes_before_verification crash_tool = None" "tl_actions_before_verification crash_tool = None"
  "tl_determine_result crash_tool os p r out = Inr ''false''" "tl_describes_error crash_tool"
  "tl_writes_exec_witness crash_tool" "tl_cmdline crash_tool os p e ps ts = Inr ([e] @ ps @ ts)"
  "tl_executable crash_tool = Named ''true''"
  by (simp_all add: crash_tool_def probe_tool_def base_tool_def)

lemma crash_strings [simp]: "\<not> endswith ''a.c'' ''.bc''" "\<not> endswith ''a.c'' ''.ll''" "\<not> str_set None"
  "startswith ''false'' ''false''" "\<not> startswith (lower ''false'') ''error''" "\<not> startswith (lower ''false'') ''unknown''"
  by code_simp+

lemma crash_runs:
  "\<exists>f res c. run_symbiotic probe_env (single crash_tool)
      (init_cc crash_options (make_prop UnreachCall None) [''a.c'']) = (Inr res, c) \<and>
    c_reports c = [DescribeError f, ExecWitness f]"
  by (simp add: cc_run_def run_compilation_def run_instrument_def run_slicing_def write_final_output_def
      disable_and_rename_optimizations_def crash_numbers compile_sources_def compile_one_def
      compile_to_llvm_def link_files_into_def save_ll_def get_stats_def link_unconditional_def
      link_undefs_def step_eval ask_list_def ask_def init_cc_def run_command_def runcmd_def
      List.map_filter_def preprocessing_passes_def undefinedness_def signedoverflow_def
      memcleanup_def slicing_passes_def run_symbiotic_def run_symbiotic_steps_def decide_def
      try_unsliced_def failed_on_sliced_def confirm_error_def has_error_def rerun_unconfirmed_def
      NOT_CONFIRMED_def describe_def)

theorem executable_witness_loses_verdict_witness:
  "fst (script (wit_example\<lparr>we_cc := probe_env\<rparr>) (single crash_tool) crash_options
     (make_prop UnreachCall None) [''a.c'']) = None"
proof -
  have main: "main_settings crash_options (make_prop UnreachCall None) = crash_options"
    by (simp add: main_settings_def)
  from crash_runs obtain f res c where run: "run_symbiotic probe_env (single crash_tool)
      (init_cc crash_options (make_prop UnreachCall None) [''a.c'']) = (Inr res, c)"
    and reports: "c_reports c = [DescribeError f, ExecWitness f]" by blast
  show ?thesis
    by (rule executable_witness_loses_verdict [where res = res and c = c and f = f and g = f and rs = "[]"])
      (simp_all add: main run reports)
qed

end
