(* ===== verification/Testcases.thy ===== *)
theory Testcases
  imports Witnesses
begin

text \<open>
  \<open>testsuits/testcases.py\<close>: \<open>TestCaseWriter\<close> turns a test of KLEE into an XML test case with the
  values of the scalar variables of \<open>main\<close>, in the order of their lines. The class is complete but
  the program does not use it; the switches at the top of the module are fixed (objects in \<open>main\<close>
  only, trivial witnesses). The lemma shows which inputs a test case holds, and the example what
  happens to an object that is no number.
\<close>

definition init_test_case :: "bool \<Rightarrow> xml" where
  "init_test_case covers_error =
     Elem ''testcase'' (if covers_error then [(''key'', ''coverError'')] else []) None []"

text \<open>\<open>_variable_re.match\<close>: at the end, \<open>$\<close> also matches before a line feed.\<close>

definition var_start :: "char \<Rightarrow> bool" where
  "var_start c \<longleftrightarrow>
     (let n = of_char c :: nat in n \<in> {97..122} \<or> n \<in> {65..90} \<or> c = CHR ''_'' \<or> c = CHR ''$'')"

definition var_char :: "char \<Rightarrow> bool" where
  "var_char c \<longleftrightarrow> var_start c \<or> is_digit c"

definition is_variable :: "string \<Rightarrow> bool" where
  "is_variable s =
     (case s of [] \<Rightarrow> False
      | c # cs \<Rightarrow> var_start c \<and> dropWhile var_char cs \<in> {[], [CHR 0x0A]})"

text \<open>\<open>split_name\<close>: the function, the variable and the line, if the name has four parts.\<close>

definition split_name :: "byte list \<Rightarrow> exn + (string \<times> string \<times> string) option" where
  "split_name name =
     bindE (decode (map char_of_byte name)) (\<lambda>t.
     Inr (case split_on (CHR '':'') t of [f, v, l, _] \<Rightarrow> Some (f, v, l) | _ \<Rightarrow> None))"

text \<open>\<open>_parseKtest\<close> is a copy of the parser of the KLEE target.\<close>

definition parse_test_file :: "(byte list \<times> byte list) list reader" where
  "parse_test_file = parse_ktest"

text \<open>The scalar variables of \<open>main\<close>, with their lines.\<close>

fun main_objects :: "(byte list \<times> byte list) list \<Rightarrow> exn + (string \<times> byte list \<times> byte list) list" where
  "main_objects [] = Inr []"
| "main_objects (obj # objs) =
     bindE (split_name (fst obj)) (\<lambda>n.
     case n of
       None \<Rightarrow> main_objects objs
     | Some (var_fun, var_name, var_line) \<Rightarrow>
         if var_fun \<noteq> ''main'' \<or> \<not> is_variable var_name then main_objects objs
         else bindE (main_objects objs) (\<lambda>rest. Inr ((var_line, obj) # rest)))"

text \<open>\<open>sort\<close> computes all keys first; it is stable.\<close>

definition sort_objects ::
  "(string \<times> byte list \<times> byte list) list \<Rightarrow> exn + (byte list \<times> byte list) list" where
  "sort_objects objs =
     bindE (mapE (\<lambda>x. of_opt ValueError (py_int (fst x))) objs) (\<lambda>keys.
     Inr (map (\<lambda>x. snd (snd x)) (sort_key fst (zip keys objs))))"

text \<open>\<open>val\<close> keeps its value from the object before when there are no bytes; of an object that is
  no number only the last byte is left.\<close>

definition input_value :: "byte list \<Rightarrow> int option \<Rightarrow> int option" where
  "input_value bs val =
     (case nice_value bs of Some v \<Rightarrow> Some v
      | None \<Rightarrow> if bs = [] then val else Some (uint (last bs)))"

fun add_inputs :: "(byte list \<times> byte list) list \<Rightarrow> int option \<Rightarrow> xml \<Rightarrow> exn + xml" where
  "add_inputs [] val root = Inr root"
| "add_inputs (obj # objs) val root =
     bindE (split_name (fst obj)) (\<lambda>n.
     case n of
       None \<Rightarrow> add_inputs objs val root
     | Some (var_fun, var_name, var_line) \<Rightarrow>
         bindE (guardE (var_fun \<noteq> [] \<and> var_name \<noteq> [] \<and> var_line \<noteq> []) AssertionError) (\<lambda>_.
         let val' = input_value (snd obj) val in
         bindE (of_opt NameError val') (\<lambda>v.
         add_inputs objs val' (sub_element root (text_element ''input'' [(''variable'', var_name)] (str_int v))))))"

definition dump_test :: "(byte list \<times> byte list) list \<Rightarrow> xml \<Rightarrow> exn + xml" where
  "dump_test objects root =
     bindE (main_objects objects) (\<lambda>new_objects.
     bindE (sort_objects new_objects) (\<lambda>sorted. add_inputs sorted None root))"

text \<open>\<open>parseTest\<close>: the file with the suffix \<open>ktest\<close> instead of \<open>path\<close>.\<close>

definition parse_test :: "wit_env \<Rightarrow> string list list \<Rightarrow> string \<Rightarrow> xml \<Rightarrow> exn + xml" where
  "parse_test V log path_file root =
     bindE (of_opt OSError (we_bytes V log (slice_to path_file (- 4) @ ''ktest''))) (\<lambda>bytes.
     bindE (fst (parse_test_file bytes)) (\<lambda>objects. dump_test objects root))"

section \<open>The inputs\<close>

text \<open>The variable of an object, its line and the element for it.\<close>

definition variable_of :: "byte list \<times> byte list \<Rightarrow> string" where
  "variable_of obj = split_on (CHR '':'') (map char_of_byte (fst obj)) ! 1"

definition line_of :: "byte list \<times> byte list \<Rightarrow> int" where
  "line_of obj = the (py_int (split_on (CHR '':'') (map char_of_byte (fst obj)) ! 2))"

definition input_of :: "byte list \<times> byte list \<Rightarrow> xml" where
  "input_of obj = text_element ''input'' [(''variable'', variable_of obj)] (str_int (the (nice_value (snd obj))))"

definition scalar_in_main :: "byte list \<times> byte list \<Rightarrow> bool" where
  "scalar_in_main obj \<longleftrightarrow> (\<exists>v l. split_name (fst obj) = Inr (Some (''main'', v, l)) \<and> is_variable v)"

lemma split_name_parts:
  assumes "split_name name = Inr (Some (f, v, l))"
  shows "split_on (CHR '':'') (map char_of_byte name) ! 1 = v"
    and "split_on (CHR '':'') (map char_of_byte name) ! 2 = l"
  using assms
  by (auto simp: split_name_def decode_def bindE_eq_Inr split: if_splits list.splits)

definition with_line :: "string \<times> byte list \<times> byte list \<Rightarrow> bool" where
  "with_line x \<longleftrightarrow> (\<exists>v. split_name (fst (snd x)) = Inr (Some (''main'', v, fst x)))"

lemma main_objects_filter:
  "main_objects objs = Inr xs \<Longrightarrow>
    map snd xs = filter scalar_in_main objs \<and> (\<forall>x \<in> set xs. with_line x)"
proof (induction objs arbitrary: xs)
  case (Cons obj objs)
  then obtain n where n: "split_name (fst obj) = Inr n" by (auto simp: bindE_eq_Inr)
  have s: "scalar_in_main obj \<longleftrightarrow> (\<exists>v l. n = Some (''main'', v, l) \<and> is_variable v)"
    by (auto simp: scalar_in_main_def n)
  have w: "split_name (fst obj) = Inr (Some (''main'', v, l)) \<Longrightarrow> with_line (l, obj)" for v l
    by (simp add: with_line_def)
  show ?case
    using Cons.prems Cons.IH n s w by (auto simp: bindE_eq_Inr split: option.splits if_splits)
qed simp

lemma sort_key_map: "sort_key k (map g xs) = map g (sort_key (\<lambda>x. k (g x)) xs)"
proof -
  have i: "insort_key k (g x) (map g zs) = map g (insort_key (\<lambda>x. k (g x)) x zs)" for x zs
    by (induction zs) simp_all
  show ?thesis by (induction xs) (simp_all add: i)
qed

lemma sort_objects_lines:
  assumes "sort_objects xs = Inr ys" and "\<forall>x \<in> set xs. with_line x"
  shows "ys = sort_key line_of (map snd xs)"
proof -
  obtain keys where k: "mapE (\<lambda>x. of_opt ValueError (py_int (fst x))) xs = Inr keys"
    and ys: "ys = map (\<lambda>x. snd (snd x)) (sort_key fst (zip keys xs))"
    using assms(1) by (auto simp: sort_objects_def bindE_eq_Inr)
  have "keys = map (\<lambda>x. line_of (snd x)) xs"
    using k assms(2)
  proof (induction xs arbitrary: keys)
    case (Cons x xs)
    then show ?case using split_name_parts(2) by (fastforce simp: bindE_eq_Inr line_of_def with_line_def)
  qed simp
  then have z: "zip keys xs = map (\<lambda>x. (line_of (snd x), x)) xs"
    by (simp add: zip_map1 zip_same_conv_map)
  show ?thesis by (simp add: ys z sort_key_map)
qed

lemma add_inputs_all:
  assumes "add_inputs objs val root = Inr root'"
    and "\<forall>obj \<in> set objs. scalar_in_main obj \<and> nice_value (snd obj) \<noteq> None"
  shows "x_children root' = x_children root @ map input_of objs"
  using assms
proof (induction objs arbitrary: val root)
  case (Cons obj objs)
  then obtain v l x where n: "split_name (fst obj) = Inr (Some (''main'', v, l))" "nice_value (snd obj) = Some x"
    by (auto simp: scalar_in_main_def)
  then have "input_of obj = text_element ''input'' [(''variable'', v)] (str_int x)"
    by (simp add: input_of_def variable_of_def split_name_parts(1) [OF n(1), simplified])
  with Cons n show ?case by (auto simp: input_value_def Let_def bindE_eq_Inr split: if_splits)
qed simp

text \<open>A test case holds the scalar variables of \<open>main\<close>, in the order of their lines, with their
  values as signed numbers.\<close>

lemma test_case_inputs:
  assumes "dump_test objects (init_test_case e) = Inr root"
    and "\<forall>obj \<in> set objects. scalar_in_main obj \<longrightarrow> length (snd obj) \<in> {1, 2, 4, 8}"
  shows "x_children root = map input_of (sort_key line_of (filter scalar_in_main objects))"
proof -
  obtain xs ys where xs: "main_objects objects = Inr xs" and ys: "sort_objects xs = Inr ys"
    and root: "add_inputs ys None (init_test_case e) = Inr root"
    using assms(1) by (auto simp: dump_test_def bindE_eq_Inr)
  from main_objects_filter [OF xs] have m: "map snd xs = filter scalar_in_main objects"
    and n: "\<forall>x \<in> set xs. with_line x" by blast+
  from sort_objects_lines [OF ys n] have y: "ys = sort_key line_of (filter scalar_in_main objects)"
    by (simp add: m)
  have "nice_value bs \<noteq> None" if "length bs \<in> {1, 2, 4, 8}" for bs
    using that by (simp add: nice_value_def unpack_native_def)
  then have "\<forall>obj \<in> set ys. scalar_in_main obj \<and> nice_value (snd obj) \<noteq> None"
    using assms(2) by (simp add: y)
  from add_inputs_all [OF root this] show ?thesis by (simp add: y init_test_case_def)
qed

text \<open>Of the three bytes 1, 2, 3 of a structure only the last is left.\<close>

lemma test_case_of_struct:
  "dump_test [(map (\<lambda>c. of_nat (of_char c)) ''main:s:3:0'', [1, 2, 3])] (init_test_case True) =
    Inr (Elem ''testcase'' [(''key'', ''coverError'')] None [text_element ''input'' [(''variable'', ''s'')] ''3''])"
  by code_simp

end
