(* ===== verification/Ultimate.thy ===== *)
theory Ultimate
  imports Targets
begin

text \<open>
  Ultimate (\<open>targets/ultimate.py\<close>): the search for Java and for the version of Ultimate, the command
  line in its three forms, and the verdict without a property file. The programs that are run, the
  files, the version of the wrapper and the value of the memory limit are arguments; an attribute
  that is not set is \<open>None\<close>. The lemmas show when a command line is built and that no argument of
  it is empty.
\<close>

section \<open>Java\<close>

text \<open>A program that is run: its output, its errors and its status, or \<open>None\<close> for an \<open>OSError\<close>.\<close>

record ultimate_env =
  ul_isfile :: "string \<Rightarrow> bool"
  ul_wrapper_version :: string
  ul_glob :: "string \<Rightarrow> string list"
  ul_which :: "string \<Rightarrow> string option"
  ul_run :: "string list \<Rightarrow> (string \<times> string \<times> int) option"

definition java_candidates :: "string list" where
  "java_candidates =
     [''java'', ''/usr/bin/java'', ''/opt/oracle-jdk-bin-*/bin/java'', ''/opt/openjdk-*/bin/java'',
      ''/usr/lib/jvm/java-*-openjdk-amd64/bin/java'']"

text \<open>\<open>"(\d+\.\d+).*"\<close> at a position: the group, if another quote follows on the line.\<close>

definition quoted_version :: "string \<Rightarrow> string option" where
  "quoted_version s =
     (case s of [] \<Rightarrow> None
      | q # cs \<Rightarrow>
          let a = takeWhile is_digit cs; r = dropWhile is_digit cs;
              b = takeWhile is_digit (tl r); rest = dropWhile is_digit (tl r)
          in if q = CHR 0x22 \<and> a \<noteq> [] \<and> r \<noteq> [] \<and> hd r = CHR ''.'' \<and> b \<noteq> [] \<and>
                CHR 0x22 \<in> set (takeWhile (\<lambda>c. c \<noteq> CHR 0x0A) rest)
             then Some (a @ ''.'' @ b) else None)"

fun search_quoted :: "string \<Rightarrow> string option" where
  "search_quoted [] = None"
| "search_quoted (c # cs) =
     (case quoted_version (c # cs) of Some v \<Rightarrow> Some v | None \<Rightarrow> search_quoted cs)"

text \<open>The candidates one after the other; the first of a version is kept. A text without a version is
  an \<open>AttributeError\<close>.\<close>

fun add_javas :: "ultimate_env \<Rightarrow> string list \<Rightarrow> (string \<times> string) list \<Rightarrow> exn + (string \<times> string) list" where
  "add_javas L [] rtr = Inr rtr"
| "add_javas L (c # cs) rtr =
     (case ul_which L c of
        None \<Rightarrow> add_javas L cs rtr
      | Some candidate \<Rightarrow>
          (case ul_run L [candidate, ''-version''] of
             None \<Rightarrow> add_javas L cs rtr
           | Some (out, errs, status) \<Rightarrow>
               if strip out = [] then add_javas L cs rtr
               else
                 bindE (of_opt AttributeError (search_quoted (strip out))) (\<lambda>version.
                 add_javas L cs (if map_of rtr version = None then rtr @ [(version, candidate)] else rtr))))"

text \<open>\<open>ToolNotFoundException\<close> is not defined: a \<open>NameError\<close>.\<close>

definition get_java_installations :: "ultimate_env \<Rightarrow> exn + (string \<times> string) list" where
  "get_java_installations L =
     bindE (add_javas L (concat (map (ul_glob L) java_candidates)) []) (\<lambda>rtr.
     if rtr = [] then Inl NameError else Inr rtr)"

section \<open>Versions\<close>

definition LAUNCHER_JARS :: "string list" where
  "LAUNCHER_JARS =
     [''plugins/org.eclipse.equinox.launcher_1.5.800.v20200727-1323.jar'',
      ''plugins/org.eclipse.equinox.launcher_1.3.100.v20150511-1540.jar'']"

definition get_current_launcher_jar :: "ultimate_env \<Rightarrow> string \<Rightarrow> exn + string" where
  "get_current_launcher_jar L executable =
     of_opt OSError (find (ul_isfile L) (map (path_join (dirname executable)) LAUNCHER_JARS))"

text \<open>\<open>^Version is (.*)$\<close> in any line.\<close>

definition version_line :: "string \<Rightarrow> string option" where
  "version_line out =
     map_option (drop (length ''Version is ''))
       (find (\<lambda>l. startswith l ''Version is '') (split_on (CHR 0x0A) out))"

definition query_ultimate_version :: "ultimate_env \<Rightarrow> string list \<Rightarrow> string" where
  "query_ultimate_version L cmd =
     (case ul_run L cmd of
        None \<Rightarrow> []
      | Some (out, errs, status) \<Rightarrow>
          if errs \<noteq> [] \<or> status \<noteq> 0 then []
          else case version_line (strip out) of None \<Rightarrow> [] | Some v \<Rightarrow> v)"

text \<open>The two interfaces, the newer one first; \<open>api\<close> counts down. The result is the version and what is
  stored in \<open>self.api\<close>.\<close>

fun try_javas :: "ultimate_env \<Rightarrow> string list \<Rightarrow> (string \<times> string) list \<Rightarrow> string option" where
  "try_javas L cmd [] = None"
| "try_javas L cmd ((version, java) # js) =
     (let v = query_ultimate_version L (java # cmd) in if v \<noteq> [] then Some v else try_javas L cmd js)"

fun try_apis :: "ultimate_env \<Rightarrow> string list list \<Rightarrow> (string \<times> string) list \<Rightarrow> int \<Rightarrow> exn + string \<times> int" where
  "try_apis L [] js api = Inl NameError"
| "try_apis L (cmd # cmds) js api =
     (case try_javas L cmd js of Some v \<Rightarrow> Inr (v, api) | None \<Rightarrow> try_apis L cmds js (api - 1))"

definition ultimate_version :: "ultimate_env \<Rightarrow> string \<Rightarrow> exn + string \<times> int" where
  "ultimate_version L executable =
     (let data_dir = path_join (dirname executable) ''data'' in
      bindE (get_current_launcher_jar L executable) (\<lambda>jar.
      bindE (get_java_installations L) (\<lambda>js.
      try_apis L
        [[''-Xss4m'', ''-jar'', jar, ''-data'', ''@noDefault'', ''-ultimatedata'', data_dir, ''--version''],
         [''-Xss4m'', ''-jar'', jar, ''-data'', data_dir, ''--version'']] js 2)))"

definition SVCOMP17_VERSIONS :: "string list" where "SVCOMP17_VERSIONS = [''f7c3ed31'']"

text \<open>\<open>version\<close>, with the interface it leaves behind.\<close>

definition tool_version :: "ultimate_env \<Rightarrow> string \<Rightarrow> exn + string \<times> int option" where
  "tool_version L executable =
     (let wrapper = ul_wrapper_version L in
      if wrapper \<in> set SVCOMP17_VERSIONS then Inr (wrapper, None)
      else bindE (ultimate_version L executable) (\<lambda>(v, api). Inr (v @ ''-'' @ wrapper, Some api)))"

definition is_svcomp17_version :: "ultimate_env \<Rightarrow> string \<Rightarrow> exn + bool" where
  "is_svcomp17_version L executable =
     bindE (tool_version L executable) (\<lambda>(v, api). Inr (v \<in> set SVCOMP17_VERSIONS))"

definition three_numbers :: "string \<Rightarrow> exn + int \<times> int \<times> int" where
  "three_numbers v =
     bindE (case split_on (CHR ''.'') v of [a, b, c] \<Rightarrow> Inr (a, b, c) | _ \<Rightarrow> Inl ValueError) (\<lambda>(a, b, c).
     bindE (of_opt ValueError (py_int a)) (\<lambda>major.
     bindE (if major = 0 then of_opt ValueError (py_int b) else Inr 0) (\<lambda>minor.
     bindE (if major = 0 \<and> minor < 2 then of_opt ValueError (py_int c) else Inr 0) (\<lambda>patch.
     Inr (major, minor, patch)))))"

definition requires_ultimate_data :: "ultimate_env \<Rightarrow> string \<Rightarrow> exn + bool" where
  "requires_ultimate_data L executable =
     bindE (tool_version L executable) (\<lambda>(v, api).
     if v \<in> set SVCOMP17_VERSIONS then Inr False
     else
       bindE (case split_on (CHR ''-'') v of [ult, wrapper] \<Rightarrow> Inr ult | _ \<Rightarrow> Inl ValueError) (\<lambda>ult.
       bindE (three_numbers ult) (\<lambda>(major, minor, patch).
       Inr (\<not> (major = 0 \<and> minor < 2 \<and> patch < 24)))))"

section \<open>The command line\<close>

definition NO_WRAPPER :: string where "NO_WRAPPER = ''--force-no-wrapper''"

text \<open>\<open>__assert_cmdline\<close>\<close>

definition all_arguments :: "string list \<Rightarrow> exn + string list" where
  "all_arguments cmd = bindE (guardE ([] \<notin> set cmd) AssertionError) (\<lambda>_. Inr cmd)"

text \<open>The directories for the two interfaces, after the test for the data option.\<close>

definition data_arguments :: "ultimate_env \<Rightarrow> string \<Rightarrow> string list \<Rightarrow> exn + string list" where
  "data_arguments L executable opts =
     (let data_dir = path_join (dirname executable) ''data'';
          data = ''-data'' \<in> set opts; ultimatedata = ''-ultimatedata'' \<in> set opts
      in bindE (tool_version L executable) (\<lambda>(v, api).
         bindE (requires_ultimate_data L executable) (\<lambda>needed.
         if needed then
           (if data then Inr []
            else
              bindE (of_opt AttributeError api) (\<lambda>a.
              if a = 1 then Inl ValueError
              else Inr (if a = 2 then [''-data'', ''@noDefault''] @
                    (if ultimatedata then [] else [''-ultimatedata'', data_dir]) else [])))
         else if data then Inr []
         else
           bindE (of_opt AttributeError api) (\<lambda>a.
           Inr (if a = 2 \<or> a = 1 then [''-data'', data_dir] else [])))))"

text \<open>\<open>memory\<close> is the value of \<open>rlimits.get(MEMLIMIT, None)\<close>; \<open>NotImplemented(...)\<close> is a \<open>TypeError\<close>.\<close>

definition ultimate_cmdline ::
  "ultimate_env \<Rightarrow> (exn + int option) \<Rightarrow> options \<Rightarrow> py_prop \<Rightarrow> string \<Rightarrow> string list \<Rightarrow> string list \<Rightarrow> exn + string list" where
  "ultimate_cmdline L memory s p executable opts0 tasks =
     (let direct = NO_WRAPPER \<in> set opts0;
          propertyfile = (if direct then None else p_prpfile p);
          opts = (if direct then remove1 NO_WRAPPER opts0 else opts0)
      in bindE (is_svcomp17_version L executable) (\<lambda>old.
         if old then
           bindE (guardE (str_set propertyfile) AssertionError) (\<lambda>_.
           all_arguments ([executable, the propertyfile] @
             filter (\<lambda>o'. o' \<notin> {''--full-output'', ''--architecture''}) opts @ [''--full-output''] @ tasks))
         else case propertyfile of
           Some f \<Rightarrow>
             all_arguments ([executable, ''--spec'', f, ''--architecture'',
                 if is32bit s then ''32bit'' else ''64bit''] @
               (if tasks \<noteq> [] then ''--file'' # tasks else []) @ opts)
         | None \<Rightarrow>
             if ''-tc'' \<in> set opts \<or> ''--toolchain'' \<in> set opts then
               let ea = ''-ea'' \<in> set opts; opts' = filter (\<lambda>e. e \<noteq> ''-ea'') opts in
               bindE memory (\<lambda>m.
               bindE (get_current_launcher_jar L executable) (\<lambda>jar.
               bindE (data_arguments L executable opts') (\<lambda>dat.
               all_arguments ([''java''] @ (if ea then [''-ea''] else []) @
                 (case m of None \<Rightarrow> [] | Some n \<Rightarrow> if n = 0 then [] else [''-Xmx'' @ str_int n]) @
                 [''-Xss4m'', ''-jar'', jar] @ dat @ opts' @
                 (if tasks \<noteq> [] then ''-i'' # tasks else [])))))
             else Inl TypeError))"

section \<open>The verdict without a property file\<close>

text \<open>\<open>_contains_overapproximation_result\<close> looks for these texts.\<close>

definition overapproximations :: "string list" where
  "overapproximations =
     [''Reason: overapproximation of'',
      ''Reason: overapproximation of bitwiseAnd'',
      ''Reason: overapproximation of bitwiseOr'',
      ''Reason: overapproximation of bitwiseXor'',
      ''Reason: overapproximation of shiftLeft'',
      ''Reason: overapproximation of shiftRight'',
      ''Reason: overapproximation of bitwiseComplement'']"

text \<open>The texts in the order they are looked for; \<open>contains\<close> is \<open>line.find(text) != -1\<close>.\<close>

definition ultimate_texts :: "(string \<times> string) list" where
  "ultimate_texts =
     [(''ShortDescription: Unsupported Syntax'', ''ERROR: UNSUPPORTED SYNTAX''),
      (''ShortDescription: Incorrect Syntax'', ''ERROR: INCORRECT SYNTAX''),
      (''Type Error'', ''ERROR: TYPE ERROR''),
      (''InvalidWitnessErrorResult'', ''ERROR: INVALID WITNESS FILE''),
      (''ExceptionOrErrorResult'', ''ERROR: EXCEPTION'')] @
     map (\<lambda>t. (t, ''UNKNOWN: OverapproxCex'')) overapproximations @
     [(''Found a nonterminating execution for the following lasso shaped sequence of statements'', ''FALSE(TERM)''),
      (''TerminationAnalysisResult: Termination proven'', ''TRUE''),
      (''execution that violates the LTL property'', ''FALSE(valid-ltl)''),
      (''Buchi Automizer proved that the LTL property'', ''TRUE''),
      (''Ultimate proved your program to be incorrect'', ''FALSE''),
      (''pointer dereference may fail'', ''FALSE(valid-deref)''),
      (''array index can be out of bounds'', ''FALSE(valid-deref)''),
      (''free of unallocated memory possible'', ''FALSE(valid-free)''),
      (''not all allocated memory was freed'', ''FALSE(valid-memtrack)''),
      (''overflow possible'', ''FALSE(OVERFLOW)''),
      (''Ultimate proved your program to be correct'', ''TRUE''),
      (''AllSpecificationsHoldResult'', ''TRUE''),
      (''TreeAutomizerUnsatResult'', ''unsat''),
      (''TreeAutomizerSatResult'', ''sat'')]"

fun first_text :: "(string \<Rightarrow> string \<Rightarrow> exn + bool) \<Rightarrow> string \<Rightarrow> (string \<times> string) list \<Rightarrow> exn + string option" where
  "first_text contains line [] = Inr None"
| "first_text contains line ((t, res) # ts) =
     bindE (contains line t) (\<lambda>b. if b then Inr (Some res) else first_text contains line ts)"

fun status_without_file :: "(string \<Rightarrow> string \<Rightarrow> exn + bool) \<Rightarrow> string list \<Rightarrow> exn + string" where
  "status_without_file contains [] = Inr RESULT_UNKNOWN"
| "status_without_file contains (line # ls) =
     bindE (first_text contains line ultimate_texts) (\<lambda>r.
     case r of Some res \<Rightarrow> Inr res | None \<Rightarrow> status_without_file contains ls)"

text \<open>The lines are \<open>bytes\<close> objects, whose \<open>find\<close> does not take a text.\<close>

definition bytes_find :: "string \<Rightarrow> string \<Rightarrow> exn + bool" where
  "bytes_find line t = Inl TypeError"

definition ultimate_result :: "bool \<Rightarrow> string list \<Rightarrow> exn + string" where
  "ultimate_result uses_propertyfile ls =
     (if uses_propertyfile then Inr (ultimate_status ls) else status_without_file bytes_find ls)"

text \<open>The target of the driver: the options of the last command line are the parameters of the tool.\<close>

definition ultimate_tool :: "ultimate_env \<Rightarrow> string \<Rightarrow> tool" where
  "ultimate_tool L version = (uautomizer_tool version (ultimate_cmdline L (Inl AttributeError)))
     \<lparr>tl_determine_result := (\<lambda>s p r out.
        ultimate_result (p_prpfile p \<noteq> None \<and> NO_WRAPPER \<notin> set (tool_params s)) out)\<rparr>"

text \<open>\<open>_is_sublist_or_equal\<close>, which nothing calls.\<close>

definition is_sublist_or_equal :: "string list \<Rightarrow> string list \<Rightarrow> bool" where
  "is_sublist_or_equal small big =
     list_ex (\<lambda>i. list_all (\<lambda>j. big ! (i + j) = small ! j) [0..<length small]) [0..<length big + 1 - length small]"

section \<open>Properties\<close>

text \<open>Results with arguments that are all non-empty.\<close>

definition clean :: "exn + string list \<Rightarrow> bool" where
  "clean r \<longleftrightarrow> (\<forall>cmd. r = Inr cmd \<longrightarrow> [] \<notin> set cmd)"

lemma clean_intros:
  "(\<And>x. clean (k x)) \<Longrightarrow> clean (bindE r k)" "clean (Inl e)" "clean (all_arguments cmd)"
  "(b \<Longrightarrow> clean r1) \<Longrightarrow> (\<not> b \<Longrightarrow> clean r2) \<Longrightarrow> clean (if b then r1 else r2)"
  "clean r1 \<Longrightarrow> (\<And>y. clean (f y)) \<Longrightarrow> clean (case x of None \<Rightarrow> r1 | Some y \<Rightarrow> f y)"
  by (auto simp: clean_def bindE_eq_Inr all_arguments_def split: option.splits)

lemma ultimate_cmdline_arguments: "clean (ultimate_cmdline L memory s p executable opts tasks)"
  unfolding ultimate_cmdline_def Let_def by (intro clean_intros)

text \<open>The driver passes a list for the resource limits: without a property file no command line is
  ever built, except for the old wrapper, which needs one.\<close>

lemma ultimate_needs_property_file:
  assumes "p_prpfile p = None \<or> NO_WRAPPER \<in> set opts"
  shows "isl (ultimate_cmdline L (Inl AttributeError) s p executable opts tasks)"
  using assms
  by (cases "is_svcomp17_version L executable") (auto simp: ultimate_cmdline_def Let_def str_set_def)

text \<open>Without a property file any output of the program is a \<open>TypeError\<close>; were the lines texts, the
  first line with one of the texts would decide.\<close>

lemma ultimate_result_bytes: "ls \<noteq> [] \<Longrightarrow> ultimate_result False ls = Inl TypeError"
  by (cases ls) (simp_all add: ultimate_result_def bytes_find_def ultimate_texts_def)

lemma first_text_find:
  "first_text (\<lambda>l t. Inr (is_in t l)) line ts = Inr (map_option snd (find (\<lambda>(t, res). is_in t line) ts))"
  by (induction ts) auto

lemma status_of_texts:
  "status_without_file (\<lambda>l t. Inr (is_in t l)) ls =
     Inr (case first_some (\<lambda>line. map_option snd (find (\<lambda>(t, res). is_in t line) ultimate_texts)) ls of
            Some res \<Rightarrow> res | None \<Rightarrow> RESULT_UNKNOWN)"
  by (induction ls) (auto simp: first_text_find split: option.splits)

text \<open>The first installation of each version of Java is kept, in the order of the candidates.\<close>

lemma javas_distinct:
  "get_java_installations L = Inr js \<Longrightarrow> js \<noteq> [] \<and> distinct (map fst js)"
proof -
  have "add_javas L cs rtr = Inr js \<Longrightarrow> distinct (map fst rtr) \<Longrightarrow> distinct (map fst js)" for cs rtr js
    by (induction cs arbitrary: rtr)
      (auto simp: bindE_eq_Inr map_of_eq_None_iff split: option.splits if_splits prod.splits)
  then show "get_java_installations L = Inr js \<Longrightarrow> js \<noteq> [] \<and> distinct (map fst js)"
    by (auto simp: get_java_installations_def bindE_eq_Inr split: if_splits)
qed

text \<open>The two loops find a list in the other one, at any place.\<close>

lemma is_sublist_or_equal_sublist: "is_sublist_or_equal small big \<longleftrightarrow> sublist small big"
proof -
  have at: "(\<forall>j < length small. big ! (i + j) = small ! j) \<longleftrightarrow> take (length small) (drop i big) = small"
    if "i + length small \<le> length big" for i
    using that by (auto simp: list_eq_iff_nth_eq)
  have "is_sublist_or_equal small big \<longleftrightarrow>
      (\<exists>i. i + length small \<le> length big \<and> take (length small) (drop i big) = small)"
  proof -
    have "is_sublist_or_equal small big \<longleftrightarrow>
        (\<exists>i. i + length small \<le> length big \<and> (\<forall>j < length small. big ! (i + j) = small ! j))"
    proof -
      have "i \<in> set [0..<length big + 1 - length small] \<longleftrightarrow> i + length small \<le> length big" for i by auto
      then show ?thesis
        by (simp only: is_sublist_or_equal_def list_ex_iff list_all_iff Bex_def) (simp add: Ball_def)
    qed
    then show ?thesis using at by blast
  qed
  also have "\<dots> \<longleftrightarrow> sublist small big"
  proof
    assume "\<exists>i. i + length small \<le> length big \<and> take (length small) (drop i big) = small"
    then obtain i where "take (length small) (drop i big) = small" by blast
    then have "big = take i big @ small @ drop (length small) (drop i big)"
      by (metis append_take_drop_id)
    then show "sublist small big" unfolding sublist_def by blast
  next
    assume "sublist small big"
    then obtain xs ys where "big = xs @ small @ ys" unfolding sublist_def by blast
    then show "\<exists>i. i + length small \<le> length big \<and> take (length small) (drop i big) = small"
      by (intro exI [of _ "length xs"]) simp
  qed
  finally show ?thesis .
qed

end
