(* ===== verification/Install.thy ===== *)
theory Install
  imports Witnesses SearchPath Ultimate
begin

text \<open>
  The start and the end of the script: the table of targets (\<open>targets/__init__.py\<close>,
  \<open>initialize_verifier\<close>), \<open>SetupSymbiotic.setup\<close> and \<open>cleanup\<close> with the working directory
  (\<open>runtime.py\<close>), and \<open>scripts/symbiotic\<close> from the command line to its exit. The state adds the
  current directory and the directories the program makes to the state of the environment. The
  lemmas show which runs remove their working directory.
\<close>

section \<open>The table of targets\<close>

text \<open>A target as the set-up sees it: its LLVM version, its own \<open>set_environment\<close>, and the target,
  or \<open>None\<close> for a class without a method \<open>verifiers\<close>.\<close>

record target_class =
  tc_llvm_version :: string
  tc_environment :: "unit setup_step option"
  tc_target :: "target option"

definition set_opts :: "(options \<Rightarrow> options) \<Rightarrow> unit setup_step" where
  "set_opts f = upd (\<lambda>s. s\<lparr>v_opts := f (v_opts s)\<rparr>)"

definition no_linking :: "options \<Rightarrow> options" where
  "no_linking os = os\<lparr>linkundef := []\<rparr>"

definition nidhugg_environment :: "setup_env \<Rightarrow> string \<Rightarrow> unit setup_step" where
  "nidhugg_environment U v =
     with_state (\<lambda>s.
       sq (onlyif (v_devel s) (prepend ''PATH'' (u_dir U @ ''/nidhugg/build-'' @ v @ ''/src'')))
          (set_opts (\<lambda>os. os\<lparr>is32bit := False\<rparr>)))"

definition divine_environment :: "setup_env \<Rightarrow> unit setup_step" where
  "divine_environment U =
     with_state (\<lambda>s.
       sq (onlyif (v_devel s) (prepend ''PATH'' (u_dir U @ ''/divine'')))
          (set_opts (\<lambda>os. os\<lparr>linkundef := [], is32bit := False\<rparr>)))"

definition class_of :: "string \<Rightarrow> unit setup_step option \<Rightarrow> target \<Rightarrow> target_class" where
  "class_of v env t = \<lparr>tc_llvm_version = v, tc_environment = env, tc_target = Some t\<rparr>"

text \<open>Ceagle, Map2Check and Skink only inherit from the classes of BenchExec, which know no
  portfolio.\<close>

definition bare_class :: "string \<Rightarrow> target_class" where
  "bare_class v = \<lparr>tc_llvm_version = v, tc_environment = Some (set_opts no_linking), tc_target = None\<rparr>"

definition smack_environment :: "setup_env \<Rightarrow> unit setup_step" where
  "smack_environment U =
     with_state (\<lambda>s.
       sq (onlyif (v_devel s) (prepend ''PATH'' (u_dir U @ ''/smack''))) (set_opts no_linking))"

definition divine_svcomp_environment :: "setup_env \<Rightarrow> unit setup_step" where
  "divine_svcomp_environment U =
     with_state (\<lambda>s.
       sq (onlyif (v_devel s) (prepend ''PATH'' (u_dir U @ ''/divine'')))
          (set_opts (\<lambda>os. os\<lparr>is32bit := False\<rparr>)))"

text \<open>The version of LLVM Symbiotic is built with and the files and programs of Ultimate are arguments.\<close>

record target_args =
  ta_version :: string
  ta_abspath :: "string \<Rightarrow> string"
  ta_ultimate :: ultimate_env

definition targets_table :: "target_args \<Rightarrow> setup_env \<Rightarrow> options \<Rightarrow> (string \<times> target_class) list" where
  "targets_table A U os =
     (let v = ta_version A;
          plain = (\<lambda>f tt. class_of v (Some (set_opts f)) (single tt));
          ultimate = plain no_linking (ultimate_tool (ta_ultimate A) v);
          cpa = class_of (tl_llvm_version (cpa_tool v os)) (Some (set_opts bounded_settings)) (single (cpa_tool v os));
          sb = class_of v (Some (slowbeast_environment U)) (single (slowbeast_tool v (ta_abspath A) False))
      in [(''klee'', class_of v (Some (klee_environment U v)) (single (klee_tool v os))),
          (''witch-klee'', class_of v (Some (witch_environment U v)) (single (witch_tool v))),
          (''ceagle'', bare_class ''3.8.1''),
          (''ikos'', class_of ''7.0.1'' None (single ikos_tool)),
          (''cbmc'', class_of v (Some (set_opts bounded_settings)) (cbmc_target v)),
          (''cbmc-svcomp'', plain no_linking (cbmc_svcomp_tool v)),
          (''esbmc'', plain bounded_settings (esbmc_tool v)),
          (''map2check'', bare_class ''6.0.1''),
          (''cpachecker'', cpa), (''cpa'', cpa),
          (''skink'', bare_class ''5.0.2''),
          (''smack'', class_of ''10.0.1'' (Some (smack_environment U)) (single smack_tool)),
          (''seahorn'', class_of ''10.0.1'' (Some (set_opts no_linking)) (single seahorn_tool)),
          (''nidhugg'', class_of v (Some (nidhugg_environment U v)) (single (nidhugg_tool v [] None))),
          (''divine'', class_of ''7.0.1'' (Some (divine_environment U)) (single divine_tool)),
          (''divine-svcomp'', class_of ''7.0.1'' (Some (divine_svcomp_environment U)) (single divine_svcomp_tool)),
          (''ultimateautomizer'', ultimate), (''ultimate'', ultimate), (''uautomizer'', ultimate), (''ua'', ultimate),
          (''svcomp'', class_of v (Some (svcomp_environment U v)) (svcomp_tool v (ta_abspath A))),
          (''testcomp'', class_of v (Some (klee_environment U v)) (single (testcomp_tool v os))),
          (''slowbeast'', sb), (''sb'', sb),
          (''predatorhp'', plain no_linking (predatorhp_tool v)),
          (''predator'', plain no_linking (predator_tool v)),
          (''2ls'', plain bounded_settings (twols_tool v)),
          (''cc'', class_of v None (single (cc_tool v (u_getcwd U))))])"

definition initialize_verifier :: "target_args \<Rightarrow> setup_env \<Rightarrow> options \<Rightarrow> exn + target_class" where
  "initialize_verifier A U os =
     of_opt (SymbioticException (''Unknown verifier: '' @ tool_name os))
       (map_of (targets_table A U os) (tool_name os))"

section \<open>Directories\<close>

record install =
  i_setup :: setup_state
  i_cwd :: string
  i_dirs :: "string list"
  i_working :: "string option"

type_synonym 'a install_step = "(install, 'a) cmd"

definition on_setup :: "'a setup_step \<Rightarrow> 'a install_step" where
  "on_setup m = (\<lambda>s. case m (i_setup s) of (r, t) \<Rightarrow> (r, s\<lparr>i_setup := t\<rparr>))"

text \<open>\<open>os.path.abspath\<close> in a current directory, for paths that do not start with two slashes.\<close>

definition normal_parts :: "string list \<Rightarrow> string list" where
  "normal_parts ps =
     foldl (\<lambda>d x. if x = [] \<or> x = ''.'' then d else if x = ''..'' then butlast d else d @ [x]) [] ps"

definition abspath_in :: "string \<Rightarrow> string \<Rightarrow> string" where
  "abspath_in cwd p = ''/'' @ join ''/'' (normal_parts (split_on (CHR ''/'') (path_join cwd p)))"

record install_env =
  n_setup :: setup_env
  n_args :: target_args
  n_executable :: "string \<Rightarrow> string \<Rightarrow> bool"
  n_versions :: "(string \<times> string) list"
  n_order :: "py_prop list \<Rightarrow> py_prop list"
  n_files :: file_system
  n_random :: "string list \<Rightarrow> string"
  n_removable :: "string \<Rightarrow> bool"

definition mkdir :: "string \<Rightarrow> unit install_step" where
  "mkdir d =
     with_state (\<lambda>s. if d \<in> set (i_dirs s) then throw OSError
       else upd (\<lambda>s. s\<lparr>i_dirs := i_dirs s @ [d]\<rparr>))"

definition below :: "string \<Rightarrow> string \<Rightarrow> bool" where
  "below d x \<longleftrightarrow> x = d \<or> startswith x (d @ ''/'')"

text \<open>\<open>rm_tmp_dir\<close>: a failure to remove is only reported.\<close>

definition rm_tmp_dir :: "install_env \<Rightarrow> string \<Rightarrow> unit install_step" where
  "rm_tmp_dir N d =
     onlyif (n_removable N d) (upd (\<lambda>s. s\<lparr>i_dirs := filter (\<lambda>x. \<not> below d x) (i_dirs s)\<rparr>))"

definition chdir :: "install_env \<Rightarrow> string \<Rightarrow> unit install_step" where
  "chdir N d =
     with_state (\<lambda>s. if d \<in> set (i_dirs s) \<or> u_isdir (n_setup N) d then upd (\<lambda>s. s\<lparr>i_cwd := d\<rparr>)
       else throw OSError)"

definition temp_prefix :: "install_env \<Rightarrow> options \<Rightarrow> string" where
  "temp_prefix N os =
     (if u_isdir (n_setup N) (working_dir_prefix os)
      then path_join (working_dir_prefix os) ''symbiotic-'' else ''symbiotic-'')"

text \<open>\<open>_setup_working_directory\<close>; \<open>mkdtemp\<close> makes a directory with a random name in the prefix.\<close>

definition setup_working_directory :: "install_env \<Rightarrow> string install_step" where
  "setup_working_directory N =
     with_state (\<lambda>s.
       let os = v_opts (i_setup s); here = abspath_in (i_cwd s) in
       if save_files os then
         let d = here ''symbiotic_files'' in
         sq (handle (mkdir d)
               (\<lambda>e. case e of OSError \<Rightarrow> sq (rm_tmp_dir N d) (mkdir d) | _ \<Rightarrow> throw e))
            (ret ''symbiotic_files'')
       else
         let tmpdir = path_join ''.'' (temp_prefix N os @ n_random N (i_dirs s)) in
         sq (mkdir (here tmpdir)) (ret tmpdir))"

section \<open>Setting up\<close>

primrec portfolio_tools :: "portfolio \<Rightarrow> tool list" where
  "portfolio_tools Stop = []"
| "portfolio_tools (Try tt ps tmo k) = tt # portfolio_tools (k False)"

definition err_of :: "exn + 'a \<Rightarrow> exn + 'a" where
  "err_of r = (case r of Inl (SymbioticException m) \<Rightarrow> err m | _ \<Rightarrow> r)"

text \<open>Programs are looked for in the directories of \<open>PATH\<close> as it is then, relative ones from the
  current directory.\<close>

definition find_program :: "install_env \<Rightarrow> install \<Rightarrow> string \<Rightarrow> string option \<Rightarrow> exn + string" where
  "find_program N s = find_executable (n_executable N (i_cwd s)) (v_environ (i_setup s))"

definition program_of :: "install_env \<Rightarrow> install \<Rightarrow> tool \<Rightarrow> exn + string" where
  "program_of N s tt =
     (case tl_executable tt of Named x \<Rightarrow> Inr x | Lookup x fallback \<Rightarrow> find_program N s x fallback)"

text \<open>\<open>opts.property\<close> is part of the result.\<close>

definition setup_run :: "install_env \<Rightarrow> (target \<times> py_prop) install_step" where
  "setup_run N =
     with_state (\<lambda>s0.
       let U = (n_setup N)\<lparr>u_getcwd := i_cwd s0\<rparr>; os0 = v_opts (i_setup s0) in
       bnd (lift (err_of (bindE (get_property (n_order N) (n_files N) (u_dir U) (propertystr os0)) (\<lambda>p.
              bindE (initialize_verifier (n_args N) U os0) (\<lambda>c. Inr (p, c)))))) (\<lambda>(p, c).
       sq (on_setup (set_environ U (tc_llvm_version c) (tc_environment c)))
       (bnd (lift (of_opt AttributeError (tc_target c))) (\<lambda>tg.
        with_state (\<lambda>s.
          let os = v_opts (i_setup s) in
          bnd (lift (mapE (program_of N s) (portfolio_tools (tg_verifiers tg os p)))) (\<lambda>exes.
          sq (on_setup (check_components U (\<lambda>x. find_program N s x None) (n_versions N)
                (exes @ (if generate_c os then [''llvm2c'', ''gen-c''] else []))))
          (bnd (setup_working_directory N) (\<lambda>d.
           with_state (\<lambda>s.
             let w = abspath_in (i_cwd s) d in
             sq (upd (\<lambda>s. s\<lparr>i_working := Some w\<rparr>))
             (sq (chdir N w)
             (sq (assertc (u_dir U \<noteq> w)) (ret (tg, p)))))))))))))"

definition cleanup :: "install_env \<Rightarrow> unit install_step" where
  "cleanup N =
     sq (chdir N (u_dir (n_setup N)))
     (with_state (\<lambda>s.
       bnd (lift (of_opt AttributeError (i_working s))) (\<lambda>w.
       sq (assertc (u_dir (n_setup N) \<noteq> w))
          (onlyif (\<not> save_files (v_opts (i_setup s))) (rm_tmp_dir N w)))))"

section \<open>The script\<close>

text \<open>The lines the script prints at its end, and how it ends: an exit status or an exception;
  \<open>utils.err\<close> is a \<open>SystemExit\<close>. Whatever ends with an exception is not cleaned up.\<close>

definition main_script ::
  "install_env \<Rightarrow> wit_env \<Rightarrow> os_env \<Rightarrow> string list \<Rightarrow> install \<Rightarrow> (string list \<times> (exn + int)) \<times> install \<times> reporting" where
  "main_script N V env params s0 =
     (case parse_command_line env params of
        Inl e \<Rightarrow> (([], Inl e), s0, script_start)
      | Inr (os, args) \<Rightarrow>
          let s = s0\<lparr>i_setup := (i_setup s0)\<lparr>v_opts := os\<rparr>\<rparr> in
          if \<not> dump_env_only os \<and> args = [] then (([], Inr 1), s, script_start)
          else
            let sources = map (abspath_in (i_cwd s)) args in
            case setup_run N s of
              (Inl e, s1) \<Rightarrow> (([], Inl e), s1, script_start)
            | (Inr (tg, p), s1) \<Rightarrow>
                if dump_env_only os then (([], Inr 0), s1, script_start)
                else
                  let V1 = V\<lparr>we_cc := (we_cc V)\<lparr>e_symbiotic_dir := u_dir (n_setup N),
                        e_instr_files := v_instr_files (i_setup s1),
                        e_executable := find_program N s1\<rparr>\<rparr> in
                  case script_run V1 tg (v_opts (i_setup s1)) p sources of
                    (Inl (SymbioticException m), w) \<Rightarrow>
                      (([''RESULT: ERROR ('' @ m @ '')''], err ('' == FAILURE =='' @ [CHR 0x0A] @ m)), s1, w)
                  | (Inl Timeout, w) \<Rightarrow>
                      (case cleanup N s1 of (r, s2) \<Rightarrow> (([''RESULT: timeout''], bindE r (\<lambda>_. Inr 0)), s2, w))
                  | (Inl e, w) \<Rightarrow> (([], Inl e), s1, w)
                  | (Inr res, w) \<Rightarrow>
                      (case cleanup N s1 of (r, s2) \<Rightarrow>
                        ((report_results (if res = [] then ''no result'' else res),
                          bindE r (\<lambda>_. Inr (if startswith res ''error'' \<or> startswith res ''ERROR'' then 1 else 0))),
                         s2, w)))"

section \<open>What the set-up does with directories\<close>

context process_invariant
begin

lemma keeps_versions: "keeps I (klee_version W)" "keeps I (short_version W cmd)"
  unfolding klee_version_def short_version_def version_output_def process_grep_def
  by (auto intro!: inv_intros process split: prod.split)

lemma keeps_check_components: "keeps I (check_components U fe vs additional)"
proof -
  have "keeps I (integrity_check W versions verifier)" for W versions verifier
    unfolding integrity_check_def version_check_def check_version_def
    by (auto intro!: inv_intros keeps_versions split: prod.split option.split if_splits)
  then show ?thesis
    unfolding check_components_def Let_def
    by (intro inv_intros) (auto intro: inv_intros split: exn.split)
qed

end

text \<open>The set-up of every target only changes these settings.\<close>

locale kept_settings =
  fixes \<phi> :: "options \<Rightarrow> bool"
  assumes flags: "\<phi> os \<Longrightarrow> \<phi> (os\<lparr>CPPFLAGS := fs, CFLAGS := gs\<rparr>)"
    and links: "\<phi> os \<Longrightarrow> \<phi> (os\<lparr>linkundef := l\<rparr>)"
    and width: "\<phi> os \<Longrightarrow> \<phi> (os\<lparr>is32bit := b\<rparr>)"
    and symbolic: "\<phi> os \<Longrightarrow> \<phi> (os\<lparr>explicit_symbolic := b\<rparr>)"
begin

lemma keeps_process: "keeps (\<lambda>t :: setup_state. \<phi> (v_opts t)) (run_process W cmd w)"
proof (rule keepsI)
  fix t :: setup_state assume "\<phi> (v_opts t)"
  then show "\<phi> (v_opts (snd (run_process W cmd w t)))"
    by (cases rule: run_process_cases [of t W cmd w]) simp_all
qed

end

sublocale kept_settings \<subseteq> stp: setup_invariant "\<lambda>t :: setup_state. \<phi> (v_opts t)"
proof unfold_locales
  show "keeps (\<lambda>t :: setup_state. \<phi> (v_opts t)) (prepend k x)" "keeps (\<lambda>t :: setup_state. \<phi> (v_opts t)) (append_env k x)" for k x
    unfolding prepend_def append_env_def by (rule keeps_upd, simp)+
qed (simp_all add: keeps_process flags)

context kept_settings
begin

lemma keeps_set_opts:
  "keeps (\<lambda>t :: setup_state. \<phi> (v_opts t)) (set_opts no_linking)" "keeps (\<lambda>t :: setup_state. \<phi> (v_opts t)) (set_opts bounded_settings)"
  "keeps (\<lambda>t :: setup_state. \<phi> (v_opts t)) (set_opts (\<lambda>os. os\<lparr>is32bit := False\<rparr>))"
  "keeps (\<lambda>t :: setup_state. \<phi> (v_opts t)) (set_opts (\<lambda>os. os\<lparr>linkundef := [], is32bit := False\<rparr>))"
  unfolding set_opts_def no_linking_def bounded_settings_def
  using links [OF symbolic] width [OF links] by (auto intro!: keeps_upd links width)

lemma keeps_targets:
  assumes "map_of (targets_table A U os) n = Some c"
  shows "case tc_environment c of None \<Rightarrow> True | Some m \<Rightarrow> keeps (\<lambda>t :: setup_state. \<phi> (v_opts t)) m"
proof -
  have "\<forall>(n, c) \<in> set (targets_table A U os). case tc_environment c of None \<Rightarrow> True
      | Some m \<Rightarrow> keeps (\<lambda>t :: setup_state. \<phi> (v_opts t)) m"
    unfolding targets_table_def Let_def class_of_def bare_class_def nidhugg_environment_def divine_environment_def
      smack_environment_def divine_svcomp_environment_def
    by (auto intro!: stp.keeps_tools stp.env keeps_set_opts inv_intros)
  with map_of_SomeD [OF assms] show ?thesis by auto
qed

end

definition saves :: "bool \<Rightarrow> setup_state \<Rightarrow> bool" where
  "saves b t \<longleftrightarrow> save_files (v_opts t) = b"

lemma saves_eq: "(\<lambda>t :: setup_state. save_files (v_opts t) = b) = saves b"
  by (simp add: saves_def fun_eq_iff)

interpretation saves_kept: kept_settings "\<lambda>os. save_files os = b" for b
  by unfold_locales simp_all

lemmas keeps_saves = saves_kept.stp.keeps_set_environ [unfolded saves_eq]
  saves_kept.keeps_targets [unfolded saves_eq] saves_kept.stp.keeps_check_components [unfolded saves_eq]

lemma on_setup_dirs:
  "keeps (saves b) m \<Longrightarrow> on_setup m s = (r, s') \<Longrightarrow> saves b (i_setup s) \<Longrightarrow>
    saves b (i_setup s') \<and> i_dirs s' = i_dirs s \<and> i_cwd s' = i_cwd s"
  using keepsD [of "saves b" m "i_setup s"]
  by (auto simp: on_setup_def split: prod.splits)

lemma keeps_on_setup: "keeps I m \<Longrightarrow> keeps (\<lambda>s. I (i_setup s)) (on_setup m)"
  by (rule keepsI) (auto simp: on_setup_def dest: keepsD split: prod.split)

text \<open>What the parts of the set-up establish, the whole set-up does.\<close>

lemma setup_run_triple:
  assumes env: "\<And>A U os n c. map_of (targets_table A U os) n = Some c \<Longrightarrow>
      triple I (on_setup (set_environ U (tc_llvm_version c) (tc_environment c))) (\<lambda>_. I) (\<lambda>_ _. True)"
    and check: "\<And>U fe exes. triple I (on_setup (check_components U fe (n_versions N) exes)) (\<lambda>_. I) (\<lambda>_ _. True)"
    and dirs: "keeps I (setup_working_directory N)" "\<And>w. keeps I (chdir N w)"
    and working: "\<And>s w. I s \<Longrightarrow> I (s\<lparr>i_working := Some w\<rparr>)"
  shows "triple I (setup_run N) (\<lambda>_. I) (\<lambda>_ _. True)"
proof -
  have l: "triple I (lift r) (\<lambda>_. I) (\<lambda>_ _. True)" for r :: "exn + 'y"
    by (rule triple_weaken [OF triple_lift]) auto
  have c: "map_of (targets_table A U os) (tool_name os) = Some c"
    if "err_of (bindE r (\<lambda>p. bindE (initialize_verifier A U os) (\<lambda>c. Inr (p, c)))) = Inr (p, c)" for U A os r p c
    using that by (auto simp: err_of_def err_def bindE_eq_Inr initialize_verifier_def split: sum.splits exn.splits option.splits)
  show ?thesis
    unfolding setup_run_def Let_def
    apply (rule triple_with_state, rule triple_bnd [OF triple_lift], simp)
    apply (rule triple_pure, rule triple_pair, rule triple_sq [OF env], simp, erule c)
    apply (rule triple_bnd [OF l], rule triple_with_state, rule triple_bnd [OF l])
    apply (rule triple_sq [OF check], rule triple_bnd [OF keeps_post [OF dirs(1)]])
    by (rule keeps_post, intro inv_intros dirs working)
qed

text \<open>The directory that \<open>mkdtemp\<close> makes for a prefix; it is new when none exists at or below it.\<close>

definition temporary :: "install_env \<Rightarrow> install \<Rightarrow> string \<Rightarrow> string" where
  "temporary N s pre = abspath_in (i_cwd s) (path_join ''.'' (pre @ n_random N (i_dirs s)))"

definition new_names :: "install_env \<Rightarrow> install \<Rightarrow> bool" where
  "new_names N s \<longleftrightarrow> (\<forall>pre. \<forall>d \<in> set (i_dirs s). \<not> below (temporary N s pre) d)"

definition unsaved :: "install \<Rightarrow> install \<Rightarrow> bool" where
  "unsaved s0 s \<longleftrightarrow> saves False (i_setup s) \<and> i_dirs s = i_dirs s0 \<and> i_cwd s = i_cwd s0"

lemma unsaved_setup: "keeps (saves False) m \<Longrightarrow> keeps (unsaved s0) (on_setup m)"
  by (rule keepsI) (use on_setup_dirs in \<open>fastforce simp: unsaved_def intro: prod.collapse [symmetric]\<close>)

definition with_temporary :: "install_env \<Rightarrow> install \<Rightarrow> install \<Rightarrow> bool" where
  "with_temporary N s0 s \<longleftrightarrow> saves False (i_setup s) \<and>
     (\<exists>pre. i_dirs s = i_dirs s0 @ [temporary N s0 pre] \<and> i_working s = Some (temporary N s0 pre))"

lemma working_directory_made:
  assumes "new_names N s0" and "unsaved s0 s" and "setup_working_directory N s = (r, s')"
  shows "\<exists>d pre. r = Inr d \<and> abspath_in (i_cwd s') d = temporary N s0 pre \<and>
    saves False (i_setup s') \<and> i_dirs s' = i_dirs s0 @ [temporary N s0 pre]"
proof -
  have t: "temporary N s = temporary N s0" using assms(2) by (simp add: unsaved_def temporary_def fun_eq_iff)
  have new: "temporary N s0 pre \<notin> set (i_dirs s0)" for pre
    using assms(1) by (auto simp: new_names_def below_def)
  have "i_dirs s = i_dirs s0" "i_cwd s = i_cwd s0" "\<not> save_files (v_opts (i_setup s))"
    using assms(2) by (simp_all add: unsaved_def saves_def)
  moreover define pre where "pre = temp_prefix N (v_opts (i_setup s))"
  ultimately have "setup_working_directory N s = (Inr (path_join ''.'' (pre @ n_random N (i_dirs s0))),
      s\<lparr>i_dirs := i_dirs s0 @ [temporary N s0 pre]\<rparr>)"
    using new [of pre]
    by (simp add: setup_working_directory_def Let_def mkdir_def cmd_run sq_run temporary_def)
  with assms(2,3) show ?thesis by (auto simp: unsaved_def saves_def temporary_def)
qed

lemma setup_directories:
  assumes "new_names N s0"
  shows "triple (unsaved s0) (setup_run N) (\<lambda>_. with_temporary N s0)
    (\<lambda>_ s. i_dirs s = i_dirs s0 \<or> (\<exists>pre. i_dirs s = i_dirs s0 @ [temporary N s0 pre]))"
  (is "triple _ _ _ ?E")
proof -
  have e: "unsaved s0 s \<Longrightarrow> ?E e s" for e s by (simp add: unsaved_def)
  have st: "triple (unsaved s0) (on_setup m) (\<lambda>_. unsaved s0) ?E" if "keeps (saves False) m" for m :: "unit setup_step"
    using unsaved_setup [OF that, of s0] unfolding keeps_triple by (rule triple_conseq) (auto simp: unsaved_def)
  let ?made = "\<lambda>d s. saves False (i_setup s) \<and> (\<exists>pre. abspath_in (i_cwd s) d = temporary N s0 pre \<and>
      i_dirs s = i_dirs s0 @ [temporary N s0 pre])"
  have made: "triple (unsaved s0) (setup_working_directory N) ?made ?E"
    using working_directory_made [OF assms] by (fastforce simp: triple_def split: prod.splits sum.splits)
  have rest: "triple (?made d) (with_state (\<lambda>s. sq (upd (\<lambda>s'. s'\<lparr>i_working := Some (abspath_in (i_cwd s) d)\<rparr>))
      (sq (chdir N (abspath_in (i_cwd s) d)) (sq (assertc (a \<noteq> abspath_in (i_cwd s) d)) (ret x)))))
      (\<lambda>_. with_temporary N s0) ?E" for d a and x :: "target \<times> py_prop"
    by (auto simp: triple_def cmd_run sq_run chdir_def with_temporary_def assertc_def split: prod.splits sum.splits)
  have env: "keeps (saves False) (set_environ U (tc_llvm_version c) (tc_environment c))"
    if "err_of (bindE r (\<lambda>p. bindE (initialize_verifier A U os) (\<lambda>c. Inr (p, c)))) = Inr (p, c)" for U A os r p c
  proof (rule keeps_saves(1))
    have "initialize_verifier A U os = Inr c"
      using that by (auto simp: err_of_def err_def bindE_eq_Inr split: sum.splits exn.splits)
    then have "map_of (targets_table A U os) (tool_name os) = Some c" by (simp add: initialize_verifier_def)
    from keeps_saves(2) [OF this] show "case tc_environment c of None \<Rightarrow> True | Some m \<Rightarrow> keeps (saves False) m" .
  qed
  have l: "triple (unsaved s0) (lift r) (\<lambda>_. unsaved s0) ?E" for r :: "exn + 'y"
    by (rule triple_conseq [OF triple_lift [where E = ?E]]) (auto simp: unsaved_def)
  show ?thesis
    unfolding setup_run_def Let_def
  proof (rule triple_with_state, rule triple_bnd [OF triple_lift], erule e, rule triple_pure, rule triple_pair)
    fix s x p c
    let ?U = "(n_setup N)\<lparr>u_getcwd := i_cwd s\<rparr>" and ?os = "v_opts (i_setup s)"
    assume "err_of (bindE (get_property (n_order N) (n_files N) (u_dir ?U) (propertystr ?os)) (\<lambda>p.
        bindE (initialize_verifier (n_args N) ?U ?os) (\<lambda>c. Inr (p, c)))) = Inr x" and "x = (p, c)"
    note env = env [OF this(1) [unfolded this(2)]]
    show "triple (unsaved s0) (sq (on_setup (set_environ ?U (tc_llvm_version c) (tc_environment c)))
       (bnd (lift (of_opt AttributeError (tc_target c))) (\<lambda>tg.
        with_state (\<lambda>s.
          bnd (lift (mapE (program_of N s)
            (portfolio_tools (tg_verifiers tg (v_opts (i_setup s)) p)))) (\<lambda>exes.
          sq (on_setup (check_components ?U (\<lambda>x. find_program N s x None) (n_versions N)
                (exes @ (if generate_c (v_opts (i_setup s)) then [''llvm2c'', ''gen-c''] else []))))
          (bnd (setup_working_directory N) (\<lambda>d.
           with_state (\<lambda>s.
             sq (upd (\<lambda>s'. s'\<lparr>i_working := Some (abspath_in (i_cwd s) d)\<rparr>))
             (sq (chdir N (abspath_in (i_cwd s) d))
             (sq (assertc (u_dir ?U \<noteq> abspath_in (i_cwd s) d)) (ret (tg, p))))))))))))
       (\<lambda>_. with_temporary N s0) ?E"
      by (rule triple_sq [OF st [OF env]], rule triple_bnd [OF l], rule triple_with_state, rule triple_bnd [OF l],
          rule triple_sq [OF st [OF keeps_saves(3)]], rule triple_bnd [OF made rest])
  qed
qed

lemma cleanup_removes:
  assumes "with_temporary N s0 s" and "new_names N s0" and "\<And>d. n_removable N d" and "cleanup N s = (r, s')"
  shows "case r of Inr _ \<Rightarrow> i_dirs s' = i_dirs s0 | Inl _ \<Rightarrow> i_dirs s' = i_dirs s"
proof -
  obtain pre where t: "i_dirs s = i_dirs s0 @ [temporary N s0 pre]" "i_working s = Some (temporary N s0 pre)"
    "\<not> save_files (v_opts (i_setup s))"
    using assms(1) by (auto simp: with_temporary_def saves_def)
  have "filter (\<lambda>x. \<not> below (temporary N s0 pre) x) (i_dirs s0) = i_dirs s0"
    using assms(2) by (simp add: new_names_def filter_id_conv)
  with assms(3,4) t show ?thesis
    by (auto simp: cleanup_def chdir_def rm_tmp_dir_def cmd_run sq_run bnd_def assertc_def below_def
        split: if_splits sum.splits)
qed


text \<open>Ceagle, Map2Check and Skink cannot be set up.\<close>

lemma no_portfolio_no_setup:
  assumes "tool_name (v_opts (i_setup s)) \<in> {''ceagle'', ''map2check'', ''skink''}"
  shows "isl (fst (setup_run N s))"
proof -
  have "tc_target c = None" if "initialize_verifier A U (v_opts (i_setup s)) = Inr c" for A U c
    using that assms by (auto simp: initialize_verifier_def targets_table_def Let_def bare_class_def)
  then show ?thesis
    by (auto simp: setup_run_def Let_def bnd_def sq_run cmd_run err_of_def err_def bindE_eq_Inr
        split: prod.splits sum.splits exn.splits)
qed

definition install_example :: install_env where
  "install_example = \<lparr>n_setup = opt_setup, n_args = \<lparr>ta_version = ''10.0.1'', ta_abspath = id,
     ta_ultimate = \<lparr>ul_isfile = (\<lambda>f. False), ul_wrapper_version = [],
     ul_glob = (\<lambda>g. []), ul_which = (\<lambda>c. None), ul_run = (\<lambda>c. None)\<rparr>\<rparr>, n_executable = (\<lambda>cwd f. True), n_versions = [], n_order = id,
     n_files = \<lparr>abs_path = id, file_lines = (\<lambda>f. None)\<rparr>, n_random = (\<lambda>ds. ''x7''), n_removable = (\<lambda>d. True)\<rparr>"

definition env_example :: os_env where
  "env_example = \<lparr>os_cwd = ''/'', os_abspath = id, os_expanduser = id, os_isfile = (\<lambda>_. False),
     os_isdir = (\<lambda>_. False), os_has_version = False\<rparr>"

lemma parse_example: "parse_command_line env_example [''a.c''] = Inr (plain_options, [''a.c''])"
proof -
  have "getopt [''a.c''] long_options = Inr ([], [''a.c''])" by code_simp
  moreover have "check_conflicts plain_options = Inr ()"
    by (simp add: check_conflicts_def plain_options_def SymbioticOptions_def)
  ultimately show ?thesis by (simp add: parse_command_line_def plain_options_def env_example_def)
qed


end
