(* ===== verification/Signals.thy ===== *)
theory Signals
  imports Install
begin

text \<open>
  Time limits and keyboard interrupts: what the class attribute \<open>ProcessRunner.current_process\<close> is for
  (\<open>utils/process.py\<close>, \<open>utils/timeout.py\<close>, the \<open>finally\<close> of \<open>scripts/symbiotic\<close>). A signal may arrive
  while any program runs, and raises an exception there; a program that is alive then is the
  registered one, on every path, so the end of the script can kill it.
\<close>

section \<open>A program that is alive is registered\<close>

definition held :: "'a sys_scheme \<Rightarrow> bool" where
  "held s \<longleftrightarrow> (s_alive s \<longrightarrow> s_running s)"

lemma held_process: "keeps held (run_process W cmd w)"
proof (rule keepsI)
  fix s :: "'a sys_scheme" assume "held s"
  then show "held (snd (run_process W cmd w s))"
    by (cases rule: run_process_cases [of s W cmd w]) (auto simp: held_def)
qed

lemma held_runcmd: "keeps held (runcmd W cmd w msg)"
  unfolding runcmd_def print_lines_def by (auto intro!: inv_intros held_process split: prod.split)

lemma held_kill: "keeps held kill_running"
  unfolding kill_running_def by (intro inv_intros) (simp add: held_def)

interpretation held_symbiotic: symbiotic_invariant E held for E
proof (rule symbiotic_invariant.intro)
  show "driver_invariant E tg held" for tg
    by unfold_locales (simp_all add: held_process held_def)
qed

section \<open>The reports\<close>

lemma held_write: "keeps held (write_file f x)"
  unfolding write_file_def by (intro inv_intros) (simp add: held_def)

lemma held_graphml: "keeps held (generate_graphml V path source corr os p saveto)"
  "keeps held (write_graphml w f)"
  unfolding generate_graphml_def write_graphml_def Let_def
  by (intro inv_intros held_write)+

lemma held_yaml: "keeps held (generate_yaml V path source corr os p saveto sh)"
  unfolding generate_yaml_def by (intro inv_intros held_write)

lemma held_describe: "keeps held (describe_error V f os)"
  unfolding describe_error_def Let_def
  by (intro inv_intros) (auto simp: keeps_def on_printed_def held_def split: prod.split)

lemma held_exec: "keeps held (klee_exec_witness V f sources os p)"
  unfolding klee_exec_witness_def generate_exec_witness_def
  by (intro inv_intros held_runcmd) (auto intro!: inv_intros split: exn.split)

lemma held_witnesses:
  "keeps held (klee_generate_witness V f sources bad os p)"
  "keeps held (witch_generate_witness V f sources bad os p new og sh)"
  "keeps held (slowbeast_generate_witness V f sources bad os p)"
  unfolding klee_generate_witness_def generate_graphml_witness_def generate_yaml_witness_def
    witch_generate_witness_def slowbeast_generate_witness_def Let_def
  by (auto intro!: inv_intros held_graphml held_yaml)

lemma held_carry_out: "keeps held (carry_out V c sources r)"
  unfolding carry_out_def
  by (auto intro!: inv_intros held_describe held_exec held_witnesses split: report.split)

lemma held_handler: "keeps held (symbiotic_handler e)"
  unfolding symbiotic_handler_def by (auto intro!: inv_intros held_kill split: exn.split)

lemma held_run_reporting: "held (snd (run_reporting V tg os p sources s))"
proof -
  let ?c = "init_cc (main_settings os p) p sources"
  have "held ?c" by (simp add: held_def init_cc_def)
  from keepsD [OF held_symbiotic.keeps_run_symbiotic this]
  have c: "held (start_report (snd (run_symbiotic (we_cc V) tg ?c)) s)"
    by (simp add: held_def start_report_def)
  have "keeps held (handle (sq (each (carry_out V d sources) rs) (ret res)) symbiotic_handler)" for d rs res
    by (intro inv_intros held_carry_out held_handler)
  from keepsD [OF this] c show ?thesis
    by (auto simp: run_reporting_def split: prod.split sum.split)
qed

lemma killed: "held s \<Longrightarrow> \<not> s_alive (snd (kill_running s))"
  by (auto simp: kill_running_def cmd_run onlyif_def held_def)

lemma script_run_ends:
  "\<not> s_alive (snd (script_run V tg os p args))"
proof -
  have idle: "keeps (\<lambda>s. \<not> s_alive s) (onlyif b (sq (assertc a) (create_testcomp_metadata V d x ps b')))"
    for b a d x ps b'
    unfolding create_testcomp_metadata_def write_file_def by (intro inv_intros) simp
  have run: "\<not> s_alive (snd (finally_do (run_reporting V tg os p sources) kill_running s))" for sources s
    using killed [OF held_run_reporting [of V tg os p sources s]]
    by (auto simp: finally_do_def split: prod.split sum.split)
  let ?sources = "map (abspath (e_world (we_cc V))) args"
  let ?meta = "onlyif (test_comp os) (sq (assertc (length ?sources = 1))
    (create_testcomp_metadata V (testsuite_output os) (hd ?sources) (p_ltl p) (is32bit os)))"
  have "\<not> s_alive (snd (?meta script_start))"
    by (rule keepsD [OF idle]) (simp add: script_start_def)
  then show ?thesis
    using run by (auto simp: script_run_def Let_def bnd_def split: prod.split sum.split)
qed

section \<open>The set-up leaves no program behind\<close>

text \<open>A step after which no program is registered when it returns, or raises an exception that a
  handler of the set-up catches.\<close>

definition caught_idle :: "exn \<Rightarrow> 'a sys_scheme \<Rightarrow> bool" where
  "caught_idle e s \<longleftrightarrow> (\<exists>t. e = SymbioticException t) \<longrightarrow> idle s"

abbreviation leaves_idle :: "('a sys_scheme, 'b) cmd \<Rightarrow> bool" where
  "leaves_idle m \<equiv> triple idle m (\<lambda>_. idle) caught_idle"

lemma idle_kept: "keeps idle m \<Longrightarrow> leaves_idle m"
  unfolding keeps_triple by (erule triple_conseq) (simp_all add: caught_idle_def)

lemma idle_process: "leaves_idle (run_process W cmd w)"
  unfolding triple_def
proof (intro allI impI)
  fix s :: "'a sys_scheme" assume "idle s"
  moreover have "SymbioticException t \<noteq> signal_exn sg" for sg t by (cases sg) simp_all
  moreover have "feed ls w \<noteq> Inl (SymbioticException t)" for ls t
    by (induction ls arbitrary: w)
      (auto simp: bindE_def put_line_def watch_parse_def decode_def split: sum.splits watch_class.splits if_splits)
  ultimately show "case run_process W cmd w s of (Inl e, s') \<Rightarrow> caught_idle e s' | (Inr x, s') \<Rightarrow> idle s'"
    by (cases rule: run_process_cases [of s W cmd w]) (auto simp: idle_def caught_idle_def)
qed

lemma idle_bnd: "leaves_idle m \<Longrightarrow> (\<And>x. leaves_idle (k x)) \<Longrightarrow> leaves_idle (bnd m k)"
  by (rule triple_bnd)

lemma idle_sq: "leaves_idle m \<Longrightarrow> leaves_idle n \<Longrightarrow> leaves_idle (sq m n)"
  by (rule triple_sq)

lemma idle_handle:
  assumes "leaves_idle m" and "\<And>t. leaves_idle (h (SymbioticException t))"
    and "\<And>e s. (\<And>t. e \<noteq> SymbioticException t) \<Longrightarrow> h e s = (Inl e, s)"
  shows "leaves_idle (handle m h)"
  unfolding triple_def
proof (intro allI impI)
  fix s :: "'a sys_scheme" assume s: "idle s"
  obtain r s' where m: "m s = (r, s')" by (cases "m s")
  show "case handle m h s of (Inl e, s') \<Rightarrow> caught_idle e s' | (Inr x, s') \<Rightarrow> idle s'"
  proof (cases r)
    case (Inl e)
    show ?thesis
    proof (cases "\<exists>t. e = SymbioticException t")
      case True
      then obtain t where t: "e = SymbioticException t" ..
      have "idle s'" using assms(1) s m Inl t unfolding triple_def by (fastforce simp: caught_idle_def)
      with assms(2) [of t] m Inl t show ?thesis unfolding triple_def handle_def by simp
    next
      case False
      with m Inl assms(3) [of e s'] show ?thesis by (simp add: handle_def caught_idle_def)
    qed
  next
    case (Inr x)
    with assms(1) s m show ?thesis unfolding triple_def handle_def by fastforce
  qed
qed

lemma idle_with_state: "(\<And>s. leaves_idle (f s)) \<Longrightarrow> leaves_idle (with_state f)"
  by (rule triple_with_state)

lemma idle_onlyif: "leaves_idle m \<Longrightarrow> leaves_idle (onlyif b m)"
  by (rule triple_onlyif)

lemma idle_basic: "leaves_idle (ret x)" "leaves_idle (lift r)" "leaves_idle (throw e)"
  "leaves_idle (assertc b)"
  by (rule idle_kept, intro inv_intros)+

lemma idle_each: "(\<And>x. leaves_idle (f x)) \<Longrightarrow> leaves_idle (each f xs)"
  by (induction xs) (simp_all add: idle_sq idle_basic)

lemma idle_steps: "(\<And>m. m \<in> set ms \<Longrightarrow> leaves_idle m) \<Longrightarrow> leaves_idle (steps ms)"
  by (induction ms) (simp_all add: idle_sq idle_basic)

lemma idle_upd: "(\<And>s. idle s \<Longrightarrow> idle (f s)) \<Longrightarrow> leaves_idle (upd f)"
  by (rule idle_kept, intro inv_intros)

lemma idle_prepend: "leaves_idle (prepend k w)" "leaves_idle (append_env k w)" "leaves_idle (set_opts f)"
  unfolding prepend_def append_env_def set_opts_def by (rule idle_upd, simp add: idle_def)+

lemmas idle_rules = idle_basic idle_prepend idle_process idle_bnd idle_sq idle_with_state triple_if idle_onlyif
  idle_each

lemma idle_include_paths: "leaves_idle (include_paths U)"
proof -
  have "leaves_idle (get_include_paths U cmd)" for cmd
    unfolding get_include_paths_def
    by (rule idle_handle, rule triple_bnd [OF idle_process], rule triple_pair)
      (auto intro: idle_basic simp: cmd_run split: exn.split)
  then show ?thesis unfolding include_paths_def by (intro idle_rules)
qed

lemma idle_clang: "leaves_idle (check_clang_in_path U v)" "leaves_idle (find_llvm U v)"
proof -
  show c: "leaves_idle (check_clang_in_path U v)" for U v
    unfolding check_clang_in_path_def process_grep_def
    by (intro idle_bnd [OF idle_process] triple_pair idle_rules triple_option)
  show "leaves_idle (find_llvm U v)"
    unfolding find_llvm_def Let_def by (intro idle_rules c)
qed

lemma idle_set_environ:
  assumes "case m of None \<Rightarrow> True | Some m \<Rightarrow> leaves_idle m"
  shows "leaves_idle (set_environ U v m)"
proof -
  have t: "leaves_idle (case m of None \<Rightarrow> ret () | Some m \<Rightarrow> m)"
    using assms by (auto intro: idle_basic split: option.split)
  have p: "leaves_idle (set_paths U v q)" for q
    unfolding set_paths_def Let_def
    by (intro idle_with_state triple_if idle_steps) (auto intro!: idle_prepend idle_upd simp: idle_def)
  have s: "leaves_idle (steps [prepend k w, set_paths U v q, onlyif b (bnd (include_paths U) (\<lambda>ps. each (append_env k) ps)),
      case m of None \<Rightarrow> ret () | Some m \<Rightarrow> m])" for k w q b
    by (rule idle_steps) (auto intro!: idle_prepend p t idle_onlyif triple_bnd [OF idle_include_paths] idle_each)
  show ?thesis
    unfolding set_environ_def set_symbiotic_environ_def parse_environ_vars_def Let_def
    by (intro idle_sq idle_with_state idle_onlyif triple_bnd [OF idle_include_paths] triple_bnd [OF idle_clang(2)]
        idle_each idle_prepend s idle_upd) (simp_all add: idle_def)
qed

lemma idle_check: "leaves_idle (check_components U fe vs additional)"
proof -
  have v: "leaves_idle (version_output W cmd)" for W cmd
    unfolding version_output_def process_grep_def
    by (intro idle_bnd [OF idle_process] triple_pair idle_rules)
  have g: "leaves_idle (process_grep W cmd pat)" for W cmd pat
    unfolding process_grep_def by (intro idle_bnd [OF idle_process] triple_pair idle_rules)
  have k: "leaves_idle (klee_version W)" "leaves_idle (short_version W cmd)" for W cmd
    unfolding klee_version_def short_version_def
    by (intro idle_bnd [OF g] triple_pair idle_rules) (intro idle_bnd [OF v] idle_rules)
  have "leaves_idle (integrity_check W versions verifier)" for W versions verifier
    unfolding integrity_check_def version_check_def check_version_def
    by (rule idle_each) (auto intro!: idle_bnd k idle_basic split: prod.split option.split if_splits)
  then show ?thesis
    unfolding check_components_def Let_def
    by (intro idle_with_state idle_sq idle_onlyif idle_basic idle_handle) (auto intro: idle_basic simp: cmd_run split: exn.split)
qed

lemma idle_targets:
  assumes "map_of (targets_table A U os) n = Some c"
  shows "case tc_environment c of None \<Rightarrow> True | Some m \<Rightarrow> leaves_idle m"
proof -
  have e: "leaves_idle (klee_environment U v)" "leaves_idle (witch_environment U v)"
    "leaves_idle (slowbeast_environment U)" "leaves_idle (nidhugg_environment U v)"
    "leaves_idle (divine_environment U)" "leaves_idle (smack_environment U)" "leaves_idle (divine_svcomp_environment U)" for v
    unfolding klee_environment_def witch_environment_def slowbeast_environment_def nidhugg_environment_def
      divine_environment_def smack_environment_def divine_svcomp_environment_def
    by (intro idle_with_state idle_sq idle_onlyif triple_if idle_prepend)+
  then have "leaves_idle (svcomp_environment U v)" for v
    unfolding svcomp_environment_def by (intro idle_sq)
  with e have "\<forall>(n, c) \<in> set (targets_table A U os). case tc_environment c of None \<Rightarrow> True
      | Some m \<Rightarrow> leaves_idle m"
    unfolding targets_table_def Let_def class_of_def bare_class_def by (auto intro: idle_prepend)
  with map_of_SomeD [OF assms] show ?thesis by auto
qed

text \<open>So the run starts without a registered program, as it is modelled.\<close>

lemma setup_leaves_idle:
  assumes "setup_run N s = (Inr x, s')" and "idle (i_setup s)"
  shows "idle (i_setup s')"
proof -
  let ?I = "\<lambda>s. idle (i_setup s)"
  have st: "triple ?I (on_setup m) (\<lambda>_. ?I) (\<lambda>_ _. True)" if "leaves_idle m" for m :: "unit setup_step"
    using that unfolding triple_def on_setup_def by (fastforce split: prod.splits sum.splits)
  have "triple ?I (setup_run N) (\<lambda>_. ?I) (\<lambda>_ _. True)"
  proof (rule setup_run_triple [OF st [OF idle_set_environ] st [OF idle_check]])
    show "keeps ?I (setup_working_directory N)" "keeps ?I (chdir N w)" for w
      unfolding setup_working_directory_def mkdir_def rm_tmp_dir_def chdir_def Let_def
      by (auto intro!: inv_intros split: exn.split)
  qed (simp_all add: idle_targets)
  with assms show ?thesis unfolding triple_def by fastforce
qed

section \<open>The end of the script\<close>

text \<open>C39: However the script ends after its set-up - with a verdict, an error, an exception, the time
  limit or a keyboard interrupt, whatever the programs print and whenever the signals arrive - no
  program that the compiler phase, the verifiers or the reports started is alive any more.\<close>

theorem script_leaves_no_process:
  "\<not> s_alive (snd (snd (main_script N V env params s0)))"
proof -
  have start: "\<not> s_alive script_start" by (simp add: script_start_def)
  have run: "\<not> s_alive w" if "script_run V1 tg os p args = (r, w)" for V1 tg os p args r w
    using script_run_ends [of V1 tg os p args] that by simp
  show ?thesis
    by (auto simp: main_script_def Let_def start split: prod.split sum.split exn.split dest: run)
qed

text \<open>While a program is registered no other one is started: a signal ends the run.\<close>

definition stuck :: "string list list \<Rightarrow> 'a sys_scheme \<Rightarrow> bool" where
  "stuck log s \<longleftrightarrow> s_running s \<and> s_log s = log"

interpretation stuck_symbiotic: symbiotic_invariant E "stuck log" for E log
proof (rule symbiotic_invariant.intro)
  fix tg :: target
  show "driver_invariant E tg (stuck log)"
  proof unfold_locales
    fix cmd w
    show "keeps (stuck log :: cc \<Rightarrow> bool) (run_process (e_world E) cmd w)"
    proof (rule keepsI)
      fix s :: cc assume "stuck log s"
      then show "stuck log (snd (run_process (e_world E) cmd w s))"
        by (simp add: stuck_def run_process_def cmd_run sq_run)
    qed
  qed (simp_all add: stuck_def)
qed

lemma nothing_after_a_signal:
  assumes "run_process (e_world E) cmd w s = (Inl (signal_exn sg), s1)" and "\<not> s_running s"
  shows "s_log s1 = s_log s @ [cmd] \<and> s_log (snd (verifier_run E tg f override s1)) = s_log s1 \<and>
    s_log (snd (decide E tg answer s1)) = s_log s1"
proof -
  have other: "signal_exn sg \<noteq> SymbioticException m" for m by (cases sg) simp_all
  have "stuck (s_log s @ [cmd]) s1"
    using assms other by (cases rule: run_process_cases [of s "e_world E" cmd w]) (auto simp: stuck_def dest: sym)
  from keepsD [OF stuck_symbiotic.keeps_verifier this] keepsD [OF stuck_symbiotic.keeps_decide this] this
  show ?thesis by (simp add: stuck_def)
qed

section \<open>Keyboard interrupts\<close>

text \<open>In the compiler phase an interrupt kills the program and is the answer of the run; in the
  verification phase it becomes an error, and the program is left to the end of the script.\<close>

lemma interrupt_while_compiling:
  assumes "cc_run E (tool.truncate tg) s = (Inl KeyboardInterrupt, s')"
  shows "run_symbiotic E tg s = (Inr ''interrupted'', snd (kill_running s'))"
  using assms
  by (simp add: run_symbiotic_def run_symbiotic_steps_def handle_def bnd_def symbiotic_handler_def sq_run
      kill_running_def cmd_run onlyif_def)

lemma interrupt_while_verifying:
  assumes "run_verification E tg f override s = (Inl KeyboardInterrupt, s')"
  shows "verifier_run E tg f override s = (Inl (SymbioticException ''interrupted''), s')"
  using assms by (simp add: verifier_run_def handle_def cmd_run)

end
