(* ===== verification/CcScript.thy ===== *)
theory CcScript
  imports Signals
begin

text \<open>
  The script \<open>scripts/symbiotic-cc\<close>, which runs the set-up and the compiler phase without a
  verification: where its output goes, its own \<open>generate_c\<close>, the second look-up of the property, and how
  it ends. The set-up is the one of \<open>scripts/symbiotic\<close> (theory \<open>Install\<close>). The lemmas show where the
  output is after a run, that a property file with a relative path is lost, and that the time limit
  leaves a program running.
\<close>

section \<open>The script\<close>

text \<open>\<open>final_output\<close> and the changed option: C code is moved by the script itself, everything else by
  \<open>SymbioticCC\<close>.\<close>

definition cc_script_output :: "string \<Rightarrow> options \<Rightarrow> string option \<times> options" where
  "cc_script_output cwd os =
     (case final_output os of
        None \<Rightarrow>
          if generate_c os then (Some (abspath_in cwd ''symbiotic-output.c''), os)
          else (let f = abspath_in cwd ''symbiotic-output.bc'' in (Some f, os\<lparr>final_output := Some f\<rparr>))
      | Some f \<Rightarrow>
          if generate_c os then (Some (abspath_in cwd f), os\<lparr>final_output := None\<rparr>) else (None, os))"

definition generate_c_file :: "cc_env \<Rightarrow> string \<Rightarrow> string \<Rightarrow> unit step" where
  "generate_c_file E inpt output =
     bnd (runcmd (e_world E) [''llvm2c'', ''-o'', output, inpt] (new_watch PlainWatch (Some 0)) []) (\<lambda>_. ret ())"

text \<open>An output that is \<open>None\<close> could not be passed to a program.\<close>

definition cc_phase :: "cc_env \<Rightarrow> target \<Rightarrow> string option \<Rightarrow> unit step" where
  "cc_phase E tg output =
     bnd (cc_run E (tool.truncate tg)) (\<lambda>f.
     with_state (\<lambda>s. onlyif (generate_c (c_opts s))
       (case output of Some out \<Rightarrow> generate_c_file E f out | None \<Rightarrow> throw TypeError)))"

text \<open>The files as they are seen from a current directory.\<close>

definition files_in :: "os_env \<Rightarrow> install_env \<Rightarrow> string \<Rightarrow> file_system" where
  "files_in env N cwd =
     \<lparr>abs_path = (\<lambda>p. abspath_in cwd (if startswith p ''~'' then os_expanduser env p else p)),
      file_lines = file_lines (n_files N)\<rparr>"

text \<open>The lines it prints on its standard output, how it ends (as for \<open>scripts/symbiotic\<close>), and the state
  of the compiler phase, if there was one. The names it uses for \<open>--dump-env\<close> are not defined.\<close>

definition cc_script ::
  "install_env \<Rightarrow> os_env \<Rightarrow> cc_env \<Rightarrow> string list \<Rightarrow> install \<Rightarrow>
   (string list \<times> (exn + int)) \<times> install \<times> cc option" where
  "cc_script N env E params s0 =
     (case parse_command_line env params of
        Inl e \<Rightarrow> (([], Inl e), s0, None)
      | Inr (os, args) \<Rightarrow>
          if dump_env_only os then (([], Inl NameError), s0, None)
          else if args = [] then (([], Inr 1), s0, None)
          else
            case cc_script_output (i_cwd s0) os of (output, os1) \<Rightarrow>
            case setup_run (N\<lparr>n_files := files_in env N (i_cwd s0)\<rparr>)
                (s0\<lparr>i_setup := (i_setup s0)\<lparr>v_opts := os1\<rparr>\<rparr>) of
              (Inl e, s1) \<Rightarrow> (([], Inl e), s1, None)
            | (Inr (tg, _), s1) \<Rightarrow>
                let os2 = v_opts (i_setup s1) in
                case err_of (get_property (n_order N) (files_in env N (i_cwd s1)) (u_dir (n_setup N)) (propertystr os2)) of
                  Inl e \<Rightarrow> (([], Inl e), s1, None)
                | Inr p \<Rightarrow>
                    let E1 = E\<lparr>e_symbiotic_dir := u_dir (n_setup N), e_instr_files := v_instr_files (i_setup s1),
                          e_executable := find_program N s1\<rparr> in
                    case cc_phase E1 tg output (init_cc os2 p (map (abspath_in (i_cwd s0)) args)) of
                      (Inl (SymbioticException m), c) \<Rightarrow>
                        (([''RESULT: ERROR ('' @ m @ '')''], err ('' == FAILURE =='' @ [CHR 0x0A] @ m)), s1, Some c)
                    | (Inl Timeout, c) \<Rightarrow>
                        (case cleanup N s1 of (r, s2) \<Rightarrow> (([''RESULT: timeout''], bindE r (\<lambda>_. Inr 0)), s2, Some c))
                    | (Inl e, c) \<Rightarrow> (([], Inl e), s1, Some c)
                    | (Inr _, c) \<Rightarrow>
                        (case cleanup N s1 of (r, s2) \<Rightarrow> (([], bindE r (\<lambda>_. Inr 0)), s2, Some c)))"

section \<open>The output of a run\<close>

text \<open>The settings that say where the output goes, and the property asked for, are the same to the end.\<close>

definition output_settings :: "options \<Rightarrow> bool \<times> bool \<times> string option \<times> string option" where
  "output_settings os = (generate_c os, generate_ll os, final_output os, propertystr os)"

interpretation output_kept: kept_settings "\<lambda>os. output_settings os = x" for x
  by unfold_locales (simp_all add: output_settings_def)

lemma setup_keeps_output:
  assumes "setup_run N s = (Inr x, s')"
  shows "output_settings (v_opts (i_setup s')) = output_settings (v_opts (i_setup s))"
proof -
  define o1 where "o1 = output_settings (v_opts (i_setup s))"
  let ?I = "\<lambda>s'. output_settings (v_opts (i_setup s')) = o1"
  have "triple ?I (setup_run N) (\<lambda>_. ?I) (\<lambda>_ _. True)"
  proof (rule setup_run_triple)
    show "keeps ?I (setup_working_directory N)" "keeps ?I (chdir N w)" for w
      unfolding setup_working_directory_def mkdir_def rm_tmp_dir_def chdir_def Let_def
      by (auto intro!: inv_intros split: exn.split)
  qed (auto intro!: keeps_post keeps_on_setup output_kept.stp.keeps_set_environ output_kept.keeps_targets
      output_kept.stp.keeps_check_components)
  with assms show ?thesis unfolding triple_def o1_def by fastforce
qed

definition phase_output :: "bool \<times> bool \<times> string option \<times> string option \<Rightarrow> cc \<Rightarrow> bool" where
  "phase_output x s \<longleftrightarrow> output_settings (c_opts s) = x"

interpretation phase_output: run_invariant E tt "phase_output x" "\<lambda>_. True" for E tt x
proof unfold_locales
  fix cmd w
  show "keeps (phase_output x) (run_process (e_world E) cmd w)"
  proof (rule keepsI)
    fix s :: cc assume "phase_output x s"
    then show "phase_output x (snd (run_process (e_world E) cmd w s))"
      by (cases rule: run_process_cases [of s "e_world E" cmd w]) (auto simp: phase_output_def)
  qed
qed (simp_all add: phase_output_def output_settings_def)


lemma runcmd_ok:
  assumes "runcmd W cmd w msg s = (Inr w', s')"
  shows "s_log s' = s_log s @ [cmd] \<and> s' = s\<lparr>s_running := False, s_alive := False, s_log := s_log s @ [cmd]\<rparr> \<and>
    (\<exists>lines. exec W (s_log s) cmd = Some (lines, 0))"
  using assms unfolding runcmd_def
  by (cases rule: run_process_cases [of s W cmd w]) (auto simp: bnd_def sq_run cmd_run split: if_splits prod.splits sum.splits)

lemma generate_ll_keeps_file:
  "keeps (\<lambda>s. c_curfile s = x) (generate_ll_file E out)"
proof -
  have r: "keeps (\<lambda>s :: cc. c_curfile s = x) (run_process W cmd w)" for W cmd w
  proof (rule keepsI)
    fix s :: cc assume "c_curfile s = x"
    then show "c_curfile (snd (run_process W cmd w s)) = x"
      by (cases rule: run_process_cases [of s W cmd w]) auto
  qed
  have c: "keeps (\<lambda>s :: cc. c_curfile s = x) (run_command E cmd w msg)" for cmd w msg
    unfolding run_command_def runcmd_def by (intro inv_intros keeps_print_lines r)
  have i: "keeps (\<lambda>s :: cc. c_curfile s = x) (ignore_failure m)" if "keeps (\<lambda>s :: cc. c_curfile s = x) m" for m
    unfolding ignore_failure_def using that by (intro inv_intros) (auto intro: inv_intros split: exn.split)
  show ?thesis
    unfolding generate_ll_file_def curfile_def by (intro inv_intros i c)
qed

text \<open>Where the current file is when the final output has been asked for.\<close>

definition placed :: "bool \<times> bool \<times> string option \<times> string option \<Rightarrow> string option \<Rightarrow> bool" where
  "placed x cur = (case x of (_, ll, out, _) \<Rightarrow>
     (case out of None \<Rightarrow> True | Some f \<Rightarrow> ll \<and> endswith f ''.ll'' \<or> cur = Some f))"

lemma final_output_placed:
  "triple (phase_output x) (write_final_output E)
     (\<lambda>_ s. phase_output x s \<and> placed x (c_curfile s)) (\<lambda>_ _. True)"
proof -
  obtain gc ll out prp where x: "x = (gc, ll, out, prp)" by (cases x)
  have moved: "triple (\<lambda>s. phase_output x s \<and> placed x (c_curfile s)) (generate_ll_file E None)
      (\<lambda>_ s. phase_output x s \<and> placed x (c_curfile s)) (\<lambda>_ _. True)"
  proof -
    have "keeps (\<lambda>s. placed x (c_curfile s)) (generate_ll_file E None)"
      using generate_ll_keeps_file unfolding keeps_def by metis
    then show ?thesis by (intro keeps_post keeps_both phase_output.keeps_generate_ll)
  qed
  have ll: "triple (phase_output x) (generate_ll_file E (Some f))
      (\<lambda>_ s. phase_output x s \<and> placed x (c_curfile s)) (\<lambda>_ _. True)"
    if "out = Some f" "ll \<and> endswith f ''.ll''" for f
    by (rule triple_weaken [OF keeps_post [OF phase_output.keeps_generate_ll]]) (use that in \<open>auto simp: placed_def x\<close>)
  have cur: "triple (phase_output x) curfile (\<lambda>_. phase_output x) (\<lambda>_ _. True)"
    by (rule keeps_post [OF phase_output.keeps_curfile])
  show ?thesis
    unfolding write_final_output_def set_curfile_def
    apply (rule triple_with_state)
    apply (rule triple_option, rule triple_ret, force simp: phase_output_def output_settings_def placed_def)
    apply (rule triple_if, rule ll, force simp: phase_output_def output_settings_def x,
        force simp: phase_output_def output_settings_def x)
    apply (rule triple_bnd [OF cur], rule triple_option, rule triple_upd_sq [OF moved])
     apply (auto simp: phase_output_def output_settings_def placed_def x intro: triple_throw split: option.split)
    done
qed

lemma cc_run_placed:
  "triple (phase_output x) (cc_run E tt)
     (\<lambda>f s. phase_output x s \<and> placed x (c_curfile s) \<and> c_curfile s = Some f) (\<lambda>_ _. True)"
proof -
  have cur: "triple (\<lambda>s. phase_output x s \<and> placed x (c_curfile s)) curfile
      (\<lambda>f s. phase_output x s \<and> placed x (c_curfile s) \<and> c_curfile s = Some f) (\<lambda>_ _. True)"
    by (auto simp: curfile_def triple_def cmd_run of_opt_def split: option.splits)
  show ?thesis
    unfolding cc_run_def
    by (rule triple_sq [OF keeps_post [OF phase_output.keeps_run_compilation]]
        triple_sq [OF keeps_post [OF phase_output.keeps_run_instrument]]
        triple_sq [OF keeps_post [OF phase_output.keeps_run_slicing]] triple_sq [OF final_output_placed cur])+
qed

text \<open>A run that returns has put its output where it was asked to: C code was written by \<open>llvm2c\<close>, and
  other output is the current file, except a file \<open>.ll\<close>, whose disassembling may have failed.\<close>

lemma cc_phase_output:
  assumes "cc_phase E tg output s = (Inr (), s')"
  shows "\<exists>f log. c_curfile s' = Some f \<and> placed (output_settings (c_opts s)) (Some f) \<and>
    (generate_c (c_opts s) \<longrightarrow> (\<exists>out. output = Some out \<and> s_log s' = log @ [[''llvm2c'', ''-o'', out, f]]))"
proof -
  obtain f s1 where run: "cc_run E (tool.truncate tg) s = (Inr f, s1)"
    and rest: "onlyif (generate_c (c_opts s1))
       (case output of Some out \<Rightarrow> generate_c_file E f out | None \<Rightarrow> throw TypeError) s1 = (Inr (), s')"
    using assms by (auto simp: cc_phase_def bnd_def cmd_run split: prod.splits sum.splits)
  have "phase_output (output_settings (c_opts s)) s" by (simp add: phase_output_def)
  with cc_run_placed [of "output_settings (c_opts s)" E "tool.truncate tg"] run
  have s1: "output_settings (c_opts s1) = output_settings (c_opts s)" "placed (output_settings (c_opts s)) (Some f)"
    "c_curfile s1 = Some f"
    unfolding triple_def by (fastforce simp: phase_output_def)+
  show ?thesis
  proof (cases "generate_c (c_opts s)")
    case True
    then have "generate_c (c_opts s1)" using s1(1) by (simp add: output_settings_def)
    with rest obtain out w' where o: "output = Some out"
      and "runcmd (e_world E) [''llvm2c'', ''-o'', out, f] (new_watch PlainWatch (Some 0)) [] s1 = (Inr w', s')"
      by (auto simp: generate_c_file_def bnd_def cmd_run split: option.splits prod.splits sum.splits)
    from runcmd_ok [OF this(2)] s1 o show ?thesis by auto
  next
    case False
    with rest s1 show ?thesis by (auto simp: output_settings_def cmd_run)
  qed
qed

definition requested_output :: "string \<Rightarrow> options \<Rightarrow> string" where
  "requested_output cwd os =
     (case final_output os of
        None \<Rightarrow> abspath_in cwd (if generate_c os then ''symbiotic-output.c'' else ''symbiotic-output.bc'')
      | Some f \<Rightarrow> if generate_c os then abspath_in cwd f else f)"

lemma cc_script_writes_output:
  assumes "cc_script N env E params s0 = (([], Inr 0), s1, Some c)"
    and "parse_command_line env params = Inr (os, args)"
  shows "\<exists>f log. c_curfile c = Some f \<and>
    (if generate_c os then s_log c = log @ [[''llvm2c'', ''-o'', requested_output (i_cwd s0) os, f]]
     else f = requested_output (i_cwd s0) os \<or>
       generate_ll os \<and> endswith (requested_output (i_cwd s0) os) ''.ll'')"
proof -
  obtain outp os1 where o: "cc_script_output (i_cwd s0) os = (outp, os1)" by (cases "cc_script_output (i_cwd s0) os")
  let ?s = "s0\<lparr>i_setup := (i_setup s0)\<lparr>v_opts := os1\<rparr>\<rparr>"
  from assms o obtain tg p0 s2 p E1 src where set: "setup_run (N\<lparr>n_files := files_in env N (i_cwd s0)\<rparr>) ?s = (Inr (tg, p0), s2)"
    and run: "cc_phase E1 tg outp (init_cc (v_opts (i_setup s2)) p src) = (Inr (), c)"
    by (auto simp: cc_script_def Let_def err_def split: if_splits prod.splits sum.splits exn.splits)
  have "output_settings (v_opts (i_setup s2)) = output_settings os1"
    using setup_keeps_output [OF set] by simp
  with cc_phase_output [OF run] obtain f log where "c_curfile c = Some f"
    "placed (output_settings os1) (Some f)"
    "generate_c os1 \<longrightarrow> (\<exists>out. outp = Some out \<and> s_log c = log @ [[''llvm2c'', ''-o'', out, f]])"
    by (auto simp: init_cc_def output_settings_def)
  with o show ?thesis
    by (auto simp: cc_script_output_def requested_output_def placed_def output_settings_def Let_def
        split: option.splits if_splits)
qed

section \<open>A relative property file\<close>

lemma join_last: "suffix y (join sep (xs @ [y]))"
proof (induction xs)
  case (Cons x xs)
  then show ?case by (cases "xs @ [y]") (auto intro: suffix_appendI)
qed simp

lemma normal_parts_snoc: "x \<notin> {[], ''.'', ''..''} \<Longrightarrow> normal_parts (xs @ [x]) = normal_parts xs @ [x]"
  by (simp add: normal_parts_def)

text \<open>The path of a file in a directory that has a name.\<close>

lemma abspath_in_file:
  assumes "CHR ''/'' \<notin> set f" and "f \<notin> {[], ''.'', ''..''}" and "d \<noteq> []" and "last d \<noteq> CHR ''/''"
  shows "abspath_in d f = ''/'' @ join ''/'' (normal_parts (split_on (CHR ''/'') d) @ [f])"
proof -
  have "path_join d f = d @ CHR ''/'' # f"
    using assms by (cases f) (auto simp: path_join_def suffix_def)
  then have "split_on (CHR ''/'') (path_join d f) = split_on (CHR ''/'') d @ [f]"
    using split_on_join2 [of "CHR ''/''" d f] split_on_free [OF assms(1)] by simp
  then show ?thesis using assms(2) by (simp add: abspath_in_def normal_parts_snoc)
qed


lemma split_on_suffix:
  "c \<notin> set b \<Longrightarrow> \<exists>xs z. split_on c (a @ b) = xs @ [z @ b]"
proof (induction a)
  case Nil
  then show ?case using split_on_free [of c b] by (metis append_Nil)
next
  case (Cons x a)
  then obtain xs z where s: "split_on c (a @ b) = xs @ [z @ b]" by blast
  show ?case
  proof (cases "x = c")
    case True
    with s have "split_on c ((x # a) @ b) = ([] # xs) @ [z @ b]" by simp
    then show ?thesis by blast
  next
    case False
    show ?thesis
    proof (cases xs)
      case Nil
      with s False have "split_on c ((x # a) @ b) = [] @ [(x # z) @ b]" by simp
      then show ?thesis by blast
    next
      case (Cons y ys)
      with s False have "split_on c ((x # a) @ b) = ((x # y) # ys) @ [z @ b]" by simp
      then show ?thesis by blast
    qed
  qed
qed

lemma join_suffix: "suffix (join sep [x, y]) (join sep (xs @ [x, y]))"
proof (induction xs)
  case (Cons a xs)
  then show ?case by (cases "xs @ [x, y]") (auto intro: suffix_appendI)
qed simp

text \<open>The absolute path of a file whose name follows a random one.\<close>

lemma abspath_in_suffix:
  assumes "CHR ''/'' \<notin> set r" and "r \<notin> {[], ''.'', ''..''}" and "length r \<ge> 2" and "suffix r q"
  shows "suffix r (abspath_in cwd q)"
proof -
  obtain b where "q = b @ r" using assms(4) by (auto simp: suffix_def)
  then have "path_join cwd q \<in> {b @ r, (cwd @ b) @ r, (cwd @ ''/'' @ b) @ r}"
    by (simp add: path_join_def)
  then obtain a where "path_join cwd q = a @ r" by blast
  then obtain xs z where "split_on (CHR ''/'') (path_join cwd q) = xs @ [z @ r]"
    using split_on_suffix [OF assms(1)] by metis
  moreover have "z @ r \<notin> {[], ''.'', ''..''}"
    using assms(2,3) by (auto simp: append_eq_Cons_conv)
  ultimately have "abspath_in cwd q = ''/'' @ join ''/'' (normal_parts xs @ [z @ r])"
    by (simp add: abspath_in_def normal_parts_snoc)
  moreover have "suffix (z @ r) (join ''/'' (normal_parts xs @ [z @ r]))" by (rule join_last)
  ultimately show ?thesis by (metis suffix_append suffix_def append.assoc)
qed

lemma abspath_in_directory:
  assumes "CHR ''/'' \<notin> set r" and "r \<notin> {[], ''.'', ''..''}" and "length r \<ge> 2" and "suffix r d"
    and "CHR ''/'' \<notin> set f" and "f \<notin> {[], ''.'', ''..''}"
  shows "suffix (r @ ''/'' @ f) (abspath_in d f)"
proof -
  obtain a where a: "d = a @ r" using assms(4) by (auto simp: suffix_def)
  then obtain xs z where s: "split_on (CHR ''/'') d = xs @ [z @ r]"
    using split_on_suffix [OF assms(1)] by metis
  have "d \<noteq> []" "last d \<noteq> CHR ''/''"
    using assms(1,2) a last_in_set [of r] by (auto dest: sym)
  from abspath_in_file [OF assms(5,6) this] s
  have "abspath_in d f = ''/'' @ join ''/'' (normal_parts (xs @ [z @ r]) @ [f])" by simp
  moreover have "z @ r \<notin> {[], ''.'', ''..''}"
    using assms(2,3) by (auto simp: append_eq_Cons_conv)
  ultimately have "abspath_in d f = ''/'' @ join ''/'' (normal_parts xs @ [z @ r, f])"
    by (simp add: normal_parts_snoc)
  moreover have "suffix (join ''/'' [z @ r, f]) (join ''/'' (normal_parts xs @ [z @ r, f]))" by (rule join_suffix)
  ultimately show ?thesis by (auto simp: suffix_def)
qed

lemma get_property_unknown:
  assumes "u \<in> set (fst (parse_prp fs prp))" and "map_of supported_properties u = None"
    and "map_of supported_ltl_properties u = None" and "\<And>f. parametrized f u = None"
  shows "\<exists>msg. get_property order fs d (Some prp) = Inl (SymbioticException msg)"
proof -
  obtain prps f where p: "parse_prp fs prp = (prps, f)" by (cases "parse_prp fs prp")
  with assms have "u \<in> set (snd (get_simple_property prps f))"
    by (simp add: get_simple_property_def filter_properties_def)
  then have "u \<in> set (snd (get_parametrized_property (snd (get_simple_property prps f)) f))"
    using assms(4) by (simp add: get_parametrized_property_def)
  moreover have "get_parametrized_property [] f = ([], [])"
    by (simp add: get_parametrized_property_def List.map_filter_def)
  ultimately show ?thesis
    using p by (auto simp: get_property_def split: prod.split)
qed

lemma setup_in_working:
  assumes "setup_run N s = (Inr x, s')"
  shows "i_working s' = Some (i_cwd s')"
  using assms
  by (auto simp: setup_run_def Let_def bnd_def sq_run cmd_run chdir_def assertc_def
      split: prod.splits sum.splits if_splits)

text \<open>C40: A property file that is given by a relative path is lost: \<open>symbiotic-cc\<close> looks the property up
  again in its new working directory, does not find the file there, and takes its name for the name of a
  property. Whatever the set-up did, the run ends with an exception or \<open>SystemExit\<close> before the compiler
  phase, unless the name is that of a property.\<close>

theorem relative_property_file_lost:
  assumes "cc_script N env E params s0 = ((lines, r), s1, c)"
    and "parse_command_line env params = Inr (os, args)" and "\<not> dump_env_only os" and "args \<noteq> []"
    and "\<not> save_files os" and "new_names N s0"
    and prp: "propertystr os = Some prp" "u \<in> set (words prp)" "map_of supported_properties u = None"
      "map_of supported_ltl_properties u = None" "\<And>f. parametrized f u = None"
    and empty: "\<And>pre. file_lines (n_files N) (abs_path (files_in env N (temporary N s0 pre)) prp) = None"
  shows "lines = [] \<and> isl r \<and> c = None"
proof -
  obtain outp os1 where o: "cc_script_output (i_cwd s0) os = (outp, os1)" by (cases "cc_script_output (i_cwd s0) os")
  let ?N = "N\<lparr>n_files := files_in env N (i_cwd s0)\<rparr>"
  let ?s = "s0\<lparr>i_setup := (i_setup s0)\<lparr>v_opts := os1\<rparr>\<rparr>"
  have os1: "propertystr os1 = Some prp" "\<not> save_files os1"
    using o prp(1) assms(5) by (auto simp: cc_script_output_def Let_def split: option.splits if_splits)
  show ?thesis
  proof (cases "setup_run ?N ?s")
    case (Pair x s2)
    show ?thesis
    proof (cases x)
      case (Inl e)
      with Pair assms(1-4) o show ?thesis by (auto simp: cc_script_def)
    next
      case (Inr y)
      have t: "temporary ?N s0 = temporary N s0" by (simp add: temporary_def fun_eq_iff)
      then have "new_names ?N s0" using assms(6) by (simp add: new_names_def)
      moreover have "unsaved s0 ?s" using os1(2) by (simp add: unsaved_def saves_def)
      ultimately have "with_temporary ?N s0 s2"
        using setup_directories [of ?N s0] Pair Inr unfolding triple_def by fastforce
      then obtain pre where "i_working s2 = Some (temporary N s0 pre)" by (auto simp: with_temporary_def t)
      then have "i_cwd s2 = temporary N s0 pre" using setup_in_working [of ?N ?s y s2] Pair Inr by simp
      then have "parse_prp (files_in env N (i_cwd s2)) prp = (words prp, None)"
        using empty [of pre] by (simp add: parse_prp_def Let_def files_in_def)
      then obtain msg where "get_property (n_order N) (files_in env N (i_cwd s2)) (u_dir (n_setup N)) (Some prp) =
          Inl (SymbioticException msg)"
        using get_property_unknown [of u] prp by fastforce
      moreover have "propertystr (v_opts (i_setup s2)) = Some prp"
        using setup_keeps_output [of ?N ?s y s2] Pair Inr os1(1) by (simp add: output_settings_def)
      ultimately show ?thesis
        using Pair Inr assms(1-4) o by (cases y) (auto simp: cc_script_def err_of_def err_def)
    qed
  qed
qed

definition file_example :: install_env where
  "file_example = install_example\<lparr>n_files := \<lparr>abs_path = id, file_lines = [''/home/my.prp'' \<mapsto> [''memsafety'']]\<rparr>\<rparr>"

lemma file_example_found:
  "\<exists>p. get_property id (files_in env_example file_example ''/home'') [] (Some ''my.prp'') = Inr p"
proof -
  have "\<not> isl (get_property id (files_in env_example file_example ''/home'') [] (Some ''my.prp''))"
    by code_simp
  then show ?thesis by (cases "get_property id (files_in env_example file_example ''/home'') [] (Some ''my.prp'')") auto
qed

theorem relative_property_file_lost_witness:
  "(\<exists>p. get_property id (files_in env_example file_example ''/home'') [] (Some ''my.prp'') = Inr p) \<and>
   (\<exists>lines r s1 c. cc_script file_example env_example quiet_env [''--prp=my.prp'', ''a.c'']
       \<lparr>i_setup = opt_state, i_cwd = ''/home'', i_dirs = [], i_working = None\<rparr> = ((lines, r), s1, c) \<and>
     lines = [] \<and> isl r \<and> c = None)"
proof -
  let ?s = "\<lparr>i_setup = opt_state, i_cwd = ''/home'', i_dirs = [], i_working = None\<rparr>"
  let ?os = "(SymbioticOptions env_example)\<lparr>propertystr := Some ''my.prp''\<rparr>"
  obtain lines r s1 c where run: "cc_script file_example env_example quiet_env [''--prp=my.prp'', ''a.c''] ?s = ((lines, r), s1, c)"
    by (metis prod.exhaust)
  have "getopt [''--prp=my.prp'', ''a.c''] long_options = Inr ([(''--prp'', ''my.prp'')], [''a.c''])"
    by code_simp
  moreover have "apply_option env_example (''--prp'', ''my.prp'') (SymbioticOptions env_example) = Inr ?os"
    by (simp add: apply_option_def flag_updates_def value_updates_def set_prp_def)
  ultimately have parse: "parse_command_line env_example [''--prp=my.prp'', ''a.c''] = Inr (?os, [''a.c''])"
    by (simp add: parse_command_line_def check_conflicts_def SymbioticOptions_def)
  have "suffix ''x7'' (temporary file_example ?s pre)" for pre
    unfolding temporary_def by (rule abspath_in_suffix) (auto simp: path_join_def suffix_def file_example_def install_example_def)
  from abspath_in_directory [OF _ _ _ this, where f = "''my.prp''"]
  have "suffix ''x7/my.prp'' (abspath_in (temporary file_example ?s pre) ''my.prp'')" for pre by simp
  moreover have "\<not> suffix ''x7/my.prp'' ''/home/my.prp''" by (simp add: suffix_def)
  ultimately have "abspath_in (temporary file_example ?s pre) ''my.prp'' \<noteq> ''/home/my.prp''" for pre
    by metis
  then have empty: "file_lines (n_files file_example)
      (abs_path (files_in env_example file_example (temporary file_example ?s pre)) ''my.prp'') = None" for pre
    by (simp add: files_in_def file_example_def)
  have prp: "\<not> dump_env_only ?os" "[''a.c''] \<noteq> []" "\<not> save_files ?os" "new_names file_example ?s"
    "propertystr ?os = Some ''my.prp''"
    by (simp_all add: SymbioticOptions_def new_names_def)
  have u: "''my.prp'' \<in> set (words ''my.prp'')" "map_of supported_properties ''my.prp'' = None"
    "map_of supported_ltl_properties ''my.prp'' = None"
    by code_simp+
  have "parametrized f ''my.prp'' = None" for f by (simp add: parametrized_def)
  from relative_property_file_lost [OF run parse prp u this empty] run file_example_found show ?thesis by blast
qed

section \<open>Time limit\<close>

text \<open>This script never kills a program: one that a signal has left alive stays alive.\<close>

definition abandoned :: "'a sys_scheme \<Rightarrow> bool" where
  "abandoned s \<longleftrightarrow> s_running s \<and> s_alive s"

lemma abandoned_process: "keeps abandoned (run_process W cmd w)"
proof (rule keepsI)
  fix s :: "'a sys_scheme" assume "abandoned s"
  then show "abandoned (snd (run_process W cmd w s))"
    by (cases rule: run_process_cases [of s W cmd w]) (auto simp: abandoned_def)
qed

interpretation abandoned: run_invariant E tt abandoned "\<lambda>_. True" for E tt
  by unfold_locales (simp_all add: abandoned_process abandoned_def)

lemma signal_abandons:
  assumes "run_process W cmd w s = (Inl (signal_exn sg), s')" and "\<not> s_running s"
  shows "abandoned s'"
proof -
  have other: "signal_exn sg \<noteq> SymbioticException m" for m by (cases sg) simp_all
  with assms show ?thesis
    by (cases rule: run_process_cases [of s W cmd w]) (auto simp: abandoned_def dest: sym)
qed

lemma cc_phase_abandons: "keeps abandoned (cc_phase E tg output)"
  unfolding cc_phase_def generate_c_file_def runcmd_def
  by (intro inv_intros abandoned.keeps_cc_run abandoned_process)

text \<open>The first program of a run that looks for memory errors is clang.\<close>

lemma signal_at_first_program:
  defines "cmd tt \<equiv> default_cc tt @ [''-cc1'', ''--help'']"
  assumes "memsafety p" and "\<not> witness_check os" and "llvm_numbers (tool.truncate tg) = Inr v"
    and "exec (e_world E) [] (cmd (tool.truncate tg)) = Some (lines, status)"
    and "w_signal (e_world E) [] (cmd (tool.truncate tg)) = Some (0, sg)"
  shows "\<exists>c. cc_phase E tg output (init_cc os p src) = (Inl (signal_exn sg), c) \<and> abandoned c"
proof -
  obtain major minor where v: "v = (major, minor)" by (cases v)
  have "\<exists>c. run_compilation E (tool.truncate tg) (init_cc os p src) = (Inl (signal_exn sg), c) \<and> abandoned c"
    using assms(2-) v
    by (simp add: run_compilation_def restart_counting_time_def disable_and_rename_optimizations_def
        compile_sources_def cc_has_lifetime_markers_def process_grep_def run_process_def cmd_def init_cc_def
        abandoned_def bnd_def sq_run cmd_run)
  then show ?thesis
    by (auto simp: cc_phase_def cc_run_def bnd_def sq_run)
qed

text \<open>A failure to disassemble the output is not noticed: such a run ends as if the output was there.\<close>

lemma missing_ll_output:
  assumes "final_output (c_opts s) = Some out" and "generate_ll (c_opts s)" and "endswith out ''.ll''"
    and "c_curfile s = Some f" and "exec (e_world E) (s_log s) [''llvm-dis'', f, ''-o'', out] = None" and "\<not> s_running s"
  shows "write_final_output E s = (Inr (), s)"
  using assms
  by (simp add: write_final_output_def generate_ll_file_def ignore_failure_def run_command_def runcmd_def
      run_process_def handle_def bnd_def sq_run cmd_run curfile_def of_opt_def)

end
