(* ===== verification/Printing.thy ===== *)
theory Printing
  imports Testcases
begin

text \<open>
  What the program prints: \<open>print_stream\<close>, \<open>dbg\<close> and \<open>dump_paths\<close> of \<open>utils/utils.py\<close> and the versions
  of \<open>options.py\<close>. A function returns the text it writes, or the lines. The lemmas compare the
  coloured text with the plain one, and say what a shell makes of the commands of \<open>dump_paths\<close>.
\<close>

section \<open>Coloured text\<close>

definition escape :: "string \<Rightarrow> string" where
  "escape code = [CHR 0x1B] @ ''['' @ code @ ''m''"

definition COLORS :: "(string \<times> string) list" where
  "COLORS =
     [(''DARK_BLUE'', escape ''0;34''), (''CYAN'', escape ''0;36''), (''BLUE'', escape ''1;34''),
      (''PURPLE'', escape ''0;35''), (''RED'', escape ''1;31''), (''GREEN'', escape ''1;32''),
      (''BROWN'', escape ''0;33''), (''YELLOW'', escape ''1;33''), (''WHITE'', escape ''1;37''),
      (''GRAY'', escape ''0;37''), (''DARK_GRAY'', escape ''1;30''), (''RESET'', escape ''0'')]"

text \<open>What \<open>print_stream\<close> writes on a stream; \<open>tty\<close> is \<open>stream.isatty()\<close>. An empty message is not
  written, the code of its colour is.\<close>

definition print_stream ::
  "bool \<Rightarrow> string \<Rightarrow> string option \<Rightarrow> bool \<Rightarrow> string option \<Rightarrow> exn + string" where
  "print_stream tty msg prefx print_nl color =
     (let color = (if tty then color else None) in
      bindE (case color of None \<Rightarrow> Inr [] | Some c \<Rightarrow> of_opt KeyError (map_of COLORS c)) (\<lambda>start.
      if msg = [] then Inr start
      else
        bindE (if color = None then Inr [] else of_opt KeyError (map_of COLORS ''RESET'')) (\<lambda>reset.
        Inr (start @ (case prefx of None \<Rightarrow> [] | Some p \<Rightarrow> p) @ msg @ reset @ (if print_nl then [CHR 0x0A] else [])))))"

text \<open>\<open>dbg\<close>; the state is \<open>None\<close> until \<open>enable_debug\<close> sets the domains.\<close>

definition dbg ::
  "string list option \<Rightarrow> bool \<Rightarrow> string \<Rightarrow> string \<Rightarrow> bool \<Rightarrow> string \<Rightarrow> string \<Rightarrow> exn + string" where
  "dbg debug tty msg domain print_nl prefx color =
     (case debug of None \<Rightarrow> Inr []
      | Some ds \<Rightarrow>
          if ''all'' \<in> set ds \<or> domain \<in> set ds then print_stream tty msg (Some prefx) print_nl (Some color)
          else Inr [])"

text \<open>The text without the codes for colours.\<close>

primrec without_codes :: "bool \<Rightarrow> string \<Rightarrow> string" where
  "without_codes inside [] = []"
| "without_codes inside (c # cs) =
     (if inside then without_codes (c \<noteq> CHR ''m'') cs
      else if c = CHR 0x1B then without_codes True cs else c # without_codes False cs)"

abbreviation plain :: "string \<Rightarrow> string" where
  "plain \<equiv> without_codes False"

lemma plain_free: "CHR 0x1B \<notin> set s \<Longrightarrow> plain (s @ t) = s @ plain t"
  by (induction s) auto

lemma plain_escape: "CHR ''m'' \<notin> set code \<Longrightarrow> plain (escape code @ t) = plain t"
proof -
  have "without_codes True (code @ CHR ''m'' # t) = plain t" if "CHR ''m'' \<notin> set code"
    using that by (induction code) auto
  moreover assume "CHR ''m'' \<notin> set code"
  ultimately show ?thesis by (simp add: escape_def)
qed

lemma colors_are_codes: "map_of COLORS c = Some x \<Longrightarrow> \<exists>code. x = escape code \<and> CHR ''m'' \<notin> set code"
proof -
  assume "map_of COLORS c = Some x"
  then have "(c, x) \<in> set COLORS" by (rule map_of_SomeD)
  then show ?thesis by (simp add: COLORS_def) (elim disjE; fastforce)
qed

text \<open>Colours do not change the text: without its codes, a coloured message is the one that is written
  to a file.\<close>

lemma colored_text_is_plain:
  assumes "color = None \<or> (\<exists>c code. color = Some c \<and> map_of COLORS c = Some code)"
    and "CHR 0x1B \<notin> set msg" and "\<And>p. prefx = Some p \<Longrightarrow> CHR 0x1B \<notin> set p"
  shows "\<exists>t. print_stream True msg prefx nl color = Inr t \<and> print_stream False msg prefx nl color = Inr (plain t)"
proof -
  define pre where "pre = (case prefx of None \<Rightarrow> [] | Some p \<Rightarrow> p)"
  have pre: "CHR 0x1B \<notin> set pre" using assms(3) by (auto simp: pre_def split: option.split)
  have r: "map_of COLORS ''RESET'' = Some (escape ''0'')" by (simp add: COLORS_def)
  have tail: "plain (pre @ msg @ t) = pre @ msg @ plain t" for t
    using plain_free [OF pre] plain_free [OF assms(2)] by simp
  have nl: "plain (if nl then [CHR 0x0A] else []) = (if nl then [CHR 0x0A] else [])" by simp
  from assms(1) show ?thesis
  proof
    assume "color = None"
    then show ?thesis by (auto simp: print_stream_def tail nl pre_def [symmetric])
  next
    assume "\<exists>c code. color = Some c \<and> map_of COLORS c = Some code"
    then obtain c x where c: "color = Some c" "map_of COLORS c = Some x" by auto
    from colors_are_codes [OF c(2)] obtain code where "x = escape code" "CHR ''m'' \<notin> set code" by auto
    then have "plain (x @ t) = plain t" for t by (simp add: plain_escape)
    from this this [of "[]"] show ?thesis
      using c r by (auto simp: print_stream_def of_opt_def tail plain_escape nl pre_def [symmetric])
  qed
qed

text \<open>A coloured empty message leaves the colour switched on.\<close>

lemma empty_message_keeps_color: "print_stream True [] prefx nl (Some ''RED'') = Inr (escape ''1;31'')"
  by (simp add: print_stream_def COLORS_def of_opt_def)

section \<open>Paths\<close>

text \<open>\<open>dump_paths\<close>: the lines for the variables that are set.\<close>

definition dump_paths :: "bool \<Rightarrow> (string \<rightharpoonup> string) \<Rightarrow> string list" where
  "dump_paths dump_as_cmd vars =
     concat (map (\<lambda>v. case vars v of None \<Rightarrow> []
         | Some x \<Rightarrow> [if dump_as_cmd then ''export '' @ v @ ''='' @ x @ '':$'' @ v else v @ ''='' @ x])
       [''PATH'', ''LD_LIBRARY_PATH'', ''C_INCLUDE_DIR'']) @
     concat (map (\<lambda>v. case vars v of None \<Rightarrow> []
         | Some x \<Rightarrow> [if dump_as_cmd then ''export '' @ v @ ''=\"'' @ x @ '' $'' @ v @ ''\"'' else v @ ''=\"'' @ x @ ''\"''])
       [''CFLAGS'', ''CPPFLAGS''])"

text \<open>What a shell does with such a command: \<open>$\<close> and a name stand for the value of the variable, and
  without quotes the value ends at a space.\<close>

definition shell_export :: "(string \<rightharpoonup> string) \<Rightarrow> string \<Rightarrow> (string \<rightharpoonup> string)" where
  "shell_export vars l =
     (let assignment = drop 7 l; v = takeWhile (\<lambda>c. c \<noteq> CHR ''='') assignment;
          arg = drop 1 (dropWhile (\<lambda>c. c \<noteq> CHR ''='') assignment);
          text = (if startswith arg ''\"'' then filter (\<lambda>c. c \<noteq> CHR 0x22) arg else takeWhile (\<lambda>c. c \<noteq> CHR '' '') arg);
          name = drop 1 (dropWhile (\<lambda>c. c \<noteq> CHR ''$'') text)
      in vars(v \<mapsto> takeWhile (\<lambda>c. c \<noteq> CHR ''$'') text @ (case vars name of None \<Rightarrow> [] | Some x \<Rightarrow> x)))"

lemma drop_takeWhile:
  "c \<notin> set xs \<Longrightarrow> takeWhile (\<lambda>y. y \<noteq> c) (xs @ c # ys) = xs"
  "c \<notin> set xs \<Longrightarrow> dropWhile (\<lambda>y. y \<noteq> c) (xs @ c # ys) = c # ys"
  by (induction xs) auto

definition plain_value :: "bool \<Rightarrow> string \<Rightarrow> bool" where
  "plain_value q x \<longleftrightarrow> CHR 0x22 \<notin> set x \<and> CHR ''$'' \<notin> set x \<and> (q \<or> CHR '' '' \<notin> set x)"

lemma shell_export_path:
  assumes "CHR ''='' \<notin> set v" and "CHR 0x22 \<notin> set v" and "CHR '' '' \<notin> set v" and "plain_value False x"
  shows "shell_export vars (''export '' @ v @ ''='' @ x @ '':$'' @ v) =
      vars(v \<mapsto> x @ '':'' @ (case vars v of None \<Rightarrow> [] | Some y \<Rightarrow> y))"
proof -
  have "takeWhile (\<lambda>c. c \<noteq> CHR '' '') (x @ '':$'' @ t) = x @ '':$'' @ takeWhile (\<lambda>c. c \<noteq> CHR '' '') t" for t
    using assms(4) by (auto simp: plain_value_def takeWhile_append)
  moreover have "takeWhile (\<lambda>c. c \<noteq> CHR '' '') v = v" using assms(3) by (auto simp: takeWhile_eq_all_conv)
  moreover have "\<not> startswith (x @ '':$'' @ v) ''\"''"
    using assms(4) by (cases x) (auto simp: plain_value_def)
  ultimately show ?thesis
    using drop_takeWhile [OF assms(1), of "x @ '':$'' @ v"] drop_takeWhile [of "CHR ''$''" "x @ '':''" v] assms(4)
    by (simp add: shell_export_def Let_def plain_value_def del: takeWhile_eq_all_conv)
qed

lemma shell_export_flags:
  assumes "CHR ''='' \<notin> set v" and "CHR 0x22 \<notin> set v" and "plain_value True x"
  shows "shell_export vars (''export '' @ v @ ''=\"'' @ x @ '' $'' @ v @ ''\"'') =
      vars(v \<mapsto> x @ '' '' @ (case vars v of None \<Rightarrow> [] | Some y \<Rightarrow> y))"
proof -
  have "filter (\<lambda>c. c \<noteq> CHR 0x22) y = y" if "CHR 0x22 \<notin> set y" for y
    using that by (auto simp: filter_id_conv)
  then show ?thesis
    using drop_takeWhile [OF assms(1), of "''\"'' @ x @ '' $'' @ v @ ''\"''"] drop_takeWhile [of "CHR ''$''" "x @ '' ''" v]
      assms(2,3)
    by (simp add: shell_export_def Let_def plain_value_def)
qed

text \<open>Evaluating the commands puts the values before those of the user; where the user had none, an empty
  component is left at the end, which is the current directory.\<close>

lemma dump_as_commands:
  assumes "\<And>v x. vars v = Some x \<Longrightarrow> plain_value (v \<in> {''CFLAGS'', ''CPPFLAGS''}) x"
    and "v \<in> {''PATH'', ''LD_LIBRARY_PATH'', ''C_INCLUDE_DIR''}" and "vars v = Some x"
  shows "foldl shell_export user (dump_paths True vars) v =
    Some (x @ '':'' @ (case user v of None \<Rightarrow> [] | Some y \<Rightarrow> y))"
proof -
  have path: "foldl shell_export u (case vars w of None \<Rightarrow> [] | Some x \<Rightarrow> [''export '' @ w @ ''='' @ x @ '':$'' @ w]) =
      (case vars w of None \<Rightarrow> u | Some x \<Rightarrow> u(w \<mapsto> x @ '':'' @ (case u w of None \<Rightarrow> [] | Some y \<Rightarrow> y)))"
    if "w \<in> {''PATH'', ''LD_LIBRARY_PATH'', ''C_INCLUDE_DIR''}" for u w
  proof -
    have "CHR ''='' \<notin> set w \<and> CHR 0x22 \<notin> set w \<and> CHR '' '' \<notin> set w \<and> w \<notin> {''CFLAGS'', ''CPPFLAGS''}"
      using that by auto
    then show ?thesis using shell_export_path [of w _ u] assms(1) [of w] by (cases "vars w") simp_all
  qed
  have flags: "foldl shell_export u (case vars w of None \<Rightarrow> [] | Some x \<Rightarrow> [''export '' @ w @ ''=\"'' @ x @ '' $'' @ w @ ''\"'']) =
      (case vars w of None \<Rightarrow> u | Some x \<Rightarrow> u(w \<mapsto> x @ '' '' @ (case u w of None \<Rightarrow> [] | Some y \<Rightarrow> y)))"
    if "w \<in> {''CFLAGS'', ''CPPFLAGS''}" for u w
  proof -
    have "CHR ''='' \<notin> set w \<and> CHR 0x22 \<notin> set w" using that by auto
    then show ?thesis using shell_export_flags [of w _ u] assms(1) [of w] that by (cases "vars w") simp_all
  qed
  have "foldl shell_export user (dump_paths True vars) =
      fold (\<lambda>(sep, w) u. case vars w of None \<Rightarrow> u | Some x \<Rightarrow> u(w \<mapsto> x @ sep @ (case u w of None \<Rightarrow> [] | Some y \<Rightarrow> y)))
        [('':'', ''PATH''), ('':'', ''LD_LIBRARY_PATH''), ('':'', ''C_INCLUDE_DIR''), ('' '', ''CFLAGS''), ('' '', ''CPPFLAGS'')] user"
  proof -
    have s: "foldl shell_export u (dump_paths True vars) = foldl shell_export (foldl shell_export u
        (concat (map (\<lambda>v. case vars v of None \<Rightarrow> [] | Some x \<Rightarrow> [''export '' @ v @ ''='' @ x @ '':$'' @ v])
          [''PATH'', ''LD_LIBRARY_PATH'', ''C_INCLUDE_DIR''])))
        (concat (map (\<lambda>v. case vars v of None \<Rightarrow> [] | Some x \<Rightarrow> [''export '' @ v @ ''=\"'' @ x @ '' $'' @ v @ ''\"''])
          [''CFLAGS'', ''CPPFLAGS'']))" for u
      by (simp only: dump_paths_def if_True foldl_append)
    note p = path [OF insertI1] path [OF insertI2 [OF insertI1]] path [OF insertI2 [OF insertI2 [OF insertI1]]]
      flags [OF insertI1] flags [OF insertI2 [OF insertI1]]
    show ?thesis
      by (simp only: s list.map concat.simps append_Nil2 foldl_append p fold_simps prod.case)
  qed
  with assms(2,3) show ?thesis by (elim insertE emptyE) (simp_all split: option.split)
qed

section \<open>Where the program is\<close>

definition get_symbiotic_dir :: "(string \<Rightarrow> string) \<Rightarrow> (string \<Rightarrow> string) \<Rightarrow> string \<Rightarrow> string" where
  "get_symbiotic_dir realpath absp argv0 = absp (dirname (realpath (path_join argv0 ''..'')))"

text \<open>\<open>get_clang_version\<close>: the third word of the only line with \<open>version\<close>.\<close>

definition get_clang_version :: "world \<Rightarrow> ('a sys_scheme, string) cmd" where
  "get_clang_version W =
     bnd (process_grep W [''clang'', ''-v''] ''version'') (\<lambda>(retval, lines).
     sq (assertc (retval = Some 0))
     (sq (assertc (length lines = 1))
     (lift (let ws = filter (\<lambda>w. w \<noteq> []) (split_when is_byte_space (lines ! 0)) in
        if 2 < length ws then Inr (ws ! 2) else Inl IndexError))))"

text \<open>A vendor's name before \<open>clang\<close> shifts the words.\<close>

definition clang_answers :: "string \<Rightarrow> world" where
  "clang_answers l = \<lparr>exec = (\<lambda>log cmd. Some ([l], 0)), isfile = (\<lambda>log f. True), abspath = id, w_signal = (\<lambda>log cmd. None)\<rparr>"

lemma clang_version_of_vendor:
  "fst (get_clang_version (clang_answers ''clang version 10.0.1'') script_start) = Inr ''10.0.1''"
  "fst (get_clang_version (clang_answers ''Ubuntu clang version 10.0.1'') script_start) = Inr ''version''"
  by code_simp+

section \<open>Versions\<close>

text \<open>\<open>get_versions\<close>; the generated module \<open>versions.py\<close> is an argument, \<open>None\<close> when there is none.\<close>

record versions =
  ver_number :: string
  ver_table :: "(string \<times> string) list"
  ver_llvm :: string
  ver_build_types :: "(string \<times> string) list"

definition VERSION :: string where "VERSION = ''4.0.0-rc1''"

definition get_versions ::
  "((string \<times> string) list \<times> (string \<times> string) list \<times> string) option \<Rightarrow> versions" where
  "get_versions module =
     (case module of
        Some (table, build_types, llvm) \<Rightarrow>
          \<lparr>ver_number = VERSION, ver_table = table, ver_llvm = llvm, ver_build_types = build_types\<rparr>
      | None \<Rightarrow>
          \<lparr>ver_number = VERSION, ver_table = [(''witch'', VERSION)], ver_llvm = ''unknown'', ver_build_types = []\<rparr>)"

definition pad :: "nat \<Rightarrow> string \<Rightarrow> string" where
  "pad n s = s @ replicate (n - length s) (CHR '' '')"

text \<open>The empty build type counts as none.\<close>

definition print_versions :: "versions \<Rightarrow> string list" where
  "print_versions V =
     [''version: '' @ ver_number V, ''LLVM version: '' @ ver_llvm V] @
     map (\<lambda>(k, v). pad 20 k @ '' -> '' @ v @
         (case map_of (ver_build_types V) k of None \<Rightarrow> [] | Some bt \<Rightarrow> if bt = [] then [] else '' ('' @ bt @ '')''))
       (ver_table V)"

definition debug_suffix :: "versions \<Rightarrow> string" where
  "debug_suffix V = (if ''Debug'' \<in> set (map snd (ver_build_types V)) then ''-DBG'' else [])"

definition print_short_vers :: "versions \<Rightarrow> string" where
  "print_short_vers V =
     ver_number V @ ''-'' @ ''llvm-'' @ ver_llvm V @ ''-'' @
     join ''-'' (map (\<lambda>(k, v). k @ '':'' @ take 8 v) (ver_table V)) @ debug_suffix V"

definition print_shortest_vers :: "versions \<Rightarrow> exn + string" where
  "print_shortest_vers V =
     bindE (of_opt KeyError (map_of (ver_table V) ''symbiotic'')) (\<lambda>v.
     Inr (ver_number V @ ''-'' @ take 8 v @ debug_suffix V))"

text \<open>Without the generated module there is no shortest version: the look-up in the options
  (\<open>os_has_version\<close>) fails.\<close>

lemma no_shortest_version: "print_shortest_vers (get_versions None) = Inl KeyError"
  by (simp add: print_shortest_vers_def get_versions_def of_opt_def)

lemma print_versions_length: "length (print_versions V) = 2 + length (ver_table V)"
  by (simp add: print_versions_def)

end
