(* ===== verification/TestRunner.thy ===== *)
theory TestRunner
  imports Signals
begin

text \<open>
  The test runner \<open>tests/test_runner.py\<close>: it runs \<open>symbiotic\<close> on the files of a test set and compares
  its standard output with the result that the pattern of the files asks for. Programs and the files of
  a pattern are arguments. The lemmas say how the runs of \<open>scripts/symbiotic\<close> are judged.
\<close>

section \<open>The judgement of a run\<close>

definition get_expected_result :: "string \<Rightarrow> string" where
  "get_expected_result input_regex =
     (if is_in ''true'' input_regex then ''true''
      else ''false('' @ butlast (drop 7 input_regex) @ '')'')"

text \<open>The match of \<open>(?<=^RESULT: ).*(?=\\s)\<close> in a list of lines: the rest of a line that starts so; in the
  last line, which no line feed follows, up to its last white space.\<close>

fun match_result :: "string list \<Rightarrow> string option" where
  "match_result [] = None"
| "match_result [l] =
     (let rest = drop 8 l; k = length (takeWhile (\<lambda>c. \<not> is_space c) (rev rest)) in
      if startswith l ''RESULT: '' \<and> (\<exists>c \<in> set rest. is_space c) then Some (take (length rest - k - 1) rest) else None)"
| "match_result (l # ls) = (if startswith l ''RESULT: '' then Some (drop 8 l) else match_result ls)"

definition search_result :: "string \<Rightarrow> string option" where
  "search_result out = match_result (split_on (CHR 0x0A) out)"

datatype judgement = PASS | TIMEOUT | FAIL | FATAL_ERROR

definition judge :: "string \<Rightarrow> string \<Rightarrow> int \<Rightarrow> judgement" where
  "judge expected_result out returncode =
     (if is_in expected_result out \<and> returncode = 0 then PASS
      else if is_in ''timeout'' out then TIMEOUT
      else case search_result out of
        Some m \<Rightarrow> if \<not> is_in ''ERROR'' m \<and> returncode = 0 then FAIL else FATAL_ERROR
      | None \<Rightarrow> FATAL_ERROR)"

record test_args =
  tr_timeout :: int
  tr_debug :: bool
  tr_is32bit :: bool
  tr_with_integrity_check :: bool
  tr_sets :: "string list"

definition test_command :: "string \<Rightarrow> test_args \<Rightarrow> string list" where
  "test_command prp args =
     [''symbiotic'', ''--exit-on-error'', ''--report=sv-comp'', ''--timeout='' @ str_int (tr_timeout args)] @
     (if prp \<noteq> ''reach'' then [''--prp='' @ prp] else []) @
     (if tr_debug args then [''--debug=all''] else []) @
     (if tr_is32bit args then [''--32''] else []) @
     (if \<not> tr_with_integrity_check args then [''--no-integrity-check''] else [])"

text \<open>\<open>run_tests\<close>: what is printed for each file; both outputs are decoded.\<close>

definition run_tests ::
  "(string list \<Rightarrow> string \<times> string \<times> int) \<Rightarrow> string list \<Rightarrow> string \<Rightarrow> string \<Rightarrow> test_args \<Rightarrow> exn + judgement list" where
  "run_tests popen test_files prp expected_result args =
     mapE (\<lambda>test. case popen (test_command prp args @ [test]) of (out, errs, returncode) \<Rightarrow>
         bindE (decode out) (\<lambda>out. bindE (decode errs) (\<lambda>_. Inr (judge expected_result out returncode)))) test_files"

text \<open>\<open>main\<close>: the sets, which are read by lines, and the exit status.\<close>

definition test_main ::
  "(string list \<Rightarrow> string \<times> string \<times> int) \<Rightarrow> (string \<Rightarrow> string list) \<Rightarrow> (string \<Rightarrow> string list option) \<Rightarrow>
   test_args \<Rightarrow> exn + judgement list \<times> int" where
  "test_main popen glob lines_of args =
     bindE (mapE (\<lambda>test.
         bindE (of_opt OSError (lines_of test)) (\<lambda>ls.
         bindE (mapE (\<lambda>line. run_tests popen (glob (strip line)) (splitext_root (basename_of test))
             (get_expected_result (strip line)) args) ls) (\<lambda>js. Inr (concat js)))) (tr_sets args)) (\<lambda>jss.
     let js = concat jss in Inr (js, if \<forall>j \<in> set js. j = PASS then 0 else 1))"

section \<open>How runs of the script are judged\<close>

definition printed :: "string list \<Rightarrow> string" where
  "printed ls = concat (map (\<lambda>l. l @ [CHR 0x0A]) ls)"

lemma expected_results:
  "get_expected_result ''*true-unreach-call*'' = ''true''"
  "get_expected_result ''*false-valid-memtrack*'' = ''false(valid-memtrack)''"
  by code_simp+

lemma is_in_printed: "l \<in> set ls \<Longrightarrow> is_in p l \<Longrightarrow> is_in p (printed ls)"
  by (induction ls) (auto simp: printed_def intro: is_in_appendI1 is_in_appendI2)

text \<open>A run with the expected result passes, whatever it prints before; a run that ends with an error
  never does.\<close>

lemma expected_result_passes: "judge res (printed (before @ report_results res)) 0 = PASS"
proof -
  have "''RESULT: '' @ res \<in> set (before @ report_results res)" by (simp add: report_results_def)
  then have "is_in res (printed (before @ report_results res))"
    by (rule is_in_printed) (rule is_in_appendI2, simp add: is_in_iff_sublist)
  then show ?thesis by (simp add: judge_def)
qed

lemma error_does_not_pass:
  assumes "main_report (Inr res) = Some (ls, code)" and "startswith res ''error'' \<or> startswith res ''ERROR''"
  shows "judge expected (printed (before @ ls)) code \<noteq> PASS"
  using assms by (auto simp: main_report_def judge_def split: option.split)

text \<open>The expected result is looked for in the whole output: with \<open>true\<close> in any line, for instance in the
  name of the file in the trace of a found error, every answer passes.\<close>

lemma wrong_answer_passes:
  assumes "l \<in> set before" and "is_in ''true'' l"
  shows "judge ''true'' (printed (before @ report_results res)) 0 = PASS"
  using is_in_printed [of l "before @ report_results res" "''true''"] assms by (simp add: judge_def)

text \<open>Otherwise the line of the result decides.\<close>

lemma split_printed:
  "\<forall>l \<in> set ls. CHR 0x0A \<notin> set l \<Longrightarrow> split_on (CHR 0x0A) (printed ls) = ls @ [[]]"
  by (induction ls) (auto simp: printed_def split_on_append)

lemma match_result_line:
  "\<forall>l \<in> set before. \<not> startswith l ''RESULT: '' \<Longrightarrow> match_result (before @ (''RESULT: '' @ res) # ls @ [[]]) = Some res"
proof (induction before)
  case (Cons l before)
  then show ?case by (cases before) simp_all
qed (cases ls; simp)

lemma wrong_answer_fails:
  assumes "\<forall>l \<in> set before. \<not> startswith l ''RESULT: '' \<and> CHR 0x0A \<notin> set l"
    and "CHR 0x0A \<notin> set res" and "\<not> is_in ''ERROR'' res"
    and "\<not> is_in expected (printed (before @ report_results res))"
    and "\<not> is_in ''timeout'' (printed (before @ report_results res))"
  shows "judge expected (printed (before @ report_results res)) 0 = FAIL"
proof -
  obtain pre where r: "report_results res = pre @ [''RESULT: '' @ res]"
    and pre: "\<forall>l \<in> set pre. \<not> startswith l ''RESULT: '' \<and> CHR 0x0A \<notin> set l"
    by (auto simp: report_results_def split: if_splits)
  have "split_on (CHR 0x0A) (printed (before @ report_results res)) = (before @ pre) @ (''RESULT: '' @ res) # [] @ [[]]"
    using split_printed [of "before @ report_results res"] assms(1,2) pre r by auto
  moreover have "match_result ((before @ pre) @ (''RESULT: '' @ res) # [] @ [[]]) = Some res"
    by (rule match_result_line) (use assms(1) pre in auto)
  ultimately show ?thesis using assms(3-5) by (simp add: judge_def search_result_def)
qed

lemma timeout_is_judged:
  assumes "\<not> is_in expected (printed (before @ [''RESULT: timeout'']))"
  shows "judge expected (printed (before @ [''RESULT: timeout''])) 0 = TIMEOUT"
  using is_in_printed [of "''RESULT: timeout''" "before @ [''RESULT: timeout'']" "''timeout''"] assms
  by (simp add: judge_def)

text \<open>The exit status tells whether all files passed.\<close>

lemma test_main_status:
  "test_main popen glob lines_of args = Inr (js, code) \<Longrightarrow> code = (if \<forall>j \<in> set js. j = PASS then 0 else 1)"
  by (clarsimp simp: test_main_def bindE_eq_Inr Let_def simp del: set_concat)

end
