(* ===== verification/Spec2Isabelle.thy ===== *)
theory Spec2Isabelle
  imports Transformer YamlWriter Property Options Process Tools CC Phases Verifiers Driver Linking Ktest Environ Targets Kleetester SearchPath Witnesses Testcases Install Ultimate Signals CcScript Printing TestRunner
begin

text \<open>
  Witch, a validator of verification witnesses built on Symbiotic: a Python program
  (\<open>src/lib/symbioticpy/symbiotic/\<close>, \<open>src/scripts/\<close>) that instruments a C program with the claims of
  a witness, compiles it to LLVM bitcode, instruments, slices and optimizes the bitcode with external
  programs, runs a portfolio of verifiers on it, checks their answer, and writes witnesses, tests and
  error traces. This development models the Python code; what is outside of it is an argument.

  \<^bold>\<open>How the parts interact.\<close> \<open>scripts/symbiotic\<close> reads the command line (\<open>options.py\<close>), determines the
  property (\<open>property.py\<close>), chooses a target (\<open>targets/__init__.py\<close>), sets the environment and a working
  directory (\<open>runtime.py\<close>, \<open>environment.py\<close>), and runs \<open>Symbiotic\<close> (\<open>symbiotic.py\<close>): the compiler phase
  (\<open>SymbioticCC\<close>, \<open>transform.py\<close>), which for a witness calls the witness transformer
  (\<open>witnesses/witchtransformer.py\<close>), then the verification phase (\<open>SymbioticVerifier\<close>, \<open>verifier.py\<close>) with
  the tools of \<open>targets/\<close>, which are asked for passes, command lines and verdicts. All external programs
  go through \<open>ProcessRunner\<close> (\<open>utils/process.py\<close>), whose class attribute says whether one is running. At
  the end the tool that decided writes error traces (\<open>targets/kleebase.py\<close>) and witnesses
  (\<open>witnesses/witnesses.py\<close>, \<open>witnesses/YAMLwitnesswriter.py\<close>), and the script reports and cleans up.

  \<^bold>\<open>The theories\<close>, in the order of their imports.

  \<^item> \<open>Prelude\<close>: Python's strings, slices, \<open>int\<close>, \<open>str\<close>, \<open>split\<close>, \<open>join\<close> and dicts; \<open>exn\<close>, the exceptions as
    values of a sum; \<open>cmd\<close>, a command over a state that returns or raises and keeps the state it made
    (\<open>ret\<close>, \<open>bnd\<close>, \<open>sq\<close>, \<open>throw\<close>, \<open>handle\<close>, \<open>with_state\<close>, \<open>upd\<close>, \<open>lift\<close>); the rules for invariants (\<open>keeps\<close>),
    for pre- and postconditions (\<open>triple\<close>) and for exceptions that never occur (\<open>never\<close>).
  \<^item> \<open>Clang\<close>, \<open>Insertion\<close>, \<open>Transformer\<close>: \<open>ValidationTransformer\<close>. The clang tree and the parsed witness
    are arguments. \<open>check_witness_structure\<close> is the check of the structure, \<open>traverse_AST\<close> resolves the locations of
    calls, \<open>plan_edits\<close> collects the insertions for all waypoints, \<open>insert_calls\<close> edits the lines and
    records every shift, \<open>transform\<close> composes them.
  \<^item> \<open>YamlWriter\<close>: \<open>YAMLWriter\<close>: \<open>shift_back\<close>, \<open>find_brackets\<close>, \<open>create_content\<close> and the files written. The
    locale \<open>relocation\<close> is the contract between the shifts of the transformer and the writer.
  \<^item> \<open>Property\<close>: the property classes as \<open>py_prop\<close>, the tables, \<open>get_property\<close>.
  \<^item> \<open>Options\<close>: \<open>SymbioticOptions\<close> as the record \<open>options\<close>, \<open>getopt\<close>, \<open>parse_command_line\<close>.
  \<^item> \<open>Process\<close>: the watches, \<open>run_process\<close>, \<open>runcmd\<close>, \<open>process_grep\<close>. \<open>world\<close> holds what a command prints and
    returns, given the commands run before; \<open>sys\<close> is the global state.
  \<^item> \<open>Tools\<close>, \<open>Verifiers\<close>: a tool as a record of its methods (\<open>None\<close> where \<open>hasattr\<close> is false), the base
    class, KLEE, Witch-KLEE, slowbeast, the TEST-COMP tool, and the generator of verifiers of SV-COMP
    as the resumption \<open>portfolio\<close>.
  \<^item> \<open>CC\<close>, \<open>Phases\<close>, \<open>Linking\<close>: every method of \<open>SymbioticCC\<close> as a command over the record \<open>cc\<close>, up to
    \<open>cc_run\<close> and \<open>prepare_unsliced_file\<close>; \<open>Phases\<close> holds the locales \<open>command_invariant\<close> and \<open>run_invariant\<close>,
    through which three invariants of all phases are proved once; \<open>Linking\<close> shows that the recursion of
    \<open>link_undefined\<close> ends.
  \<^item> \<open>Driver\<close>: \<open>run_portfolio\<close>, \<open>verifier_run\<close>, \<open>replay_nonsliced\<close>, the decisions of \<open>_run_symbiotic\<close> and
    \<open>run_symbiotic\<close>; the relation \<open>tried\<close> of the verifiers a portfolio has run, with their answers; locales
    \<open>verifier_invariant\<close>, \<open>driver_invariant\<close> and \<open>symbiotic_invariant\<close>.
  \<^item> \<open>Ktest\<close>: KLEE's binary test files over bytes, their printing, and the dump of error traces.
  \<^item> \<open>Environ\<close>, \<open>SearchPath\<close>: environment variables as a map, the search for LLVM and for include paths,
    \<open>find_executable\<close>, the checks of libraries, executables and versions; locales \<open>process_invariant\<close> and
    \<open>setup_invariant\<close>. \<open>SearchPath\<close> relates the texts of the variables to lists of directories.
  \<^item> \<open>Targets\<close>, \<open>Ultimate\<close>: the other verifiers: CBMC with its portfolio of bounds, ESBMC, 2LS, CPAchecker,
    Predator, PredatorHP, SMACK, Nidhugg, DIVINE, SeaHorn, IKOS, \<open>cc\<close>, Ultimate.
  \<^item> \<open>Witnesses\<close>: GraphML and YAML witnesses, executable witnesses, the report of an error, the metadata of
    a test suite, and the part of the script between the set-up and the clean-up (\<open>script_run\<close>).
  \<^item> \<open>Testcases\<close>: the writer of XML test cases. \<open>Kleetester\<close>: \<open>scripts/kleetester.py\<close>, processes that run
    side by side included.
  \<^item> \<open>Install\<close>: the table of targets, \<open>setup\<close>, \<open>cleanup\<close>, and the script from its command line to its
    exit status (\<open>main_script\<close>). \<open>Signals\<close>: time limits and keyboard interrupts, which \<open>run_process\<close> raises
    while a program runs, and what is left of that program. \<open>CcScript\<close>: \<open>scripts/symbiotic-cc\<close>, which stops
    after the compiler phase.
  \<^item> \<open>Printing\<close>: coloured output, the dump of the environment, the versions. \<open>TestRunner\<close>:
    \<open>tests/test_runner.py\<close>, with its judgement of the output of \<open>scripts/symbiotic\<close>.

  \<^bold>\<open>What is shown\<close>, by groups of lemmas.

  \<^item> Witness transformation and its inverse: the edited program contains the original one at the
    columns that are recorded, every insertion is inside the program, calls are resolved to where clang
    ends them, and the witness writer undoes the shifts.
  \<^item> Answers: what an answer true or false of KLEE and of the validator implies about its output; which
    verifier of a portfolio runs after which answers, and which run the answer of the phase is from; an
    error of a tool that can replay is only reported after the replay that was asked for; targets that
    cannot give an answer at all.
  \<^item> Settings: the command line gives consistent settings or an error, and has the effect of its options in
    their order; the property does not depend on
    the order of Python's sets; every outcome of \<open>get_property\<close>.
  \<^item> Processes and phases: a program that is alive is registered, also when a signal arrives, and the
    script leaves none alive; without signals none is left registered; no slicing when it is off, harmless aliasing
    of a mutable default argument, the end of linking and of the generation of tests, and a loop of the
    generator of tests that never goes on because two names are one list.
  \<^item> Set-up and clean-up: the environment only grows, the own programs come first in \<open>PATH\<close>, every
    version that is checked was asked for and agrees; without \<open>--save-files\<close> the working directory is
    removed after a verdict and stays behind after an error.
    \<open>symbiotic-cc\<close> leaves its output where it was asked to, loses a property file with a relative path,
    and leaves a program running when its time is over.
  \<^item> Files: test files round trip, the printed runs of bytes are the only maximal ones, numbers fit
    their width, which keys a GraphML witness declares and uses.

  \<^bold>\<open>Bounds.\<close> Python's integers are \<open>int\<close>, the bytes of test files 8-bit words. Recursion over trees and
  lists is structural or has a termination proof. Two recursions of the code may not end: linking
  (\<open>link_undefined\<close>), which calls itself until nothing is undefined, is bounded by \<open>e_depth\<close>, the
  interpreter's limit on nested calls, and raises \<open>RecursionError\<close> there as the interpreter does; \<open>Linking\<close>
  shows that the limit is not reached when fewer functions have a definition, from the laws of the compiler,
  \<open>llvm-link\<close> and \<open>llvm-nm\<close> it names. The loops of \<open>kleetester.py\<close> that
  wait for processes take a number of rounds and raise \<open>Diverges\<close>, which no program raises, when they
  use it up; \<open>Kleetester\<close> shows how many rounds are enough when every process ends.

  \<^bold>\<open>Arguments of the model.\<close> clang's trees, parsed YAML and XML, the text form of XML, SHA-256, time
  stamps, uuids and random names; what external programs print, return and leave in files (\<open>world\<close>,
  \<open>e_listdir\<close>, \<open>e_move\<close>); the file system; the order in which Python iterates over a set. A process is a
  step of the program that ends or that a signal interrupts; only \<open>Kleetester\<close> has processes that run
  side by side. A signal arrives while a program runs, where the script spends its time; one between
  two programs is not modelled.

  \<^bold>\<open>Not modelled.\<close> The usage text, and in the models of runs whatever is printed on the way; asking a
  tool for its version or the files it needs, which nothing in the program calls; the copies of BenchExec in \<open>benchexec/\<close>
  except for \<open>find_executable\<close>, the result constants and the classes that a target inherits from; building
  and installing, which are shell scripts; the C libraries and runtime functions under \<open>lib/\<close> and \<open>include/\<close>, which the verified programs are linked with.
\<close>

end
